(* ===== verification/Py_Prelude.thy ===== *)
theory Py_Prelude
  imports Main
begin

text \<open>
  Shared vocabulary of the development: the Python exceptions the modelled scripts can raise,
  results that are a value or an exception, and the state-exception-divergence actions in which
  the log-processing and file-writing scripts are translated. An action is a function from a
  state to \<open>None\<close> (the Python code does not return) or to the state it leaves behind together
  with its value or the exception it raised; an exception keeps the state mutated so far, which
  matters where the source catches it and goes on.
\<close>

named_theorems py_result_simps \<open>computation rules of results and their combinators\<close>
named_theorems py_act_simps \<open>computation rules of actions\<close>

section \<open>Exceptions and results\<close>

datatype py_error =
    IndexError
  | KeyError
  | ValueError
  | TypeError
  | AttributeError
  | NameError
  | UnboundLocalError
  | AssertionError
  | ZeroDivisionError
  | OverflowError
  | StructError
  | FileNotFoundError
  | FileExistsError
  | IOErr
  | MemoryErr
  | TimeoutErr
  | NotImplementedError
  | SystemExit string
  | ThirdParty string

type_synonym 'a result = "py_error + 'a"

datatype pyver = Py2 | Py3

definition bindE :: "'a result \<Rightarrow> ('a \<Rightarrow> 'b result) \<Rightarrow> 'b result" where
  "bindE m f = (case m of Inl e \<Rightarrow> Inl e | Inr x \<Rightarrow> f x)"

definition assertE :: "bool \<Rightarrow> py_error \<Rightarrow> unit result" where
  "assertE b e = (if b then Inr () else Inl e)"

lemma bindE_Inl [simp, py_result_simps]: "bindE (Inl e) f = Inl e"
  by (simp add: bindE_def)

lemma bindE_Inr [simp, py_result_simps]: "bindE (Inr x) f = f x"
  by (simp add: bindE_def)

lemma bindE_eq_Inr: "bindE m f = Inr y \<longleftrightarrow> (\<exists>x. m = Inr x \<and> f x = Inr y)"
  by (cases m) auto

lemma bindE_eq_Inl: "bindE m f = Inl e \<longleftrightarrow> m = Inl e \<or> (\<exists>x. m = Inr x \<and> f x = Inl e)"
  by (cases m) auto

lemma bindE_assoc: "bindE (bindE m f) g = bindE m (\<lambda>x. bindE (f x) g)"
  by (cases m) auto

lemma bindE_cong [fundef_cong]:
  "m = m' \<Longrightarrow> (\<And>x. m' = Inr x \<Longrightarrow> f x = f' x) \<Longrightarrow> bindE m f = bindE m' f'"
  by (cases m') auto

lemma assertE_simps [simp, py_result_simps]:
  "assertE True e = Inr ()" "assertE False e = Inl e"
  by (simp_all add: assertE_def)

lemma assertE_eq_Inr [simp]: "assertE b e = Inr u \<longleftrightarrow> b"
  by (simp add: assertE_def)

text \<open>A list comprehension and a \<open>for\<close> loop whose bodies may raise: the first exception ends
  both.\<close>

fun mapE :: "('a \<Rightarrow> 'b result) \<Rightarrow> 'a list \<Rightarrow> 'b list result" where
  "mapE f [] = Inr []"
| "mapE f (x # xs) = bindE (f x) (\<lambda>y. bindE (mapE f xs) (\<lambda>ys. Inr (y # ys)))"

fun forE :: "'a list \<Rightarrow> ('a \<Rightarrow> 's \<Rightarrow> 's result) \<Rightarrow> 's \<Rightarrow> 's result" where
  "forE [] f s = Inr s"
| "forE (x # xs) f s = bindE (f x s) (forE xs f)"

lemma mapE_total: "(\<And>x. x \<in> set xs \<Longrightarrow> f x = Inr (g x)) \<Longrightarrow> mapE f xs = Inr (map g xs)"
  by (induction xs) auto

lemma mapE_Inr_iff: "mapE f xs = Inr ys \<longleftrightarrow> list_all2 (\<lambda>x y. f x = Inr y) xs ys"
proof (induction xs arbitrary: ys)
  case Nil
  then show ?case by auto
next
  case (Cons x xs)
  show ?case
    by (cases ys) (auto simp: bindE_eq_Inr Cons.IH)
qed

lemma mapE_length: "mapE f xs = Inr ys \<Longrightarrow> length ys = length xs"
  by (auto simp: mapE_Inr_iff list_all2_lengthD)

lemma mapE_nth: "mapE f xs = Inr ys \<Longrightarrow> i < length xs \<Longrightarrow> f (xs ! i) = Inr (ys ! i)"
  by (auto simp: mapE_Inr_iff list_all2_conv_all_nth)

lemma mapE_append:
  "mapE f (xs @ ys) = bindE (mapE f xs) (\<lambda>as. bindE (mapE f ys) (\<lambda>bs. Inr (as @ bs)))"
  by (induction xs) (auto simp: bindE_assoc bindE_def split: sum.splits)

lemma mapE_raises: "x \<in> set xs \<Longrightarrow> f x = Inl e \<Longrightarrow> \<exists>e'. mapE f xs = Inl e'"
  by (induction xs) (auto simp: bindE_def split: sum.splits)

lemma forE_total: "(\<And>x s. x \<in> set xs \<Longrightarrow> f x s = Inr (g x s)) \<Longrightarrow> forE xs f s = Inr (fold g xs s)"
  by (induction xs arbitrary: s) auto

lemma forE_append: "forE (xs @ ys) f s = bindE (forE xs f s) (forE ys f)"
  by (induction xs arbitrary: s) (auto simp: bindE_assoc bindE_def split: sum.splits)

lemma forE_invariant:
  assumes "forE xs f s = Inr t" and "P s"
    and "\<And>x s s'. x \<in> set xs \<Longrightarrow> P s \<Longrightarrow> f x s = Inr s' \<Longrightarrow> P s'"
  shows "P t"
  using assms
proof (induction xs arbitrary: s)
  case Nil
  then show ?case by simp
next
  case (Cons x xs)
  from Cons.prems(1) obtain s1 where s1: "f x s = Inr s1" and rest: "forE xs f s1 = Inr t"
    by (auto simp: bindE_eq_Inr)
  from Cons.prems(2,3) s1 have "P s1" by auto
  with rest Cons.prems(3) show ?case by (auto intro: Cons.IH)
qed

section \<open>Python lists\<close>

text \<open>Indexing with an \<open>int\<close>: a negative index counts from the end, an index out of range raises
  IndexError. Slices never raise: their bounds are clipped.\<close>

definition py_index :: "nat \<Rightarrow> int \<Rightarrow> nat option" where
  "py_index n i =
     (if - int n \<le> i \<and> i < int n then Some (nat (if i < 0 then i + int n else i)) else None)"

definition py_get :: "'a list \<Rightarrow> int \<Rightarrow> 'a result" where
  "py_get xs i = (case py_index (length xs) i of None \<Rightarrow> Inl IndexError | Some j \<Rightarrow> Inr (xs ! j))"

definition py_set :: "'a list \<Rightarrow> int \<Rightarrow> 'a \<Rightarrow> 'a list result" where
  "py_set xs i v = (case py_index (length xs) i of None \<Rightarrow> Inl IndexError | Some j \<Rightarrow> Inr (xs[j := v]))"

definition clip_bound :: "nat \<Rightarrow> int \<Rightarrow> nat" where
  "clip_bound n i = (if i < 0 then nat (int n + i) else min n (nat i))"

definition py_slice :: "'a list \<Rightarrow> int \<Rightarrow> int \<Rightarrow> 'a list" where
  "py_slice xs a b =
     (let i = clip_bound (length xs) a; j = clip_bound (length xs) b
      in take (j - i) (drop i xs))"

definition py_prefix :: "'a list \<Rightarrow> int \<Rightarrow> 'a list" where
  "py_prefix xs k = take (clip_bound (length xs) k) xs"

lemma py_get_nat [simp]:
  "py_get xs (int i) = (if i < length xs then Inr (xs ! i) else Inl IndexError)"
  by (simp add: py_get_def py_index_def)

lemma py_get_numeral [simp]:
  "py_get xs (numeral k) =
     (if numeral k < length xs then Inr (xs ! numeral k) else Inl IndexError)"
  using py_get_nat [of xs "numeral k"] by simp

lemma py_get_0_1 [simp]:
  "py_get xs 0 = (if xs \<noteq> [] then Inr (xs ! 0) else Inl IndexError)"
  "py_get xs 1 = (if 1 < length xs then Inr (xs ! 1) else Inl IndexError)"
  using py_get_nat [of xs 0] py_get_nat [of xs 1] by auto

lemma py_set_nat [simp]:
  "py_set xs (int i) v = (if i < length xs then Inr (xs[i := v]) else Inl IndexError)"
  by (simp add: py_set_def py_index_def)

lemma py_prefix_nat [simp]: "py_prefix xs (int k) = take k xs"
  by (simp add: py_prefix_def clip_bound_def min_def)

lemma py_slice_nat [simp]: "py_slice xs (int a) (int b) = take (b - a) (drop a xs)"
proof -
  have "take (min (length xs) b - min (length xs) a) (drop (min (length xs) a) xs)
      = take (b - a) (drop a xs)"
    by (cases "a \<le> length xs"; cases "b \<le> length xs") (auto simp: min_def)
  then show ?thesis
    by (simp add: py_slice_def clip_bound_def)
qed

lemma length_py_prefix_le: "0 \<le> k \<Longrightarrow> length (py_prefix xs k) \<le> nat k"
  by (simp add: py_prefix_def clip_bound_def)

section \<open>Actions\<close>

type_synonym ('s, 'a) act = "'s \<Rightarrow> ('s \<times> 'a result) option"

definition ret :: "'a \<Rightarrow> ('s, 'a) act" where
  "ret x s = Some (s, Inr x)"

definition raiseA :: "py_error \<Rightarrow> ('s, 'a) act" where
  "raiseA e s = Some (s, Inl e)"

definition liftE :: "'a result \<Rightarrow> ('s, 'a) act" where
  "liftE r s = Some (s, r)"

definition getsA :: "('s \<Rightarrow> 'a) \<Rightarrow> ('s, 'a) act" where
  "getsA f s = Some (s, Inr (f s))"

definition modifyA :: "('s \<Rightarrow> 's) \<Rightarrow> ('s, unit) act" where
  "modifyA f s = Some (f s, Inr ())"

definition bindA :: "('s, 'a) act \<Rightarrow> ('a \<Rightarrow> ('s, 'b) act) \<Rightarrow> ('s, 'b) act" where
  "bindA m f s =
     (case m s of None \<Rightarrow> None
      | Some (s', r) \<Rightarrow> (case r of Inl e \<Rightarrow> Some (s', Inl e) | Inr x \<Rightarrow> f x s'))"

definition seqA :: "('s, unit) act \<Rightarrow> ('s, 'b) act \<Rightarrow> ('s, 'b) act" where
  "seqA m n = bindA m (\<lambda>_. n)"

definition whenA :: "bool \<Rightarrow> ('s, unit) act \<Rightarrow> ('s, unit) act" where
  "whenA b m = (if b then m else ret ())"

text \<open>\<open>try: m except e in E: h\<close>: the handler runs in the state the exception left.\<close>

definition catchA :: "('s, 'a) act \<Rightarrow> py_error set \<Rightarrow> (py_error \<Rightarrow> ('s, 'a) act) \<Rightarrow> ('s, 'a) act" where
  "catchA m E h s =
     (case m s of None \<Rightarrow> None
      | Some (s', r) \<Rightarrow>
          (case r of Inl e \<Rightarrow> (if e \<in> E then h e s' else Some (s', Inl e)) | Inr x \<Rightarrow> Some (s', Inr x)))"

text \<open>\<open>while True: body\<close>, where the body returns \<open>False\<close> for \<open>break\<close>. The loop may run for ever:
  then its value is \<open>None\<close>.\<close>

partial_function (option) loopA :: "('s, bool) act \<Rightarrow> 's \<Rightarrow> ('s \<times> unit result) option" where
  "loopA body s =
     (case body s of None \<Rightarrow> None
      | Some (s', r) \<Rightarrow>
          (case r of Inl e \<Rightarrow> Some (s', Inl e)
           | Inr go \<Rightarrow> (if go then loopA body s' else Some (s', Inr ()))))"

fun forA :: "'a list \<Rightarrow> ('a \<Rightarrow> ('s, unit) act) \<Rightarrow> ('s, unit) act" where
  "forA [] f = ret ()"
| "forA (x # xs) f = seqA (f x) (forA xs f)"

lemma act_run [simp, py_act_simps]:
  "ret x s = Some (s, Inr x)"
  "raiseA e s = Some (s, Inl e)"
  "liftE r s = Some (s, r)"
  "getsA f s = Some (s, Inr (f s))"
  "modifyA g s = Some (g s, Inr ())"
  by (simp_all add: ret_def raiseA_def liftE_def getsA_def modifyA_def)

lemma bindA_run [py_act_simps]:
  "m s = Some (s', Inr x) \<Longrightarrow> bindA m f s = f x s'"
  "m s = Some (s', Inl e) \<Longrightarrow> bindA m f s = Some (s', Inl e)"
  "m s = None \<Longrightarrow> bindA m f s = None"
  by (simp_all add: bindA_def)

lemma bindA_act [simp, py_act_simps]:
  "bindA (ret x) f s = f x s"
  "bindA (raiseA e) f s = Some (s, Inl e)"
  "bindA (getsA g) f s = f (g s) s"
  "bindA (modifyA h) k s = k () (h s)"
  "bindA (liftE (Inr y)) f s = f y s"
  "bindA (liftE (Inl e)) f s = Some (s, Inl e)"
  by (simp_all add: bindA_def)

lemma seqA_run [simp, py_act_simps]: "seqA m n s = bindA m (\<lambda>_. n) s"
  by (simp add: seqA_def)

lemma whenA_run [simp, py_act_simps]:
  "whenA True m = m" "whenA False m = ret ()"
  by (simp_all add: whenA_def)

lemma loopA_unfold:
  assumes "body s = Some (s', Inr go)"
  shows "loopA body s = (if go then loopA body s' else Some (s', Inr ()))"
  using assms by (subst loopA.simps) simp

lemma loopA_raise: "body s = Some (s', Inl e) \<Longrightarrow> loopA body s = Some (s', Inl e)"
  by (subst loopA.simps) simp

lemma loopA_body_diverges: "body s = None \<Longrightarrow> loopA body s = None"
  by (subst loopA.simps) simp

text \<open>Divergence: a loop whose body keeps a set of states and always goes on never returns.\<close>

lemma loopA_diverges:
  assumes "P s" and go: "\<And>s. P s \<Longrightarrow> \<exists>s'. body s = Some (s', Inr True) \<and> P s'"
  shows "loopA body s = None"
proof (rule ccontr)
  assume "loopA body s \<noteq> None"
  then obtain r where "loopA body s = Some r" by blast
  then have "body = body \<longrightarrow> P s \<longrightarrow> False"
  proof (rule loopA.raw_induct [where P = "\<lambda>b s r. b = body \<longrightarrow> P s \<longrightarrow> False", rotated])
    fix loop b t q
    assume IH: "\<And>b s r. loop b s = Some r \<Longrightarrow> b = body \<longrightarrow> P s \<longrightarrow> False"
      and eq: "(case b t of None \<Rightarrow> None
        | Some (s', r) \<Rightarrow>
            (case r of Inl e \<Rightarrow> Some (s', Inl e)
             | Inr go \<Rightarrow> (if go then loop b s' else Some (s', Inr ())))) = Some q"
    show "b = body \<longrightarrow> P t \<longrightarrow> False"
    proof (intro impI)
      assume b: "b = body" and "P t"
      from go [OF \<open>P t\<close>] obtain t' where "body t = Some (t', Inr True)" and "P t'" by blast
      with eq b have "loop body t' = Some q" by simp
      from IH [OF this] \<open>P t'\<close> show False by simp
    qed
  qed
  with assms(1) show False by simp
qed

text \<open>Termination and a postcondition: a measure that every continuing iteration decreases and an
  invariant that the body keeps.\<close>

lemma loopA_total:
  fixes m :: "'s \<Rightarrow> nat"
  assumes "I s"
    and step: "\<And>s. I s \<Longrightarrow> \<exists>s' go. body s = Some (s', Inr go) \<and> (go \<longrightarrow> I s' \<and> m s' < m s) \<and>
                 (\<not> go \<longrightarrow> Q s')"
  shows "\<exists>s'. loopA body s = Some (s', Inr ()) \<and> Q s'"
  using assms(1)
proof (induction "m s" arbitrary: s rule: less_induct)
  case less
  from step [OF less.prems] obtain s' go where
    body: "body s = Some (s', Inr go)" and
    yes: "go \<longrightarrow> I s' \<and> m s' < m s" and no: "\<not> go \<longrightarrow> Q s'" by blast
  show ?case
  proof (cases go)
    case True
    with yes have "I s'" and "m s' < m s" by simp_all
    with less.hyps have "\<exists>t. loopA body s' = Some (t, Inr ()) \<and> Q t" by blast
    with body True show ?thesis by (simp add: loopA_unfold)
  next
    case False
    with body no show ?thesis by (simp add: loopA_unfold)
  qed
qed

text \<open>A loop whose k-th round leads from the k-th state to the next and goes on unless it was the last.\<close>

lemma loopA_count:
  assumes "0 < n" and "\<And>i. i < n \<Longrightarrow> body (f i) = Some (f (Suc i), Inr (Suc i \<noteq> n))"
  shows "loopA body (f 0) = Some (f n, Inr ())"
proof -
  have "loopA body (f i) = Some (f n, Inr ())" if "i < n" for i
    using that
  proof (induction "n - i" arbitrary: i)
    case (Suc k)
    show ?case
    proof (cases "Suc i = n")
      case True
      then show ?thesis by (simp add: loopA_unfold [of body "f i", OF assms(2) [OF Suc.prems]])
    next
      case False
      with Suc have "loopA body (f (Suc i)) = Some (f n, Inr ())" by auto
      with False show ?thesis by (simp add: loopA_unfold [of body "f i", OF assms(2) [OF Suc.prems]])
    qed
  qed simp
  with assms(1) show ?thesis by blast
qed

text \<open>Partial correctness of a loop, for a body that may raise, and what holds of every round.\<close>

lemma loopA_partial:
  assumes run: "loopA body s = Some (t, Inr ())" and "I s"
    and step: "\<And>s s' go. I s \<Longrightarrow> body s = Some (s', Inr go) \<Longrightarrow> (if go then I s' else Q s')"
  shows "Q t"
proof -
  have "body = body \<longrightarrow> I s \<longrightarrow> snd (t, Inr () :: unit result) = Inr () \<longrightarrow> Q (fst (t, Inr () :: unit result))"
    using run
  proof (rule loopA.raw_induct [where P = "\<lambda>b s r. b = body \<longrightarrow> I s \<longrightarrow> snd r = Inr () \<longrightarrow> Q (fst r)", rotated])
    fix loop b u q
    assume IH: "\<And>b s r. loop b s = Some r \<Longrightarrow> b = body \<longrightarrow> I s \<longrightarrow> snd r = Inr () \<longrightarrow> Q (fst r)"
      and eq: "(case b u of None \<Rightarrow> None
        | Some (s', r) \<Rightarrow>
            (case r of Inl e \<Rightarrow> Some (s', Inl e)
             | Inr go \<Rightarrow> (if go then loop b s' else Some (s', Inr ())))) = Some q"
    show "b = body \<longrightarrow> I u \<longrightarrow> snd q = Inr () \<longrightarrow> Q (fst q)"
    proof (intro impI)
      assume b: "b = body" and "I u" and "snd q = Inr ()"
      with eq obtain s' go where s': "body u = Some (s', Inr go)" by (auto split: option.splits sum.splits prod.splits)
      with step [OF \<open>I u\<close>] have "if go then I s' else Q s'" by blast
      moreover have "(if go then loop body s' else Some (s', Inr ())) = Some q" using eq s' unfolding b by simp
      ultimately show "Q (fst q)" using IH [of body s' q] \<open>snd q = Inr ()\<close> by (cases go) auto
    qed
  qed
  with assms(2) show ?thesis by simp
qed

lemma forA_returns:
  assumes "\<And>x s. x \<in> set xs \<Longrightarrow> \<exists>s' r. f x s = Some (s', r)"
  shows "\<exists>s' r. forA xs f s = Some (s', r)"
  using assms
proof (induction xs arbitrary: s)
  case (Cons x xs)
  then obtain s1 r1 where "f x s = Some (s1, r1)" by fastforce
  with Cons show ?case by (cases r1) (auto simp: bindA_def)
qed simp

lemma forA_invariant:
  assumes "forA xs f s = Some (t, Inr ())" and "P 0 s"
    and "\<And>i s s'. i < length xs \<Longrightarrow> P i s \<Longrightarrow> f (xs ! i) s = Some (s', Inr ()) \<Longrightarrow> P (Suc i) s'"
  shows "P (length xs) t"
  using assms
proof (induction xs arbitrary: s P)
  case (Cons x xs)
  from Cons.prems(1) obtain s1 where s1: "f x s = Some (s1, Inr ())" and rest: "forA xs f s1 = Some (t, Inr ())"
    by (auto simp: bindA_def split: option.splits prod.splits sum.splits)
  from Cons.prems(2) Cons.prems(3) [of 0 s s1] s1 have "P (Suc 0) s1" by simp
  from Cons.IH [OF rest, of "\<lambda>i. P (Suc i)", OF this] Cons.prems(3) show ?case by fastforce
qed simp

lemma forA_steps:
  assumes "P 0 s" and "\<And>i s. i < length xs \<Longrightarrow> P i s \<Longrightarrow> \<exists>s'. f (xs ! i) s = Some (s', Inr ()) \<and> P (Suc i) s'"
  shows "\<exists>t. forA xs f s = Some (t, Inr ()) \<and> P (length xs) t"
  using assms
proof (induction xs arbitrary: s P)
  case (Cons x xs)
  from Cons.prems(1) Cons.prems(2) [of 0 s] obtain s1 where s1: "f x s = Some (s1, Inr ())" "P (Suc 0) s1" by auto
  from Cons.IH [of "\<lambda>i. P (Suc i)", OF s1(2)] Cons.prems(2)
  have "\<exists>t. forA xs f s1 = Some (t, Inr ()) \<and> P (Suc (length xs)) t" by fastforce
  with s1(1) show ?case by (auto simp: bindA_def)
qed simp

lemma bindA_Inr:
  assumes "bindA m f s = Some (t, Inr y)"
  obtains s' x where "m s = Some (s', Inr x)" and "f x s' = Some (t, Inr y)"
  using assms by (auto simp: bindA_def split: option.splits prod.splits sum.splits)

lemma bindA_returns:
  assumes "\<exists>s' r. m s = Some (s', r)" and "\<And>x s'. m s = Some (s', Inr x) \<Longrightarrow> \<exists>t r. f x s' = Some (t, r)"
  shows "\<exists>t r. bindA m f s = Some (t, r)"
proof -
  from assms(1) obtain s' r where m: "m s = Some (s', r)" by blast
  with assms(2) show ?thesis by (cases r) (auto simp: bindA_def)
qed

end
