(* ===== verification/Py_Float.thy ===== *)
theory Py_Float
  imports Complex_Main "HOL-Library.Log_Nat" "HOL-Library.Product_Lexorder" Py_Prelude
begin

text \<open>
  Python's \<open>float\<close> (IEEE binary64) as exact rationals with the rounding written out: a finite value
  is a rational, and every arithmetic operation is the exact operation followed by \<open>rndf\<close>, rounding
  to nearest with ties to even, for a format of \<open>p\<close> bits of precision and least exponent \<open>emin\<close>.
  binary64 is \<open>(53, -1074)\<close>, binary32 \<open>(24, -149)\<close>. Overflow gives an infinity. The two zeros are
  not told apart. The locale \<open>bin_format\<close> holds what the clients rely on: rounding is monotone, odd
  and exact on representable numbers; it is interpreted for both formats.
\<close>

section \<open>Rounding\<close>

definition ilog2 :: "rat \<Rightarrow> int" where
  "ilog2 x =
     (case quotient_of x of (p, q) \<Rightarrow>
       let e = bitlen p - bitlen q in if x < 2 powi e then e - 1 else e)"

definition rnd_even :: "rat \<Rightarrow> int" where
  "rnd_even x =
     (let f = \<lfloor>x\<rfloor>; d = x - of_int f
      in if d < 1 / 2 then f else if d > 1 / 2 then f + 1 else if even f then f else f + 1)"

definition quantum :: "int \<Rightarrow> int \<Rightarrow> rat \<Rightarrow> int" where
  "quantum p emin x = max (ilog2 \<bar>x\<bar> - p + 1) emin"

definition rndf :: "int \<Rightarrow> int \<Rightarrow> rat \<Rightarrow> rat" where
  "rndf p emin x =
     (if x = 0 then 0
      else of_int (rnd_even (x / 2 powi quantum p emin x)) * 2 powi quantum p emin x)"

lemma two_powi_pos [simp]: "0 < (2 :: rat) powi e"
  by (simp add: zero_less_power_int)

lemma two_powi_less: "a < b \<Longrightarrow> (2 :: rat) powi a < 2 powi b"
  by (rule power_int_strict_increasing) simp_all

lemma two_powi_le: "a \<le> b \<Longrightarrow> (2 :: rat) powi a \<le> 2 powi b"
  by (rule power_int_increasing) simp_all

lemma two_powi_less_iff: "(2 :: rat) powi a < 2 powi b \<longleftrightarrow> a < b"
  using two_powi_le [of b a] two_powi_less [of a b] by (cases "a < b") auto

lemma two_powi_add: "(2 :: rat) powi (a + b) = 2 powi a * 2 powi b"
  by (simp add: power_int_add)

lemma two_powi_nat: "0 \<le> e \<Longrightarrow> (2 :: rat) powi e = of_int (2 ^ nat e)"
  by (simp add: power_int_def)

lemma ilog2_bounds:
  assumes "0 < x"
  shows "2 powi ilog2 x \<le> x" and "x < 2 powi (ilog2 x + 1)"
proof -
  obtain p q where pq: "quotient_of x = (p, q)" by (cases "quotient_of x")
  from pq have q: "0 < q" by (rule quotient_of_denom_pos)
  from pq have x: "x = of_int p / of_int q" by (rule quotient_of_div)
  from assms x q have p: "0 < p" by (simp add: zero_less_divide_iff)
  define a b where "a = bitlen p" and "b = bitlen q"
  have ab: "0 < a" "0 < b"
    using p q bitlen_bounds [OF p] bitlen_bounds [OF q] by (cases "0 < a"; cases "0 < b"; simp add: a_def b_def)+
  have "2 ^ nat (a - 1) \<le> p" "p < 2 ^ nat a" "2 ^ nat (b - 1) \<le> q" "q < 2 ^ nat b"
    using bitlen_bounds [OF p] bitlen_bounds [OF q] by (simp_all add: a_def b_def)
  then have r: "(2 :: rat) powi (a - 1) \<le> of_int p" "of_int p < (2 :: rat) powi a"
      "(2 :: rat) powi (b - 1) \<le> of_int q" "of_int q < (2 :: rat) powi b"
    using ab by (simp_all only: two_powi_nat of_int_le_iff of_int_less_iff
        ab order.strict_implies_order diff_ge_0_iff_ge, simp_all add: two_powi_nat)
  have qpos: "(0 :: rat) < of_int q" using q by simp
  have up: "x < 2 powi (a - b + 1)"
  proof -
    have "(2 :: rat) powi a = 2 powi (a - b + 1) * 2 powi (b - 1)"
      by (simp flip: two_powi_add)
    also have "\<dots> \<le> 2 powi (a - b + 1) * of_int q"
      using r(3) by (intro mult_left_mono) simp_all
    finally have "of_int p < (2 :: rat) powi (a - b + 1) * of_int q" using r(2) by linarith
    with qpos show ?thesis by (simp add: x field_simps)
  qed
  have low: "2 powi (a - b - 1) \<le> x"
  proof -
    have "(2 :: rat) powi (a - b - 1) * of_int q \<le> 2 powi (a - b - 1) * 2 powi b"
      using r(4) by (intro mult_left_mono) simp_all
    also have "\<dots> = 2 powi (a - 1)" by (simp flip: two_powi_add)
    finally have "(2 :: rat) powi (a - b - 1) * of_int q \<le> of_int p" using r(1) by linarith
    with qpos show ?thesis by (simp add: x field_simps)
  qed
  show "2 powi ilog2 x \<le> x" and "x < 2 powi (ilog2 x + 1)"
    using up low by (auto simp: ilog2_def pq Let_def a_def b_def not_less)
qed

lemma ilog2_mono:
  assumes "0 < x" and "x \<le> y"
  shows "ilog2 x \<le> ilog2 y"
proof -
  have "2 powi ilog2 x \<le> x" using assms by (simp add: ilog2_bounds)
  also have "x \<le> y" by fact
  also have "y < 2 powi (ilog2 y + 1)" using assms by (simp add: ilog2_bounds)
  finally show ?thesis by (simp add: two_powi_less_iff)
qed

lemma ilog2_less: "0 < x \<Longrightarrow> x < 2 powi e \<Longrightarrow> ilog2 x < e"
  using ilog2_bounds(1) [of x] by (metis order.strict_trans1 two_powi_less_iff)

lemma ilog2_ge: "0 < x \<Longrightarrow> 2 powi e \<le> x \<Longrightarrow> e \<le> ilog2 x"
  using ilog2_bounds(2) [of x] by (smt (verit) order.strict_trans1 two_powi_less_iff)

lemma rnd_even_bounds: "\<lfloor>x\<rfloor> \<le> rnd_even x" "rnd_even x \<le> \<lfloor>x\<rfloor> + 1"
  by (simp_all add: rnd_even_def Let_def)

lemma rnd_even_of_int [simp]: "rnd_even (of_int n) = n"
  by (simp add: rnd_even_def)

lemma rnd_even_mono:
  assumes "x \<le> y"
  shows "rnd_even x \<le> rnd_even y"
proof (cases "\<lfloor>x\<rfloor> = \<lfloor>y\<rfloor>")
  case True
  with assms show ?thesis by (auto simp: rnd_even_def Let_def)
next
  case False
  with floor_mono [OF assms] have "\<lfloor>x\<rfloor> + 1 \<le> \<lfloor>y\<rfloor>" by simp
  with rnd_even_bounds [of x] rnd_even_bounds [of y] show ?thesis by linarith
qed

lemma rnd_even_minus: "rnd_even (- x) = - rnd_even x"
proof (cases "of_int \<lfloor>x\<rfloor> = x")
  case True
  then show ?thesis by (metis of_int_minus rnd_even_of_int)
next
  case False
  then have fl: "\<lfloor>- x\<rfloor> = - \<lfloor>x\<rfloor> - 1"
    by linarith
  show ?thesis
    by (auto simp: rnd_even_def Let_def fl)
qed

section \<open>The interface of a binary format\<close>

locale bin_format =
  fixes p :: int and emin :: int
  assumes prec_pos: "1 \<le> p" and emin_neg: "emin \<le> 0"
begin

definition representable :: "rat \<Rightarrow> bool" where
  "representable x \<longleftrightarrow> (\<exists>m e. x = of_int m * 2 powi e \<and> emin \<le> e \<and> \<bar>m\<bar> \<le> 2 ^ nat p)"

lemma rndf_minus: "rndf p emin (- x) = - rndf p emin x"
  by (simp add: rndf_def quantum_def rnd_even_minus)

lemma rndf_multiple:
  assumes "x = of_int m * 2 powi e" and "quantum p emin x \<le> e"
  shows "rndf p emin x = x"
proof (cases "x = 0")
  case False
  define q where "q = quantum p emin x"
  from assms(2) have "(2 :: rat) powi e = of_int (2 ^ nat (e - q)) * 2 powi q"
    using two_powi_add [of "e - q" q] by (simp add: q_def two_powi_nat)
  then have "x / 2 powi q = of_int (m * 2 ^ nat (e - q))"
    by (simp add: assms(1))
  then have "rnd_even (x / 2 powi q) = m * 2 ^ nat (e - q)"
    by (simp only: rnd_even_of_int)
  with False \<open>x / 2 powi q = _\<close> show ?thesis
    by (simp add: rndf_def flip: q_def) (metis (no_types, opaque_lifting) \<open>2 powi e = _\<close> assms(1)
        mult.assoc of_int_mult of_int_numeral of_int_power)
qed (simp add: rndf_def)

lemma rndf_representable:
  assumes "representable x"
  shows "rndf p emin x = x"
proof (cases "x = 0")
  case False
  from assms obtain m e where x: "x = of_int m * 2 powi e" and e: "emin \<le> e"
    and m: "\<bar>m\<bar> \<le> 2 ^ nat p" unfolding representable_def by blast
  define l where "l = ilog2 \<bar>x\<bar>"
  have pos: "0 < \<bar>x\<bar>" using False by simp
  show ?thesis
  proof (cases "quantum p emin x \<le> e")
    case True
    then show ?thesis by (rule rndf_multiple [OF x])
  next
    case False
    then have q: "e + 1 \<le> l - p + 1" using e by (auto simp: quantum_def l_def)
    have "2 powi (p + e) \<le> (2 :: rat) powi l" using q by (intro two_powi_le) simp
    also have "\<dots> \<le> \<bar>x\<bar>" using ilog2_bounds(1) [OF pos] by (simp add: l_def)
    finally have lower: "2 powi (p + e) \<le> \<bar>x\<bar>" .
    have "\<bar>x\<bar> = of_int \<bar>m\<bar> * 2 powi e" by (simp add: x abs_mult)
    also have "\<dots> \<le> of_int (2 ^ nat p) * 2 powi e"
      using m by (intro mult_right_mono) (simp_all only: of_int_le_iff, simp)
    also have "\<dots> = 2 powi (p + e)"
      using prec_pos by (simp add: two_powi_add two_powi_nat)
    finally have "\<bar>x\<bar> = 2 powi (p + e)" using lower by linarith
    moreover have "(2 :: rat) powi (p + e) = of_int (2 ^ nat (p - 1)) * 2 powi (e + 1)"
      using prec_pos two_powi_add [of "p - 1" "e + 1"] by (simp add: two_powi_nat)
    ultimately have "\<bar>x\<bar> = of_int (2 ^ nat (p - 1)) * 2 powi (e + 1)" by simp
    then have "x = of_int (sgn m * 2 ^ nat (p - 1)) * 2 powi (e + 1)"
      using x two_powi_pos [of e] by (cases "m < 0"; cases "m = 0")
        (auto simp: abs_mult sgn_if)
    moreover have "quantum p emin x \<le> e + 1"
    proof -
      have "\<bar>x\<bar> < 2 powi (p + e + 1)"
        using \<open>\<bar>x\<bar> = 2 powi (p + e)\<close> by (simp add: two_powi_less_iff)
      then have "l < p + e + 1" unfolding l_def by (rule ilog2_less [OF pos])
      with e show ?thesis by (simp add: quantum_def l_def)
    qed
    ultimately show ?thesis by (rule rndf_multiple)
  qed
qed (simp add: rndf_def)

lemma rndf_0 [simp]: "rndf p emin 0 = 0"
  by (simp add: rndf_def)

lemma representable_of_int: "\<bar>n\<bar> \<le> 2 ^ nat p \<Longrightarrow> representable (of_int n)"
  unfolding representable_def using emin_neg by (intro exI [of _ n] exI [of _ 0]) simp

lemma rndf_of_int: "\<bar>n\<bar> \<le> 2 ^ nat p \<Longrightarrow> rndf p emin (of_int n) = of_int n"
  by (simp add: rndf_representable representable_of_int)

lemma rndf_mono_pos:
  assumes "0 < x" and "x \<le> y"
  shows "rndf p emin x \<le> rndf p emin y"
proof -
  define qx qy where "qx = quantum p emin x" and "qy = quantum p emin y"
  define lx ly where "lx = ilog2 x" and "ly = ilog2 y"
  have y: "0 < y" using assms by simp
  have lxy: "lx \<le> ly" using assms by (simp add: lx_def ly_def ilog2_mono)
  have q: "qx = max (lx - p + 1) emin" "qy = max (ly - p + 1) emin"
    using assms y by (simp_all add: qx_def qy_def quantum_def lx_def ly_def)
  have rx: "rndf p emin x = of_int (rnd_even (x / 2 powi qx)) * 2 powi qx"
    and ry: "rndf p emin y = of_int (rnd_even (y / 2 powi qy)) * 2 powi qy"
    using assms y by (simp_all add: rndf_def qx_def qy_def)
  show ?thesis
  proof (cases "qx = qy")
    case True
    have "rnd_even (x / 2 powi qy) \<le> rnd_even (y / 2 powi qy)"
      using assms by (intro rnd_even_mono divide_right_mono) simp_all
    then show ?thesis using True by (simp add: rx ry)
  next
    case False
    with q lxy have less: "qx \<le> ly" "qy = ly - p + 1" "lx < ly"
      using prec_pos by auto
    have x2: "x \<le> 2 powi ly"
    proof -
      have "x < 2 powi (lx + 1)" using assms by (simp add: lx_def ilog2_bounds)
      also have "\<dots> \<le> 2 powi ly" using less by (intro two_powi_le) simp
      finally show ?thesis by simp
    qed
    have y2: "2 powi ly \<le> y" using y by (simp add: ly_def ilog2_bounds)
    have step: "of_int (rnd_even (2 powi ly / 2 powi q)) * 2 powi q = (2 :: rat) powi ly"
      if "q \<le> ly" for q
    proof -
      from that have "(2 :: rat) powi ly / 2 powi q = of_int (2 ^ nat (ly - q))"
        using two_powi_add [of "ly - q" q] by (simp add: two_powi_nat)
      then show ?thesis by (metis nonzero_eq_divide_eq order_less_irrefl rnd_even_of_int two_powi_pos)
    qed
    have "rndf p emin x \<le> of_int (rnd_even (2 powi ly / 2 powi qx)) * 2 powi qx"
      unfolding rx using x2
      by (intro mult_right_mono of_int_le_iff [THEN iffD2] rnd_even_mono divide_right_mono) simp_all
    also have "\<dots> = 2 powi ly" using less by (intro step) simp
    also have "\<dots> = of_int (rnd_even (2 powi ly / 2 powi qy)) * 2 powi qy"
      using less prec_pos by (intro step [symmetric]) simp
    also have "\<dots> \<le> rndf p emin y"
      unfolding ry using y2
      by (intro mult_right_mono of_int_le_iff [THEN iffD2] rnd_even_mono divide_right_mono) simp_all
    finally show ?thesis .
  qed
qed

lemma rndf_nonneg: "0 \<le> x \<Longrightarrow> 0 \<le> rndf p emin x"
  using rnd_even_mono [of 0 "x / 2 powi quantum p emin x"] rnd_even_of_int [of 0]
  by (simp add: rndf_def del: rnd_even_of_int)

theorem rndf_mono: "x \<le> y \<Longrightarrow> rndf p emin x \<le> rndf p emin y"
proof -
  assume xy: "x \<le> y"
  consider "0 < x" | "x \<le> 0" "0 \<le> y" | "y < 0" by linarith
  then show ?thesis
  proof cases
    case 1
    then show ?thesis using xy by (rule rndf_mono_pos)
  next
    case 2
    then have "0 \<le> rndf p emin (- x)" and "0 \<le> rndf p emin y" by (simp_all add: rndf_nonneg)
    then show ?thesis by (simp add: rndf_minus)
  next
    case 3
    with xy have "rndf p emin (- y) \<le> rndf p emin (- x)" by (intro rndf_mono_pos) simp_all
    then show ?thesis by (simp add: rndf_minus)
  qed
qed

lemma rndf_le_int: "x \<le> of_int n \<Longrightarrow> \<bar>n\<bar> \<le> 2 ^ nat p \<Longrightarrow> rndf p emin x \<le> of_int n"
  using rndf_mono [of x "of_int n"] rndf_of_int [of n] by simp

lemma rndf_ge_int: "of_int n \<le> x \<Longrightarrow> \<bar>n\<bar> \<le> 2 ^ nat p \<Longrightarrow> of_int n \<le> rndf p emin x"
  using rndf_mono [of "of_int n" x] rndf_of_int [of n] by simp

end

interpretation b64: bin_format 53 "-1074"
  by unfold_locales simp_all

interpretation b32: bin_format 24 "-149"
  by unfold_locales simp_all

section \<open>Float values and operations\<close>

datatype pyfloat = FFin rat | FInf | FNInf | FNan

definition fl64 :: "rat \<Rightarrow> pyfloat" where
  "fl64 x =
     (let r = rndf 53 (-1074) x
      in if 2 ^ 1024 \<le> r then FInf else if r \<le> - (2 ^ 1024) then FNInf else FFin r)"

fun fneg :: "pyfloat \<Rightarrow> pyfloat" where
  "fneg (FFin a) = FFin (- a)"
| "fneg FInf = FNInf"
| "fneg FNInf = FInf"
| "fneg FNan = FNan"

fun fadd :: "pyfloat \<Rightarrow> pyfloat \<Rightarrow> pyfloat" where
  "fadd (FFin a) (FFin b) = fl64 (a + b)"
| "fadd FNan _ = FNan"
| "fadd _ FNan = FNan"
| "fadd FInf FNInf = FNan"
| "fadd FNInf FInf = FNan"
| "fadd FInf _ = FInf"
| "fadd _ FInf = FInf"
| "fadd FNInf _ = FNInf"
| "fadd _ FNInf = FNInf"

fun fsgn :: "pyfloat \<Rightarrow> int" where
  "fsgn (FFin a) = (if 0 < a then 1 else if a < 0 then - 1 else 0)"
| "fsgn FInf = 1"
| "fsgn FNInf = - 1"
| "fsgn FNan = 0"

definition finf_of_sign :: "int \<Rightarrow> pyfloat" where
  "finf_of_sign s = (if 0 < s then FInf else if s < 0 then FNInf else FNan)"

fun fmul :: "pyfloat \<Rightarrow> pyfloat \<Rightarrow> pyfloat" where
  "fmul (FFin a) (FFin b) = fl64 (a * b)"
| "fmul FNan _ = FNan"
| "fmul _ FNan = FNan"
| "fmul x y = finf_of_sign (fsgn x * fsgn y)"

text \<open>\<open>/\<close> on two floats raises on a zero divisor (numpy's does not; it is not modelled here).\<close>

fun fdiv :: "pyfloat \<Rightarrow> pyfloat \<Rightarrow> pyfloat result" where
  "fdiv x (FFin b) =
     (if b = 0 then Inl ZeroDivisionError
      else Inr (case x of FFin a \<Rightarrow> fl64 (a / b) | FNan \<Rightarrow> FNan
                | FInf \<Rightarrow> finf_of_sign (fsgn (FFin b)) | FNInf \<Rightarrow> finf_of_sign (- fsgn (FFin b))))"
| "fdiv x FNan = Inr FNan"
| "fdiv x y = Inr (case x of FFin a \<Rightarrow> FFin 0 | _ \<Rightarrow> FNan)"

text \<open>IEEE division as numpy's \<open>float64\<close> does it: no exception.\<close>

fun ieee_div :: "pyfloat \<Rightarrow> pyfloat \<Rightarrow> pyfloat" where
  "ieee_div x y =
     (case fdiv x y of Inr r \<Rightarrow> r | Inl _ \<Rightarrow> finf_of_sign (fsgn x))"

fun flt :: "pyfloat \<Rightarrow> pyfloat \<Rightarrow> bool" where
  "flt (FFin a) (FFin b) = (a < b)"
| "flt FNan _ = False"
| "flt _ FNan = False"
| "flt FInf _ = False"
| "flt _ FInf = True"
| "flt _ FNInf = False"
| "flt FNInf _ = True"

fun feq :: "pyfloat \<Rightarrow> pyfloat \<Rightarrow> bool" where
  "feq FNan _ = False"
| "feq _ FNan = False"
| "feq x y = (x = y)"

definition fle :: "pyfloat \<Rightarrow> pyfloat \<Rightarrow> bool" where
  "fle x y = (flt x y \<or> feq x y)"

definition is_fin :: "pyfloat \<Rightarrow> bool" where
  "is_fin x = (case x of FFin _ \<Rightarrow> True | _ \<Rightarrow> False)"

text \<open>\<open>float(n)\<close> of an \<open>int\<close>, and true division of two \<open>int\<close>s (correctly rounded, Python 3's \<open>/\<close>).\<close>

definition checked_float :: "rat \<Rightarrow> pyfloat result" where
  "checked_float x = (case fl64 x of FFin r \<Rightarrow> Inr (FFin r) | _ \<Rightarrow> Inl OverflowError)"

definition float_of_int :: "int \<Rightarrow> pyfloat result" where
  "float_of_int n = checked_float (of_int n)"

definition int_truediv :: "int \<Rightarrow> int \<Rightarrow> pyfloat result" where
  "int_truediv a b = (if b = 0 then Inl ZeroDivisionError else checked_float (of_int a / of_int b))"

lemma fle_Fin [simp]: "fle (FFin a) (FFin b) \<longleftrightarrow> a \<le> b"
  by (auto simp: fle_def)

lemma fle_Inf [simp]: "fle FInf (FFin b) = False"
  by (simp add: fle_def)

lemma not_fle_NaN [simp]: "fle FNan y = False" "fle x FNan = False"
  by (cases x; simp add: fle_def)+

text \<open>A value between two integers of at most 53 bits rounds to a finite float between them.\<close>

lemma fl64_between:
  assumes "of_int a \<le> x" and "x \<le> of_int b" and "\<bar>a\<bar> \<le> 2 ^ 53" and "\<bar>b\<bar> \<le> 2 ^ 53"
  shows "\<exists>r. fl64 x = FFin r \<and> of_int a \<le> r \<and> r \<le> of_int b"
proof -
  define r where "r = rndf 53 (-1074) x"
  have ab: "of_int a \<le> r" "r \<le> of_int b"
    using b64.rndf_ge_int [of a x] b64.rndf_le_int [of x b] assms by (simp_all add: r_def)
  have big: "(2 :: rat) ^ 53 < 2 ^ 1024" by (rule power_strict_increasing) simp_all
  have "of_int b \<le> (2 :: rat) ^ 53" "- (2 ^ 53) \<le> (of_int a :: rat)"
    using assms(3,4) by (simp_all add: abs_le_iff)
  with ab big have "\<not> 2 ^ 1024 \<le> r" "\<not> r \<le> - (2 ^ 1024)" by linarith+
  with ab show ?thesis by (simp add: fl64_def r_def Let_def)
qed

lemma fl64_of_int:
  assumes "\<bar>n\<bar> \<le> 2 ^ 53"
  shows "fl64 (of_int n) = FFin (of_int n)"
  using fl64_between [of n "of_int n" n] assms by force

text \<open>A fast path for evaluation: integers of at most 53 bits are themselves.\<close>

lemma fl64_code [code]:
  "fl64 x =
     (case quotient_of x of (n, d) \<Rightarrow>
       if d = 1 \<and> \<bar>n\<bar> \<le> 9007199254740992 then FFin x
       else (let r = rndf 53 (-1074) x
             in if 2 ^ 1024 \<le> r then FInf else if r \<le> - (2 ^ 1024) then FNInf else FFin r))"
proof -
  obtain n d where nd: "quotient_of x = (n, d)" by (cases "quotient_of x")
  then have x: "x = of_int n / of_int d" by (rule quotient_of_div)
  show ?thesis
  proof (cases "d = 1 \<and> \<bar>n\<bar> \<le> 9007199254740992")
    case True
    then have "fl64 x = FFin x" using fl64_of_int [of n] x by simp
    with True nd show ?thesis by simp
  next
    case False
    with nd show ?thesis by (simp only: fl64_def prod.case if_False)
  qed
qed

lemma fl64_0 [simp]: "fl64 0 = FFin 0"
  using fl64_of_int [of 0] by simp

lemma fl64_1 [simp]: "fl64 1 = FFin 1"
  using fl64_of_int [of 1] by simp

lemma fadd_between:
  assumes "of_int a \<le> x + y" and "x + y \<le> of_int b" and "\<bar>a\<bar> \<le> 2 ^ 53" and "\<bar>b\<bar> \<le> 2 ^ 53"
  shows "\<exists>r. fadd (FFin x) (FFin y) = FFin r \<and> of_int a \<le> r \<and> r \<le> of_int b"
  using fl64_between [OF assms] by simp

lemma fdiv_between:
  assumes "of_int a \<le> x / y" and "x / y \<le> of_int b" and "\<bar>a\<bar> \<le> 2 ^ 53" and "\<bar>b\<bar> \<le> 2 ^ 53"
    and "y \<noteq> 0"
  shows "\<exists>r. fdiv (FFin x) (FFin y) = Inr (FFin r) \<and> of_int a \<le> r \<and> r \<le> of_int b"
  using fl64_between [OF assms(1-4)] assms(5) by simp

lemma int_truediv_between:
  assumes "of_int a \<le> (of_int m / of_int n :: rat)" and "(of_int m / of_int n :: rat) \<le> of_int b"
    and "\<bar>a\<bar> \<le> 2 ^ 53" and "\<bar>b\<bar> \<le> 2 ^ 53" and "n \<noteq> 0"
  shows "\<exists>r. int_truediv m n = Inr (FFin r) \<and> of_int a \<le> r \<and> r \<le> of_int b"
  using fl64_between [OF assms(1-4)] assms(5) by (auto simp: int_truediv_def checked_float_def)

lemma float_of_int_exact: "\<bar>n\<bar> \<le> 2 ^ 53 \<Longrightarrow> float_of_int n = Inr (FFin (of_int n))"
  by (simp add: float_of_int_def checked_float_def fl64_of_int)

section \<open>Square root\<close>

text \<open>\<open>math.sqrt(float(n))\<close> for an integer: the integer square root of \<open>n * 4 ^ 64\<close>, made sticky
  (an inexact root is moved strictly between two candidates, never onto a rounding tie), and
  rounded once.\<close>

fun isqrt :: "nat \<Rightarrow> nat" where
  "isqrt n =
     (if n = 0 then 0
      else let r = 2 * isqrt (n div 4) in if (r + 1) * (r + 1) \<le> n then r + 1 else r)"

declare isqrt.simps [simp del]

definition sqrt_of_nat :: "nat \<Rightarrow> pyfloat" where
  "sqrt_of_nat n =
     (let m = n * 4 ^ 64; s = isqrt m
      in if s * s = m then fl64 (of_nat s / 2 ^ 64) else fl64 ((2 * of_nat s + 1) / 2 ^ 65))"

lemma isqrt_correct: "isqrt n * isqrt n \<le> n \<and> n < (isqrt n + 1) * (isqrt n + 1)"
proof (induction n rule: isqrt.induct)
  case (1 n)
  show ?case
  proof (cases "n = 0")
    case True
    then show ?thesis by (simp add: isqrt.simps)
  next
    case False
    define k where "k = isqrt (n div 4)"
    have k: "k * k \<le> n div 4" "n div 4 < (k + 1) * (k + 1)"
      using 1 False by (simp_all add: k_def)
    then have "4 * (k * k) \<le> n" "n < 4 * ((k + 1) * (k + 1))" by linarith+
    then have "2 * k * (2 * k) \<le> n" "n < (2 * k + 1 + 1) * (2 * k + 1 + 1)"
      by (simp_all add: algebra_simps)
    then show ?thesis
      using False by (subst (1 2 3 4) isqrt.simps) (simp add: Let_def flip: k_def)
  qed
qed

section \<open>Sorting by a float key\<close>

text \<open>The order of a sort whose keys are floats: the finite values between the infinities. NaN has no
  place in Python's order; here it goes last, as numpy puts it.\<close>

fun frank :: "pyfloat \<Rightarrow> nat \<times> rat" where
  "frank FNInf = (0, 0)"
| "frank (FFin r) = (1, r)"
| "frank FInf = (2, 0)"
| "frank FNan = (3, 0)"

definition argsort :: "pyfloat list \<Rightarrow> nat list" where
  "argsort ds = sort_key (\<lambda>i. frank (ds ! i)) [0..<length ds]"

lemma flt_frank: "flt x y \<Longrightarrow> frank x < frank y"
  by (cases x; cases y) auto

lemma frank_flt: "frank x < frank y \<Longrightarrow> y \<noteq> FNan \<Longrightarrow> flt x y"
  by (cases x; cases y) auto

lemma argsort_perm [simp]: "distinct (argsort ds)" "set (argsort ds) = {..<length ds}" "length (argsort ds) = length ds"
  by (auto simp: argsort_def)

lemma argsort_splits:
  assumes "i \<in> set (take n (argsort ds))" and "j \<in> set (drop n (argsort ds))"
  shows "\<not> flt (ds ! j) (ds ! i)"
proof -
  have "sorted (map (\<lambda>i. frank (ds ! i)) (argsort ds))"
    by (simp add: argsort_def)
  then have "sorted (map (\<lambda>i. frank (ds ! i)) (take n (argsort ds @ []) @ drop n (argsort ds)))"
    by simp
  with assms have "frank (ds ! i) \<le> frank (ds ! j)"
    unfolding map_append sorted_append by simp
  then show ?thesis using flt_frank by force
qed

end
