(* ===== verification/Py_Str.thy ===== *)
theory Py_Str
  imports Py_Float
begin

text \<open>
  The part of Python's \<open>str\<close>, \<open>int()\<close> and \<open>float()\<close> the scripts use. A string is a list of
  characters; text is taken to be ASCII. \<open>split_ws\<close> is \<open>s.split()\<close>, \<open>split_on\<close> is
  \<open>s.split(sep)\<close> for a one-character separator, \<open>lines_of\<close> the lines a text file yields (each
  with its newline, the last one possibly without).
\<close>

section \<open>Characters, splitting and joining\<close>

definition nl :: char where "nl = CHR 0x0A"
definition tab :: char where "tab = CHR 0x09"

definition code :: "char \<Rightarrow> nat" where "code c = of_char c"

definition is_ws :: "char \<Rightarrow> bool" where
  "is_ws c \<longleftrightarrow> (9 \<le> code c \<and> code c \<le> 13) \<or> (28 \<le> code c \<and> code c \<le> 32)"

definition is_digit :: "char \<Rightarrow> bool" where
  "is_digit c \<longleftrightarrow> 48 \<le> code c \<and> code c \<le> 57"

definition digit_val :: "char \<Rightarrow> nat" where
  "digit_val c = code c - 48"

definition digit_char :: "nat \<Rightarrow> char" where
  "digit_char d = char_of (48 + d)"

fun split_aux :: "string \<Rightarrow> string \<Rightarrow> string list" where
  "split_aux acc [] = (if acc = [] then [] else [rev acc])"
| "split_aux acc (c # cs) =
     (if is_ws c then (if acc = [] then split_aux [] cs else rev acc # split_aux [] cs)
      else split_aux (c # acc) cs)"

definition split_ws :: "string \<Rightarrow> string list" where
  "split_ws s = split_aux [] s"

fun split_on :: "char \<Rightarrow> string \<Rightarrow> string list" where
  "split_on sep [] = [[]]"
| "split_on sep (c # cs) =
     (if c = sep then [] # split_on sep cs
      else (case split_on sep cs of [] \<Rightarrow> [[c]] | w # ws \<Rightarrow> (c # w) # ws))"

fun join :: "string \<Rightarrow> string list \<Rightarrow> string" where
  "join sep [] = []"
| "join sep [w] = w"
| "join sep (w # v # ws) = w @ sep @ join sep (v # ws)"

fun lines_of :: "string \<Rightarrow> string list" where
  "lines_of [] = []"
| "lines_of (c # cs) =
     (if c = nl then [c] # lines_of cs
      else (case lines_of cs of [] \<Rightarrow> [[c]] | l # ls \<Rightarrow> (c # l) # ls))"

definition rstrip_chars :: "string \<Rightarrow> string \<Rightarrow> string" where
  "rstrip_chars cs s = rev (dropWhile (\<lambda>c. c \<in> set cs) (rev s))"

definition strip_chars :: "string \<Rightarrow> string \<Rightarrow> string" where
  "strip_chars cs s = rstrip_chars cs (dropWhile (\<lambda>c. c \<in> set cs) s)"

definition strip_ws :: "string \<Rightarrow> string" where
  "strip_ws s = rev (dropWhile is_ws (rev (dropWhile is_ws s)))"

definition starts_with :: "string \<Rightarrow> string \<Rightarrow> bool" where
  "starts_with s pre \<longleftrightarrow> take (length pre) s = pre"

definition ends_with :: "string \<Rightarrow> string \<Rightarrow> bool" where
  "ends_with s suf \<longleftrightarrow> starts_with (rev s) (rev suf)"

fun find_sub :: "string \<Rightarrow> string \<Rightarrow> int" where
  "find_sub [] sub = (if sub = [] then 0 else - 1)"
| "find_sub (c # cs) sub =
     (if starts_with (c # cs) sub then 0
      else let k = find_sub cs sub in if k < 0 then - 1 else k + 1)"

text \<open>\<open>s.rfind(c)\<close> for one character.\<close>

fun rfind_char :: "char \<Rightarrow> string \<Rightarrow> int" where
  "rfind_char c [] = - 1"
| "rfind_char c (d # ds) =
     (let k = rfind_char c ds in if k \<ge> 0 then k + 1 else if d = c then 0 else - 1)"

lemma split_on_nonempty [simp]: "split_on sep s \<noteq> []"
  by (induction s) (auto split: list.splits)

lemma split_on_no_sep: "sep \<notin> set s \<Longrightarrow> split_on sep s = [s]"
  by (induction s) auto

lemma split_on_append:
  "sep \<notin> set w \<Longrightarrow> split_on sep (w @ sep # s) = w # split_on sep s"
  by (induction w) auto

text \<open>Joining fields that do not hold the separator and splitting again gives the fields.\<close>

lemma split_on_join:
  "ws \<noteq> [] \<Longrightarrow> \<forall>w\<in>set ws. sep \<notin> set w \<Longrightarrow> split_on sep (join [sep] ws) = ws"
  by (induction "[sep]" ws rule: join.induct) (auto simp: split_on_no_sep split_on_append)

lemma lines_of_concat [simp]: "concat (lines_of s) = s"
  by (induction s) (auto split: list.splits)

lemma lines_of_nonempty: "[] \<notin> set (lines_of s)"
  by (induction s) (auto split: list.splits)

lemma lines_of_append_nl:
  "nl \<notin> set w \<Longrightarrow> lines_of (w @ nl # s) = (w @ [nl]) # lines_of s"
  by (induction w) auto

lemma rfind_char_bounds: "- 1 \<le> rfind_char c s" "rfind_char c s < int (length s)"
  by (induction s) (auto simp: Let_def)

lemma rfind_char_neg: "rfind_char c s < 0 \<longleftrightarrow> c \<notin> set s"
  by (induction s) (auto simp: Let_def)

lemma rfind_char_append: "c \<notin> set t \<Longrightarrow> rfind_char c (s @ c # t) = int (length s)"
proof (induction s)
  case Nil
  then have "rfind_char c t < 0" by (simp add: rfind_char_neg)
  then show ?case by (simp add: Let_def)
qed (simp add: Let_def)

lemma split_aux_word:
  "\<forall>c\<in>set w. \<not> is_ws c \<Longrightarrow> split_aux acc (w @ s) = split_aux (rev w @ acc) s"
  by (induction w arbitrary: acc) auto

lemma split_aux_all_ws: "\<forall>c\<in>set t. is_ws c \<Longrightarrow> split_aux acc t = split_aux acc []"
  by (induction t arbitrary: acc) auto

lemma split_aux_trailing: "\<forall>c\<in>set t. is_ws c \<Longrightarrow> split_aux acc (s @ t) = split_aux acc s"
  by (induction s arbitrary: acc) (auto simp: split_aux_all_ws)

lemma split_aux_leading: "split_aux [] (dropWhile is_ws s) = split_aux [] s"
  by (induction s) auto

lemma strip_trailing: "\<exists>t. s = rev (dropWhile is_ws (rev s)) @ t \<and> (\<forall>c\<in>set t. is_ws c)"
proof (intro exI conjI)
  show "s = rev (dropWhile is_ws (rev s)) @ rev (takeWhile is_ws (rev s))"
    by (metis rev_append rev_rev_ident takeWhile_dropWhile_id)
  show "\<forall>c\<in>set (rev (takeWhile is_ws (rev s))). is_ws c"
    by (auto dest: set_takeWhileD)
qed

text \<open>\<open>line.strip().split()\<close> is \<open>line.split()\<close>.\<close>

lemma split_ws_strip_ws [simp]: "split_ws (strip_ws s) = split_ws s"
proof -
  let ?s = "dropWhile is_ws s"
  from strip_trailing [of ?s] obtain t where t: "?s = strip_ws s @ t" "\<forall>c\<in>set t. is_ws c"
    by (auto simp: strip_ws_def)
  then have "split_aux [] ?s = split_aux [] (strip_ws s)" by (metis split_aux_trailing)
  then show ?thesis by (simp add: split_ws_def split_aux_leading)
qed

text \<open>Words joined by a blank and ended by a newline are split back into the words.\<close>

definition is_word :: "string \<Rightarrow> bool" where
  "is_word w \<longleftrightarrow> w \<noteq> [] \<and> (\<forall>c\<in>set w. \<not> is_ws c)"

lemma split_ws_join:
  "\<forall>w\<in>set ws. is_word w \<Longrightarrow> is_ws sep \<Longrightarrow> \<forall>c\<in>set t. is_ws c \<Longrightarrow> split_ws (join [sep] ws @ t) = ws"
  unfolding split_ws_def
proof (induction "[sep]" ws rule: join.induct)
  case 1
  then show ?case by (simp add: split_aux_all_ws)
next
  case (2 w)
  then have "split_aux [] (w @ t) = split_aux (rev w) t"
    by (subst split_aux_word) (auto simp: is_word_def)
  with 2 show ?case by (simp add: split_aux_all_ws is_word_def)
next
  case (3 w v ws)
  have "split_aux [] (w @ sep # join [sep] (v # ws) @ t) = split_aux (rev w) (sep # join [sep] (v # ws) @ t)"
    using 3 by (subst split_aux_word) (auto simp: is_word_def)
  with 3 show ?case by (simp add: is_word_def)
qed

lemma lines_of_rows:
  "\<forall>w\<in>set ws. nl \<notin> set w \<Longrightarrow> lines_of (concat (map (\<lambda>w. w @ [nl]) ws)) = map (\<lambda>w. w @ [nl]) ws"
  by (induction ws) (auto simp: lines_of_append_nl)

lemma set_join: "set (join sep ws) \<subseteq> \<Union> (set (map set ws)) \<union> set sep"
  by (induction sep ws rule: join.induct) auto

section \<open>Integers in text\<close>

fun str_nat :: "nat \<Rightarrow> string" where
  "str_nat n = (if n < 10 then [digit_char n] else str_nat (n div 10) @ [digit_char (n mod 10)])"

declare str_nat.simps [simp del]

definition str_int :: "int \<Rightarrow> string" where
  "str_int i = (if i < 0 then CHR ''-'' # str_nat (nat (- i)) else str_nat (nat i))"

definition nat_of_digits :: "string \<Rightarrow> nat" where
  "nat_of_digits s = foldl (\<lambda>acc c. acc * 10 + digit_val c) 0 s"

text \<open>A \<open>digitpart\<close>: digits, with single underscores between them.\<close>

fun digitpart :: "string \<Rightarrow> bool" where
  "digitpart [] = False"
| "digitpart [c] = is_digit c"
| "digitpart (c # d # cs) =
     (is_digit c \<and> (if d = CHR ''_'' then digitpart cs else digitpart (d # cs)))"

definition digits_value :: "string \<Rightarrow> nat option" where
  "digits_value s = (if digitpart s then Some (nat_of_digits (filter is_digit s)) else None)"

definition split_sign :: "string \<Rightarrow> int \<times> string" where
  "split_sign s =
     (case s of c # cs \<Rightarrow>
        (if c = CHR ''-'' then (- 1, cs) else if c = CHR ''+'' then (1, cs) else (1, s))
      | [] \<Rightarrow> (1, s))"

definition py_int :: "string \<Rightarrow> int result" where
  "py_int s =
     (case split_sign (strip_ws s) of (sg, body) \<Rightarrow>
       (case digits_value body of None \<Rightarrow> Inl ValueError | Some n \<Rightarrow> Inr (sg * int n)))"

lemma code_digit_char [simp]: "d < 10 \<Longrightarrow> code (digit_char d) = 48 + d"
  by (simp add: code_def digit_char_def of_char_of)

lemma digit_char_props [simp]:
  "d < 10 \<Longrightarrow> is_digit (digit_char d)" "d < 10 \<Longrightarrow> digit_val (digit_char d) = d"
  by (simp_all add: is_digit_def digit_val_def)

lemma is_digit_not_ws: "is_digit c \<Longrightarrow> \<not> is_ws c"
  by (simp add: is_digit_def is_ws_def)

lemma str_nat_digits: "c \<in> set (str_nat n) \<Longrightarrow> is_digit c"
proof (induction n rule: str_nat.induct)
  case (1 n)
  then show ?case
    by (subst (asm) (2) str_nat.simps) (auto split: if_splits)
qed

lemma str_nat_nonempty [simp]: "str_nat n \<noteq> []"
  by (subst str_nat.simps) simp

lemma nat_of_digits_snoc: "nat_of_digits (s @ [c]) = nat_of_digits s * 10 + digit_val c"
  by (simp add: nat_of_digits_def)

lemma nat_of_str_nat [simp]: "nat_of_digits (str_nat n) = n"
proof (induction n rule: str_nat.induct)
  case (1 n)
  show ?case
  proof (cases "n < 10")
    case True
    then show ?thesis by (subst str_nat.simps) (simp add: nat_of_digits_def)
  next
    case False
    then show ?thesis using 1 by (subst str_nat.simps) (simp add: nat_of_digits_snoc)
  qed
qed

lemma digitpart_all_digits: "s \<noteq> [] \<Longrightarrow> \<forall>c\<in>set s. is_digit c \<Longrightarrow> digitpart s"
proof (induction s rule: digitpart.induct)
  case (3 c d cs)
  then have "d \<noteq> CHR ''_''" by (auto simp: is_digit_def code_def)
  with 3 show ?case by simp
qed auto

lemma digits_value_str_nat [simp]: "digits_value (str_nat n) = Some n"
proof -
  have all: "\<forall>c\<in>set (str_nat n). is_digit c" by (simp add: str_nat_digits)
  then have "filter is_digit (str_nat n) = str_nat n" by simp
  with all show ?thesis by (simp add: digits_value_def digitpart_all_digits)
qed

lemma strip_ws_id: "s \<noteq> [] \<Longrightarrow> \<not> is_ws (hd s) \<Longrightarrow> \<not> is_ws (last s) \<Longrightarrow> strip_ws s = s"
proof -
  assume s: "s \<noteq> []" "\<not> is_ws (hd s)" "\<not> is_ws (last s)"
  then have "dropWhile is_ws s = s" by (cases s) auto
  moreover have "dropWhile is_ws (rev s) = rev s"
    using s by (cases "rev s") (auto simp flip: hd_rev)
  ultimately show ?thesis by (simp add: strip_ws_def)
qed

lemma str_int_no_ws: "c \<in> set (str_int i) \<Longrightarrow> \<not> is_ws c"
proof -
  have "\<not> is_ws (CHR ''-'')" by (simp add: is_ws_def code_def)
  moreover assume "c \<in> set (str_int i)"
  ultimately show ?thesis
    by (auto simp: str_int_def split: if_splits dest: str_nat_digits is_digit_not_ws)
qed

text \<open>\<open>int(str(i)) == i\<close>.\<close>

lemma py_int_str_int: "py_int (str_int i) = Inr i"
proof -
  have ne: "str_int i \<noteq> []" by (simp add: str_int_def)
  then have "strip_ws (str_int i) = str_int i"
    by (intro strip_ws_id str_int_no_ws [of _ i]) simp_all
  moreover have "split_sign (str_int i) = (if i < 0 then (-1, str_nat (nat (- i))) else (1, str_nat (nat i)))"
  proof (cases "i < 0")
    case False
    have "hd (str_nat (nat i)) \<in> set (str_nat (nat i))" by simp
    then have "is_digit (hd (str_nat (nat i)))" by (rule str_nat_digits)
    then have "hd (str_nat (nat i)) \<noteq> CHR ''-''" "hd (str_nat (nat i)) \<noteq> CHR ''+''"
      by (auto simp: is_digit_def code_def)
    with False show ?thesis by (cases "str_nat (nat i)") (simp_all add: str_int_def split_sign_def)
  qed (simp add: str_int_def split_sign_def)
  ultimately show ?thesis by (simp add: py_int_def)
qed

lemma str_int_inj: "str_int i = str_int j \<Longrightarrow> i = j"
  by (metis py_int_str_int sum.inject(2))

section \<open>Floats in text\<close>

definition lower_char :: "char \<Rightarrow> char" where
  "lower_char c = (if 65 \<le> code c \<and> code c \<le> 90 then char_of (code c + 32) else c)"

definition is_exp_mark :: "char \<Rightarrow> bool" where
  "is_exp_mark c \<longleftrightarrow> c = CHR ''e'' \<or> c = CHR ''E''"

definition exponent_value :: "string \<Rightarrow> int option" where
  "exponent_value s =
     (case s of [] \<Rightarrow> Some 0
      | _ # body \<Rightarrow> (case split_sign body of (sg, ds) \<Rightarrow> map_option (\<lambda>n. sg * int n) (digits_value ds)))"

definition mantissa_value :: "string \<Rightarrow> (nat \<times> nat) option" where
  "mantissa_value s =
     (let ip = takeWhile (\<lambda>c. c \<noteq> CHR ''.'') s; fp = drop (Suc (length ip)) s;
          dig = (\<lambda>d. d = [] \<or> digitpart d)
      in if (ip = [] \<and> fp = []) \<or> \<not> dig ip \<or> \<not> dig fp then None
         else Some (nat_of_digits (filter is_digit (ip @ fp)), length (filter is_digit fp)))"

definition decimal_value :: "string \<Rightarrow> rat option" where
  "decimal_value s =
     (let man = takeWhile (\<lambda>c. \<not> is_exp_mark c) s; ex = drop (length man) s
      in case mantissa_value man of None \<Rightarrow> None
         | Some (n, k) \<Rightarrow> map_option (\<lambda>e. of_nat n * 10 powi (e - int k)) (exponent_value ex))"

definition py_float :: "string \<Rightarrow> pyfloat result" where
  "py_float s =
     (case split_sign (strip_ws s) of (sg, body) \<Rightarrow>
       let w = map lower_char body
       in if w = ''inf'' \<or> w = ''infinity'' then Inr (if sg < 0 then FNInf else FInf)
          else if w = ''nan'' then Inr FNan
          else (case decimal_value body of None \<Rightarrow> Inl ValueError
                | Some v \<Rightarrow> Inr (fl64 (of_int sg * v))))"

text \<open>A float is read the same with the newline of its line still on it.\<close>

lemma strip_ws_nl [simp]: "strip_ws (s @ [nl]) = strip_ws s"
proof -
  have nl: "is_ws nl" by code_simp
  show ?thesis
  proof (cases "\<forall>c\<in>set s. is_ws c")
    case True
    then have "dropWhile is_ws (s @ [nl]) = []" "dropWhile is_ws s = []"
      using nl by (simp_all add: dropWhile_eq_Nil_conv)
    then show ?thesis by (simp only: strip_ws_def)
  next
    case False
    then have "dropWhile is_ws (s @ [nl]) = dropWhile is_ws s @ [nl]" by (auto simp: dropWhile_append)
    then show ?thesis by (simp add: strip_ws_def nl)
  qed
qed

lemma py_float_nl [simp]: "py_float (s @ [nl]) = py_float s"
  by (simp add: py_float_def)

section \<open>Paths and replacement\<close>

text \<open>\<open>s.replace(old, new)\<close> for a non-empty \<open>old\<close>.\<close>

function replace_all :: "string \<Rightarrow> string \<Rightarrow> string \<Rightarrow> string" where
  "replace_all old rep [] = []"
| "replace_all old rep (c # cs) =
     (if old \<noteq> [] \<and> starts_with (c # cs) old then rep @ replace_all old rep (drop (length old - 1) cs)
      else c # replace_all old rep cs)"
  by pat_completeness auto
termination
  by (relation "measure (\<lambda>(old, rep, s). length s)") auto

text \<open>\<open>os.path.split(p)[1]\<close> and \<open>os.path.splitext(name)[0]\<close> of a name without slashes: the extension
  starts at the last dot, unless only dots stand before it.\<close>

definition path_tail :: "string \<Rightarrow> string" where
  "path_tail p = drop (nat (rfind_char (CHR ''/'') p + 1)) p"

definition ext_root :: "string \<Rightarrow> string" where
  "ext_root name =
     (let i = rfind_char (CHR ''.'') name
      in if 0 \<le> i \<and> (\<exists>c\<in>set (take (nat i) name). c \<noteq> CHR ''.'') then take (nat i) name else name)"

definition path_join :: "string \<Rightarrow> string \<Rightarrow> string" where
  "path_join a b =
     (if starts_with b ''/'' then b else if a = [] \<or> ends_with a ''/'' then a @ b else a @ ''/'' @ b)"

end
