(* ===== verification/Py_Struct.thy ===== *)
theory Py_Struct
  imports Py_Str "HOL-Library.Word"
begin

text \<open>
  Python's \<open>struct\<close> formats for one little-endian integer (\<open>b B i I q Q\<close>) and binary file reads. A
  byte is an 8-bit word. The locale \<open>codec\<close> is the contract of a fixed-width format: what it packs it
  unpacks, and nothing else unpacks to it; it is interpreted for each of the formats the scripts use.
\<close>

type_synonym byte = "8 word"
type_synonym bytes = "byte list"

section \<open>Little-endian integers\<close>

fun le_bytes :: "nat \<Rightarrow> int \<Rightarrow> bytes" where
  "le_bytes 0 x = []"
| "le_bytes (Suc n) x = word_of_int x # le_bytes n (x div 256)"

fun le_uint :: "bytes \<Rightarrow> int" where
  "le_uint [] = 0"
| "le_uint (b # bs) = uint b + 256 * le_uint bs"

lemma length_le_bytes [simp]: "length (le_bytes n x) = n"
  by (induction n arbitrary: x) simp_all

lemma uint_word_of_int_8: "uint (word_of_int x :: byte) = x mod 256"
  by (simp add: uint_word_of_int)

lemma uint_byte_bounds: "0 \<le> uint (b :: byte)" "uint (b :: byte) < 256"
  using uint_range_size [of b] by (simp_all add: word_size)

lemma le_uint_le_bytes: "le_uint (le_bytes n x) = x mod 256 ^ n"
proof (induction n arbitrary: x)
  case (Suc n)
  have "x mod 256 + 256 * (x div 256 mod 256 ^ n) = x mod (256 * 256 ^ n)"
    by (simp add: zmod_zmult2_eq)
  then show ?case by (simp add: Suc.IH uint_word_of_int_8)
qed simp

lemma le_uint_bounds: "0 \<le> le_uint bs" "le_uint bs < 256 ^ length bs"
proof (induction bs)
  case (Cons b bs)
  {
    case 1
    then show ?case using Cons.IH(1) uint_byte_bounds(1) [of b] by simp
  next
    case 2
    have "le_uint bs + 1 \<le> 256 ^ length bs" using Cons.IH(2) by simp
    then have "256 * (le_uint bs + 1) \<le> 256 * 256 ^ length bs" by simp
    then show ?case using uint_byte_bounds(2) [of b] by simp
  }
qed simp_all

lemma le_bytes_le_uint: "le_bytes (length bs) (le_uint bs) = bs"
proof (induction bs)
  case (Cons b bs)
  have "(uint b + 256 * le_uint bs) div 256 = le_uint bs"
    using uint_byte_bounds [of b] by (simp add: div_add1_eq)
  moreover have "word_of_int (uint b + 256 * le_uint bs) = b"
    by (rule word_uint_eqI) (simp only: uint_word_of_int_8, use uint_byte_bounds [of b] in simp)
  ultimately show ?case by (simp add: Cons.IH)
qed simp

section \<open>Packing and unpacking\<close>

definition int_lo :: "nat \<Rightarrow> bool \<Rightarrow> int" where
  "int_lo w sg = (if sg then - (2 ^ (8 * w - 1)) else 0)"

definition int_hi :: "nat \<Rightarrow> bool \<Rightarrow> int" where
  "int_hi w sg = (if sg then 2 ^ (8 * w - 1) else 2 ^ (8 * w))"

definition pack_int :: "nat \<Rightarrow> bool \<Rightarrow> int \<Rightarrow> bytes result" where
  "pack_int w sg n =
     (if int_lo w sg \<le> n \<and> n < int_hi w sg then Inr (le_bytes w n) else Inl StructError)"

definition unpack_int :: "nat \<Rightarrow> bool \<Rightarrow> bytes \<Rightarrow> int result" where
  "unpack_int w sg bs =
     (if length bs = w
      then let u = le_uint bs in Inr (if int_hi w sg \<le> u then u - 2 ^ (8 * w) else u)
      else Inl StructError)"

text \<open>\<open>f.read(n)\<close>: a negative count reads to the end.\<close>

definition fread :: "int \<Rightarrow> bytes \<Rightarrow> bytes \<times> bytes" where
  "fread n f = (if n < 0 then (f, []) else (take (nat n) f, drop (nat n) f))"

lemma fread_nat [simp]: "fread (int n) f = (take n f, drop n f)"
  by (simp add: fread_def)

lemma fread_numeral [simp]: "fread (numeral k) f = (take (numeral k) f, drop (numeral k) f)"
  by (simp add: fread_def)

locale codec =
  fixes enc :: "'a \<Rightarrow> bytes result" and dec :: "bytes \<Rightarrow> 'a result" and width :: nat
  assumes enc_width: "enc x = Inr bs \<Longrightarrow> length bs = width"
    and dec_enc: "enc x = Inr bs \<Longrightarrow> dec bs = Inr x"
    and enc_dec: "dec bs = Inr x \<Longrightarrow> enc x = Inr bs"
    and dec_bad_width: "length bs \<noteq> width \<Longrightarrow> dec bs = Inl StructError"
begin

lemma enc_inj: "enc x = Inr bs \<Longrightarrow> enc y = Inr bs \<Longrightarrow> x = y"
  using dec_enc [of x bs] dec_enc [of y bs] by simp

text \<open>A value at the front of a file is read back and leaves the rest.\<close>

lemma read_back:
  assumes "enc x = Inr bs"
  shows "fread (int width) (bs @ rest) = (bs, rest)" and "dec (fst (fread (int width) (bs @ rest))) = Inr x"
  using enc_width [OF assms] dec_enc [OF assms] by simp_all

lemma short_read: "length f < width \<Longrightarrow> dec (fst (fread (int width) f)) = Inl StructError"
  by (simp add: dec_bad_width)

lemma enc_all_width: "mapE enc xs = Inr bss \<Longrightarrow> length (concat bss) = length xs * width"
proof (induction xs arbitrary: bss)
  case (Cons x xs)
  then show ?case by (auto simp: bindE_eq_Inr enc_width)
qed simp

end

lemma pack_int_codec:
  assumes "0 < w"
  shows "codec (pack_int w sg) (unpack_int w sg) w"
proof
  fix x bs assume "pack_int w sg x = Inr bs"
  then have x: "int_lo w sg \<le> x" "x < int_hi w sg" and bs: "bs = le_bytes w x"
    by (auto simp: pack_int_def split: if_splits)
  show "length bs = w" by (simp add: bs)
  have "(2 :: int) ^ (8 * w) = 2 * 2 ^ (8 * w - 1)"
    using assms by (simp flip: power_Suc)
  moreover have "(256 :: int) ^ w = 2 ^ (8 * w)" by (simp add: power_mult)
  moreover have "x mod 2 ^ (8 * w) = (if x < 0 then x + 2 ^ (8 * w) else x)"
    using x \<open>2 ^ (8 * w) = 2 * 2 ^ (8 * w - 1)\<close>
    by (auto simp: int_lo_def int_hi_def split: if_splits
        intro!: mod_pos_pos_trivial)
      (smt (verit) mod_add_self2 mod_pos_pos_trivial zero_less_power)+
  ultimately show "unpack_int w sg bs = Inr x"
    using x assms by (auto simp: unpack_int_def bs le_uint_le_bytes Let_def int_lo_def int_hi_def
        split: if_splits)
next
  fix bs x assume dec: "unpack_int w sg bs = Inr x"
  then have len: "length bs = w" by (auto simp: unpack_int_def split: if_splits)
  have two: "(2 :: int) ^ (8 * w) = 2 * 2 ^ (8 * w - 1)" "(256 :: int) ^ w = 2 ^ (8 * w)"
    using assms by (simp_all add: power_mult flip: power_Suc)
  have u: "0 \<le> le_uint bs" "le_uint bs < 2 ^ (8 * w)"
    using le_uint_bounds [of bs] len two by simp_all
  have x: "x = (if int_hi w sg \<le> le_uint bs then le_uint bs - 2 ^ (8 * w) else le_uint bs)"
    using dec len by (simp add: unpack_int_def Let_def)
  have range: "int_lo w sg \<le> x \<and> x < int_hi w sg"
    using u two by (auto simp: x int_lo_def int_hi_def)
  have shift: "le_bytes n (y - 2 ^ (8 * n)) = le_bytes n y" for n y
  proof -
    have "le_bytes n z = le_bytes n (z mod 256 ^ n)" for z
      by (metis le_bytes_le_uint le_uint_le_bytes length_le_bytes)
    moreover have "(y - 2 ^ (8 * n)) mod 256 ^ n = y mod (256 :: int) ^ n"
      by (simp add: power_mult)
    ultimately show ?thesis by metis
  qed
  have "le_bytes w x = bs"
    using len le_bytes_le_uint [of bs] by (auto simp: x shift)
  with range show "pack_int w sg x = Inr bs" by (simp add: pack_int_def)
next
  fix bs :: bytes assume "length bs \<noteq> w"
  then show "unpack_int w sg bs = Inl StructError" by (simp add: unpack_int_def)
qed

definition pack_i :: "int \<Rightarrow> bytes result" where "pack_i = pack_int 4 True"
definition unpack_i :: "bytes \<Rightarrow> int result" where "unpack_i = unpack_int 4 True"
definition pack_b :: "int \<Rightarrow> bytes result" where "pack_b = pack_int 1 True"
definition unpack_b :: "bytes \<Rightarrow> int result" where "unpack_b = unpack_int 1 True"
definition pack_B :: "int \<Rightarrow> bytes result" where "pack_B = pack_int 1 False"
definition unpack_B :: "bytes \<Rightarrow> int result" where "unpack_B = unpack_int 1 False"
definition pack_I :: "int \<Rightarrow> bytes result" where "pack_I = pack_int 4 False"
definition unpack_I :: "bytes \<Rightarrow> int result" where "unpack_I = unpack_int 4 False"
definition pack_q :: "int \<Rightarrow> bytes result" where "pack_q = pack_int 8 True"
definition unpack_q :: "bytes \<Rightarrow> int result" where "unpack_q = unpack_int 8 True"
definition pack_Q :: "int \<Rightarrow> bytes result" where "pack_Q = pack_int 8 False"
definition unpack_Q :: "bytes \<Rightarrow> int result" where "unpack_Q = unpack_int 8 False"

interpretation fmt_i: codec pack_i unpack_i 4
  unfolding pack_i_def unpack_i_def by (rule pack_int_codec) simp

interpretation fmt_b: codec pack_b unpack_b 1
  unfolding pack_b_def unpack_b_def by (rule pack_int_codec) simp

interpretation fmt_B: codec pack_B unpack_B 1
  unfolding pack_B_def unpack_B_def by (rule pack_int_codec) simp

interpretation fmt_I: codec pack_I unpack_I 4
  unfolding pack_I_def unpack_I_def by (rule pack_int_codec) simp

interpretation fmt_q: codec pack_q unpack_q 8
  unfolding pack_q_def unpack_q_def by (rule pack_int_codec) simp

interpretation fmt_Q: codec pack_Q unpack_Q 8
  unfolding pack_Q_def unpack_Q_def by (rule pack_int_codec) simp

lemma pack_i_ok: "- 2147483648 \<le> n \<Longrightarrow> n < 2147483648 \<Longrightarrow> pack_i n = Inr (le_bytes 4 n)"
  by (simp add: pack_i_def pack_int_def int_lo_def int_hi_def)

lemma unpack_i_le_bytes [simp]:
  "- 2147483648 \<le> n \<Longrightarrow> n < 2147483648 \<Longrightarrow> unpack_i (le_bytes 4 n) = Inr n"
  using fmt_i.dec_enc [OF pack_i_ok] .

lemma unpack_i_short [simp]: "length bs \<noteq> 4 \<Longrightarrow> unpack_i bs = Inl StructError"
  by (rule fmt_i.dec_bad_width)

lemma unpack_i_total: "length bs = 4 \<Longrightarrow> \<exists>n. unpack_i bs = Inr n"
  by (simp add: unpack_i_def unpack_int_def Let_def)

text \<open>Text files are bytes too.\<close>

definition as_text :: "bytes \<Rightarrow> string" where
  "as_text bs = map (\<lambda>b. char_of (unat b)) bs"

definition as_bytes :: "string \<Rightarrow> bytes" where
  "as_bytes s = map (\<lambda>c. word_of_nat (of_char c)) s"

lemma as_text_as_bytes [simp]: "as_text (as_bytes s) = s"
  by (induction s) (simp_all add: as_text_def as_bytes_def unat_of_nat)

lemma as_bytes_append [simp]: "as_bytes (s @ t) = as_bytes s @ as_bytes t"
  by (simp add: as_bytes_def)

end
