(* ===== verification/Data_Reader.thy ===== *)
theory Data_Reader
  imports Py_Struct
begin

text \<open>
  The class \<open>DataReader\<close> of \<open>Tools/nni-auto-tune/dataset.py\<close> and its copy in
  \<open>Tools/OPQ/OPQ_gpu_train_infer.py\<close>: vectors read in batches from a binary file (header of two
  32-bit integers, then packed rows) or from a tab/bar separated text file. The object is the record
  \<open>reader\<close>; \<open>self.fin\<close> is the unread bytes of a binary file or the unread lines of a text file,
  \<open>self.query\<close> the row buffer every batch overwrites. numpy is not part of the sources: the record
  \<open>numpy\<close> of its functions is an argument of every definition that calls it.
\<close>

type_synonym filesys = "string \<rightharpoonup> bytes"

record 'v numpy =
  np_itemsize :: "string \<Rightarrow> nat"
  np_frombuffer :: "string \<Rightarrow> string \<Rightarrow> bytes \<Rightarrow> 'v list"
  np_zero :: "'v"
  np_store :: "string \<Rightarrow> pyfloat \<Rightarrow> 'v"
  np_square :: "'v \<Rightarrow> 'v"
  np_sum :: "'v list \<Rightarrow> 'v"
  np_sqrt :: "'v \<Rightarrow> 'v"
  np_lt_float :: "'v \<Rightarrow> pyfloat \<Rightarrow> bool"
  np_of_float :: "pyfloat \<Rightarrow> 'v"
  np_div :: "'v \<Rightarrow> 'v \<Rightarrow> 'v"

record 'v reader =
  r_mytype :: string
  r_bin :: bytes
  r_lines :: "string list"
  r_featuredim :: int
  r_isbinary :: bool
  r_type :: string
  r_query :: "'v list list"
  r_normalize :: int

section \<open>The operations\<close>

definition open_file :: "filesys \<Rightarrow> string \<Rightarrow> bytes result" where
  "open_file fs name = (case fs name of None \<Rightarrow> Inl FileNotFoundError | Some c \<Rightarrow> Inr c)"

definition np_zeros :: "'v numpy \<Rightarrow> int \<Rightarrow> int \<Rightarrow> 'v list list result" where
  "np_zeros np n d =
     (if n < 0 \<or> d < 0 then Inl ValueError else Inr (replicate (nat n) (replicate (nat d) (np_zero np))))"

definition DataReader_init ::
  "'v numpy \<Rightarrow> filesys \<Rightarrow> string \<Rightarrow> int \<Rightarrow> int \<Rightarrow> int \<Rightarrow> string \<Rightarrow> string \<Rightarrow> 'v reader result" where
  "DataReader_init np fs filename featuredim batchsize norm_flag datatype targettype =
     bindE (open_file fs filename) (\<lambda>content.
       let finish = (\<lambda>R fd isbin ty bin lns.
         let bs = (if batchsize \<le> 0 then R else batchsize)
         in bindE (np_zeros np bs fd) (\<lambda>q.
              Inr \<lparr>r_mytype = targettype, r_bin = bin, r_lines = lns, r_featuredim = fd,
                   r_isbinary = isbin, r_type = ty, r_query = q, r_normalize = norm_flag\<rparr>))
       in if 0 \<le> find_sub filename ''.bin'' then
            (let (h1, f1) = fread 4 content
             in bindE (unpack_i h1) (\<lambda>R.
                let (h2, f2) = fread 4 f1
                in bindE (unpack_i h2) (\<lambda>fd. finish R fd True datatype f2 [])))
          else
            (let lns = lines_of (as_text content)
             in finish (int (length lns)) featuredim False targettype [] lns))"

definition float_1e6 :: pyfloat where
  "float_1e6 = fl64 (1 / 1000000)"

text \<open>\<open>norm\<close> returns the quotient and the rows as the masked assignment left them: the rows are a
  view of \<open>self.query\<close>, which that assignment overwrites.\<close>

definition norm_rows :: "'v numpy \<Rightarrow> 'v reader \<Rightarrow> 'v list list \<Rightarrow> ('v list list \<times> 'v list list) result" where
  "norm_rows np rd data =
     (let square = map (\<lambda>row. np_sqrt np (np_sum np (map (np_square np) row))) data;
          small = map (\<lambda>s. np_lt_float np s float_1e6) square
      in bindE (fdiv float_1e6 (sqrt_of_nat (nat (r_featuredim rd)))) (\<lambda>fill.
           let data' = map2 (\<lambda>b row. if b then map (\<lambda>_. np_store np (r_mytype rd) fill) row else row) small data;
               square' = map2 (\<lambda>b s. if b then np_of_float np float_1e6 else s) small square
           in Inr (map2 (\<lambda>row s. map (\<lambda>x. np_div np x s) row) data' square', data')))"

text \<open>The binary loop. A short read (the file ends inside a row) is reported and the loop goes on;
  the next read returns nothing and ends it.\<close>

function readbatch_bin ::
  "'v numpy \<Rightarrow> 'v reader \<Rightarrow> int \<Rightarrow> nat \<Rightarrow> bytes \<Rightarrow> 'v list list \<Rightarrow> nat \<times> bytes \<times> 'v list list" where
  "readbatch_bin np rd sz i fin q =
     (if i < length q then
        (case fread sz fin of (vec, fin') \<Rightarrow>
          if vec = [] then (i, fin', q)
          else if int (length vec) \<noteq> sz then readbatch_bin np rd sz i fin' q
          else readbatch_bin np rd sz (Suc i) fin'
                 (q[i := np_frombuffer np (r_type rd) (r_mytype rd) vec]))
      else (i, fin, q))"
  by pat_completeness auto
termination
  by (relation "measure (\<lambda>(np, rd, sz, i, fin, q). length fin)")
     (auto simp: fread_def split: if_splits)

declare readbatch_bin.simps [simp del]

definition row_items :: "string \<Rightarrow> string list" where
  "row_items line = split_on (CHR ''|'') (drop (nat (rfind_char tab line + 1)) line)"

definition parse_row :: "'v numpy \<Rightarrow> 'v reader \<Rightarrow> string \<Rightarrow> 'v list result" where
  "parse_row np rd line =
     mapE (\<lambda>w. bindE (py_float w) (\<lambda>x. Inr (np_store np (r_mytype rd) x)))
       (take (nat (r_featuredim rd)) (row_items line))"

fun readbatch_text ::
  "'v numpy \<Rightarrow> 'v reader \<Rightarrow> nat \<Rightarrow> string list \<Rightarrow> 'v list list \<Rightarrow> (nat \<times> string list \<times> 'v list list) result" where
  "readbatch_text np rd i [] q = Inr (i, [], q)"
| "readbatch_text np rd i (line # lns) q =
     (if i < length q then
        (if rfind_char tab line < 0 then readbatch_text np rd i lns q
         else if int (length (row_items line)) < r_featuredim rd then readbatch_text np rd i lns q
         else bindE (parse_row np rd line) (\<lambda>row. readbatch_text np rd (Suc i) lns (q[i := row])))
      else Inr (i, line # lns, q))"

definition readbatch :: "'v numpy \<Rightarrow> 'v reader \<Rightarrow> ('v reader \<times> nat \<times> 'v list list) result" where
  "readbatch np rd =
     bindE
       (if r_isbinary rd then
          (case readbatch_bin np rd (int (np_itemsize np (r_type rd)) * r_featuredim rd) 0 (r_bin rd) (r_query rd)
           of (i, fin, q) \<Rightarrow> Inr (i, rd\<lparr>r_bin := fin, r_query := q\<rparr>))
        else
          bindE (readbatch_text np rd 0 (r_lines rd) (r_query rd)) (\<lambda>(i, lns, q).
            Inr (i, rd\<lparr>r_lines := lns, r_query := q\<rparr>)))
       (\<lambda>(i, rd1).
         if r_normalize rd1 \<noteq> 0 then
           bindE (norm_rows np rd1 (take i (r_query rd1))) (\<lambda>(rows, view).
             Inr (rd1\<lparr>r_query := view @ drop i (r_query rd1)\<rparr>, i, rows))
         else Inr (rd1, i, take i (r_query rd1)))"

text \<open>\<open>readallbatches\<close>: the batches are deep copies, so later batches do not change them. The loop
  ends at the first batch shorter than the buffer, and may not end.\<close>

partial_function (option) collect_batches ::
  "('s \<Rightarrow> ('s \<times> nat \<times> 'v list) result) \<Rightarrow> nat \<Rightarrow> 's \<Rightarrow> 'v list list \<Rightarrow> nat \<Rightarrow>
     ('s \<times> nat \<times> 'v list list) result option" where
  "collect_batches get numQuerys rd data R =
     (case get rd of Inl e \<Rightarrow> Some (Inl e)
      | Inr (rd', i, q) \<Rightarrow>
          if i = numQuerys then collect_batches get numQuerys rd' (data @ [q]) (R + i)
          else if 0 < i then Some (Inr (rd', R + i, data @ [take i q]))
          else Some (Inr (rd', R, data)))"

definition readallbatches ::
  "'v numpy \<Rightarrow> 'v reader \<Rightarrow> ('v reader \<times> nat \<times> 'v list list list) result option" where
  "readallbatches np rd = collect_batches (readbatch np) (length (r_query rd)) rd [] 0"

section \<open>What one batch holds\<close>

text \<open>The specification of the binary reader: the complete rows of the unread bytes.\<close>

fun full_rows :: "nat \<Rightarrow> nat \<Rightarrow> bytes \<Rightarrow> bytes list" where
  "full_rows 0 sz bs = []"
| "full_rows (Suc n) sz bs =
     (if 0 < sz \<and> sz \<le> length bs then take sz bs # full_rows n sz (drop sz bs) else [])"

definition all_rows :: "nat \<Rightarrow> bytes \<Rightarrow> bytes list" where
  "all_rows sz bs = full_rows (length bs) sz bs"

lemma full_rows_enough:
  "length bs \<le> n \<Longrightarrow> length bs \<le> m \<Longrightarrow> full_rows n sz bs = full_rows m sz bs"
proof (induction n arbitrary: m bs)
  case 0
  then show ?case by (cases m) auto
next
  case (Suc n)
  show ?case
  proof (cases m)
    case 0
    with Suc.prems show ?thesis by auto
  next
    case (Suc m')
    show ?thesis
    proof (cases "0 < sz \<and> sz \<le> length bs")
      case True
      then have "full_rows n sz (drop sz bs) = full_rows m' sz (drop sz bs)"
        using Suc.prems Suc by (intro Suc.IH) auto
      with True Suc show ?thesis by simp
    qed (auto simp: Suc)
  qed
qed

lemma all_rows_step:
  "0 < sz \<Longrightarrow> sz \<le> length bs \<Longrightarrow> all_rows sz bs = take sz bs # all_rows sz (drop sz bs)"
proof -
  assume sz: "0 < sz" "sz \<le> length bs"
  then obtain n where n: "length bs = Suc n" by (cases "length bs") auto
  have "full_rows n sz (drop sz bs) = full_rows (length (drop sz bs)) sz (drop sz bs)"
    using sz n by (intro full_rows_enough) auto
  with sz n show ?thesis by (simp add: all_rows_def)
qed

lemma all_rows_short: "length bs < sz \<or> sz = 0 \<Longrightarrow> all_rows sz bs = []"
  by (cases "length bs") (auto simp: all_rows_def)

lemma length_all_rows: "0 < sz \<Longrightarrow> length (all_rows sz bs) = length bs div sz"
proof (induction "length bs" arbitrary: bs rule: less_induct)
  case less
  show ?case
  proof (cases "sz \<le> length bs")
    case True
    with less have "length (all_rows sz (drop sz bs)) = (length bs - sz) div sz" by simp
    with True less.prems show ?thesis by (simp add: all_rows_step le_div_geq)
  qed (simp add: all_rows_short)
qed

lemma all_rows_concat: "0 < sz \<Longrightarrow> \<forall>r\<in>set rs. length r = sz \<Longrightarrow> length rest < sz \<Longrightarrow>
  all_rows sz (concat rs @ rest) = rs"
  by (induction rs) (auto simp: all_rows_short all_rows_step)

definition overlay :: "nat \<Rightarrow> 'a list \<Rightarrow> 'a list \<Rightarrow> 'a list" where
  "overlay i rows q = take i q @ rows @ drop (i + length rows) q"

lemma overlay_step:
  "i < length q \<Longrightarrow> overlay (Suc i) rows (q[i := r]) = overlay i (r # rows) q"
  by (simp add: overlay_def take_Suc_conv_app_nth take_update_cancel)

lemma overlay_Nil [simp]: "overlay i [] q = q"
  by (simp add: overlay_def)

lemma readbatch_bin_correct:
  assumes "0 < sz" and "i \<le> length q" and "n = min (length q - i) (length (all_rows sz fin))"
  shows "\<exists>fin'. readbatch_bin np rd (int sz) i fin q =
      (i + n, fin', overlay i (map (np_frombuffer np (r_type rd) (r_mytype rd)) (take n (all_rows sz fin))) q)
      \<and> all_rows sz fin' = drop n (all_rows sz fin)"
  using assms
proof (induction "length fin" arbitrary: i fin q n rule: less_induct)
  case less
  let ?dec = "np_frombuffer np (r_type rd) (r_mytype rd)"
  show ?case
  proof (cases "i < length q")
    case False
    with less.prems show ?thesis by (subst readbatch_bin.simps) simp
  next
    case True
    consider "fin = []" | "fin \<noteq> []" "length fin < sz" | "sz \<le> length fin" by linarith
    then show ?thesis
    proof cases
      case 1
      with True less.prems show ?thesis
        by (subst readbatch_bin.simps) (simp add: all_rows_short)
    next
      case 2
      have "\<exists>fin'. readbatch_bin np rd (int sz) i [] q = (i, fin', q) \<and> all_rows sz fin' = []"
        using True less.prems by (subst readbatch_bin.simps) (simp add: all_rows_short)
      with 2 True less.prems show ?thesis
        by (subst readbatch_bin.simps) (simp add: all_rows_short)
    next
      case 3
      define rows where "rows = all_rows sz (drop sz fin)"
      have all: "all_rows sz fin = take sz fin # rows"
        using 3 less.prems by (simp add: all_rows_step rows_def)
      let ?q = "q[i := ?dec (take sz fin)]"
      have "length (drop sz fin) < length fin" using 3 less.prems by simp
      from less.hyps [OF this, of "Suc i" ?q] True less.prems
      obtain fin' where rec: "readbatch_bin np rd (int sz) (Suc i) (drop sz fin) ?q =
          (Suc i + min (length q - Suc i) (length rows), fin',
           overlay (Suc i) (map ?dec (take (min (length q - Suc i) (length rows)) rows)) ?q)"
        and fin': "all_rows sz fin' = drop (min (length q - Suc i) (length rows)) rows"
        by (auto simp: rows_def)
      have n: "n = Suc (min (length q - Suc i) (length rows))"
        using True less.prems(3) by (simp add: all)
      have "readbatch_bin np rd (int sz) i fin q = readbatch_bin np rd (int sz) (Suc i) (drop sz fin) ?q"
        using True 3 less.prems by (subst readbatch_bin.simps) auto
      with rec fin' True show ?thesis
        by (simp add: n all overlay_step)
    qed
  qed
qed

definition usable_line :: "'v reader \<Rightarrow> string \<Rightarrow> bool" where
  "usable_line rd line \<longleftrightarrow> tab \<in> set line \<and> r_featuredim rd \<le> int (length (row_items line))"

lemma readbatch_text_correct:
  assumes "i \<le> length q"
    and "\<forall>l\<in>set lns. usable_line rd l \<longrightarrow> parse_row np rd l = Inr (row l)"
    and "n = min (length q - i) (length (filter (usable_line rd) lns))"
  shows "\<exists>lns'. readbatch_text np rd i lns q =
      Inr (i + n, lns', overlay i (map row (take n (filter (usable_line rd) lns))) q)
      \<and> filter (usable_line rd) lns' = drop n (filter (usable_line rd) lns) \<and> set lns' \<subseteq> set lns"
  using assms
proof (induction lns arbitrary: i q n)
  case Nil
  then show ?case by simp
next
  case (Cons line lns)
  show ?case
  proof (cases "i < length q \<and> usable_line rd line")
    case True
    let ?q = "q[i := row line]" and ?n = "min (length q - Suc i) (length (filter (usable_line rd) lns))"
    from Cons.IH [of "Suc i" ?q ?n] True Cons.prems(2) obtain lns' where
      IH: "readbatch_text np rd (Suc i) lns ?q =
        Inr (Suc i + ?n, lns', overlay (Suc i) (map row (take ?n (filter (usable_line rd) lns))) ?q)"
        "filter (usable_line rd) lns' = drop ?n (filter (usable_line rd) lns)" "set lns' \<subseteq> set lns"
      by auto
    have "n = Suc ?n" using True Cons.prems(3) by (auto simp: min_def)
    moreover have "parse_row np rd line = Inr (row line)" using True Cons.prems(2) by simp
    ultimately have "readbatch_text np rd i (line # lns) q = readbatch_text np rd (Suc i) lns ?q"
      using True by (auto simp: usable_line_def rfind_char_neg not_less)
    with IH True \<open>n = Suc ?n\<close> show ?thesis by (auto simp: overlay_step)
  next
    case False
    show ?thesis
    proof (cases "i < length q")
      case True
      with False have no: "\<not> usable_line rd line" by simp
      with True have "readbatch_text np rd i (line # lns) q = readbatch_text np rd i lns q"
        by (auto simp: usable_line_def rfind_char_neg)
      moreover from Cons.prems no have "n = min (length q - i) (length (filter (usable_line rd) lns))"
        by simp
      ultimately show ?thesis
        using Cons.IH [of i q n] Cons.prems no by auto
    qed (use Cons.prems in simp)
  qed
qed

section \<open>Collecting every batch\<close>

function chunks :: "nat \<Rightarrow> 'a list \<Rightarrow> 'a list list" where
  "chunks n xs = (if n = 0 \<or> xs = [] then [] else take n xs # chunks n (drop n xs))"
  by pat_completeness auto
termination
  by (relation "measure (\<lambda>(n, xs). length xs)") auto

declare chunks.simps [simp del]

lemma chunks_Nil [simp]: "chunks n [] = []"
  by (subst chunks.simps) simp

lemma chunks_step: "0 < n \<Longrightarrow> xs \<noteq> [] \<Longrightarrow> chunks n xs = take n xs # chunks n (drop n xs)"
  by (subst chunks.simps) simp

lemma concat_chunks: "0 < n \<Longrightarrow> concat (chunks n xs) = xs"
proof (induction n xs rule: chunks.induct)
  case (1 n xs)
  then show ?case by (cases "xs = []") (simp_all add: chunks_step)
qed

lemma chunks_sizes: "c \<in> set (chunks n xs) \<Longrightarrow> c \<noteq> [] \<and> length c \<le> n"
proof (induction n xs rule: chunks.induct)
  case (1 n xs)
  then show ?case by (cases "n = 0 \<or> xs = []") (auto simp: chunks_step chunks.simps [of n xs])
qed

text \<open>The contract between \<open>readallbatches\<close> and \<open>readbatch\<close>: a batch is the next \<open>cap\<close> pending
  rows, or all of them when fewer are left.\<close>

locale batch_source =
  fixes get :: "'s \<Rightarrow> ('s \<times> nat \<times> 'v list) result" and pending :: "'s \<Rightarrow> 'v list"
    and cap :: nat and ok :: "'s \<Rightarrow> bool"
  assumes get_ok: "ok s \<Longrightarrow> \<exists>s'. get s = Inr (s', min cap (length (pending s)), take cap (pending s))
      \<and> ok s' \<and> pending s' = drop cap (pending s)"
begin

lemma collect_all:
  assumes "0 < cap" and "ok s"
  shows "\<exists>s'. collect_batches get cap s data R =
    Some (Inr (s', R + length (pending s), data @ chunks cap (pending s))) \<and> ok s' \<and> pending s' = []"
  using assms(2)
proof (induction "length (pending s)" arbitrary: s data R rule: less_induct)
  case less
  from get_ok [OF less.prems] obtain s' where
    get: "get s = Inr (s', min cap (length (pending s)), take cap (pending s))"
    and s': "ok s'" "pending s' = drop cap (pending s)" by blast
  show ?case
  proof (cases "cap \<le> length (pending s)")
    case True
    then have "length (pending s') < length (pending s)" using s' assms(1) by simp
    from less.hyps [OF this s'(1), of "data @ [take cap (pending s)]" "R + cap"]
    obtain t where "collect_batches get cap s' (data @ [take cap (pending s)]) (R + cap) =
        Some (Inr (t, R + length (pending s), data @ take cap (pending s) # chunks cap (pending s')))"
      "ok t" "pending t = []"
      using True s' by auto
    moreover have "pending s \<noteq> []" using True assms(1) by auto
    ultimately show ?thesis
      using True get s' assms(1) by (subst collect_batches.simps) (simp add: min_def chunks_step)
  next
    case False
    then show ?thesis
      using get s' assms(1)
      by (subst collect_batches.simps) (cases "pending s = []"; simp add: min_def chunks_step)
  qed
qed

lemma collect_diverges:
  assumes "cap = 0" and "ok s"
  shows "collect_batches get cap s data R = None"
proof (rule ccontr)
  assume "collect_batches get cap s data R \<noteq> None"
  then obtain r where "collect_batches get cap s data R = Some r" by blast
  then have "get = get \<longrightarrow> cap = cap \<longrightarrow> ok s \<longrightarrow> False"
  proof (rule collect_batches.raw_induct
      [where P = "\<lambda>g n s d R r. g = get \<longrightarrow> n = cap \<longrightarrow> ok s \<longrightarrow> False", rotated])
    fix loop g n s d R r
    assume IH: "\<And>g n s d R r. loop g n s d R = Some r \<Longrightarrow> g = get \<longrightarrow> n = cap \<longrightarrow> ok s \<longrightarrow> False"
      and eq: "(case g s of Inl e \<Rightarrow> Some (Inl e)
      | Inr (rd', i, q) \<Rightarrow>
          if i = n then loop g n rd' (d @ [q]) (R + i)
          else if 0 < i then Some (Inr (rd', R + i, d @ [take i q]))
          else Some (Inr (rd', R, d))) = Some r"
    show "g = get \<longrightarrow> n = cap \<longrightarrow> ok s \<longrightarrow> False"
    proof (intro impI)
      assume g: "g = get" "n = cap" and "ok s"
      from get_ok [OF \<open>ok s\<close>] assms(1) obtain s' where "get s = Inr (s', 0, [])" "ok s'" by auto
      with eq g assms(1) have "loop get cap s' (d @ [[]]) R = Some r" by simp
      from IH [OF this] \<open>ok s'\<close> show False by simp
    qed
  qed
  with assms(2) show False by simp
qed

end

definition bin_row_size :: "'v numpy \<Rightarrow> 'v reader \<Rightarrow> int" where
  "bin_row_size np rd = int (np_itemsize np (r_type rd)) * r_featuredim rd"

definition bin_ok :: "'v numpy \<Rightarrow> nat \<Rightarrow> 'v reader \<Rightarrow> bool" where
  "bin_ok np cap rd \<longleftrightarrow>
     r_isbinary rd \<and> r_normalize rd = 0 \<and> length (r_query rd) = cap \<and> 0 < bin_row_size np rd"

definition bin_pending :: "'v numpy \<Rightarrow> 'v reader \<Rightarrow> 'v list list" where
  "bin_pending np rd =
     map (np_frombuffer np (r_type rd) (r_mytype rd)) (all_rows (nat (bin_row_size np rd)) (r_bin rd))"

definition text_ok :: "'v numpy \<Rightarrow> nat \<Rightarrow> 'v reader \<Rightarrow> bool" where
  "text_ok np cap rd \<longleftrightarrow>
     \<not> r_isbinary rd \<and> r_normalize rd = 0 \<and> length (r_query rd) = cap \<and>
     (\<forall>l\<in>set (r_lines rd). usable_line rd l \<longrightarrow> (\<exists>row. parse_row np rd l = Inr row))"

definition text_pending :: "'v numpy \<Rightarrow> 'v reader \<Rightarrow> 'v list list" where
  "text_pending np rd = map (\<lambda>l. projr (parse_row np rd l)) (filter (usable_line rd) (r_lines rd))"

lemma readbatch_bin_batch:
  assumes "bin_ok np cap rd"
  shows "\<exists>rd'. readbatch np rd = Inr (rd', min cap (length (bin_pending np rd)), take cap (bin_pending np rd))
      \<and> bin_ok np cap rd' \<and> bin_pending np rd' = drop cap (bin_pending np rd)"
proof -
  define sz where "sz = nat (bin_row_size np rd)"
  define rows where "rows = all_rows sz (r_bin rd)"
  define n where "n = min cap (length rows)"
  let ?dec = "np_frombuffer np (r_type rd) (r_mytype rd)"
  from assms have sz: "0 < sz" "int (np_itemsize np (r_type rd)) * r_featuredim rd = int sz"
    and q: "length (r_query rd) = cap" and b: "r_isbinary rd" "r_normalize rd = 0"
    by (simp_all add: bin_ok_def bin_row_size_def sz_def)
  from readbatch_bin_correct [OF sz(1), of 0 "r_query rd" n "r_bin rd" np rd] q
  obtain fin' where bin: "readbatch_bin np rd (int sz) 0 (r_bin rd) (r_query rd) =
      (n, fin', overlay 0 (map ?dec (take n rows)) (r_query rd))"
    and fin': "all_rows sz fin' = drop n rows"
    by (auto simp: n_def rows_def)
  let ?q = "overlay 0 (map ?dec (take n rows)) (r_query rd)"
  have len: "length (map ?dec (take n rows)) = n" by (simp add: n_def)
  then have "take n ?q = map ?dec (take n rows)" by (simp add: overlay_def)
  moreover have "length ?q = cap" using q len by (simp add: overlay_def n_def)
  moreover have "take n rows = take cap rows" "drop n rows = drop cap rows"
    by (simp_all add: n_def min_def)
  ultimately show ?thesis
    using b bin fin' sz assms q
    by (simp add: readbatch_def bin_ok_def bin_pending_def bin_row_size_def take_map drop_map n_def rows_def)
qed

lemma parse_row_update [simp]:
  "parse_row np (rd\<lparr>r_lines := ls, r_query := q\<rparr>) = parse_row np rd"
  "usable_line (rd\<lparr>r_lines := ls, r_query := q\<rparr>) = usable_line rd"
  by (simp_all add: parse_row_def usable_line_def fun_eq_iff)

lemma readbatch_text_batch:
  assumes "text_ok np cap rd"
  shows "\<exists>rd'. readbatch np rd = Inr (rd', min cap (length (text_pending np rd)), take cap (text_pending np rd))
      \<and> text_ok np cap rd' \<and> text_pending np rd' = drop cap (text_pending np rd)"
proof -
  define good where "good = filter (usable_line rd) (r_lines rd)"
  define n where "n = min cap (length good)"
  let ?row = "\<lambda>l. projr (parse_row np rd l)"
  from assms have q: "length (r_query rd) = cap" and b: "\<not> r_isbinary rd" "r_normalize rd = 0"
    and parse: "\<forall>l\<in>set (r_lines rd). usable_line rd l \<longrightarrow> parse_row np rd l = Inr (?row l)"
    by (auto simp: text_ok_def)
  from readbatch_text_correct [OF _ parse, of 0 "r_query rd" n] q
  obtain lns' where tx: "readbatch_text np rd 0 (r_lines rd) (r_query rd) =
      Inr (n, lns', overlay 0 (map ?row (take n good)) (r_query rd))"
    and lns': "filter (usable_line rd) lns' = drop n good" "set lns' \<subseteq> set (r_lines rd)"
    by (auto simp: n_def good_def)
  let ?q = "overlay 0 (map ?row (take n good)) (r_query rd)"
  have len: "length (map ?row (take n good)) = n" by (simp add: n_def)
  then have "take n ?q = map ?row (take n good)" by (simp add: overlay_def)
  moreover have "length ?q = cap" using q len by (simp add: overlay_def n_def)
  moreover have "take n good = take cap good" "drop n good = drop cap good"
    by (simp_all add: n_def min_def)
  ultimately show ?thesis
    using b tx lns' assms q
    by (auto simp: readbatch_def text_ok_def text_pending_def take_map drop_map n_def good_def)
qed

interpretation bin_source: batch_source "readbatch np" "bin_pending np" cap "bin_ok np cap" for np cap
  by unfold_locales (rule readbatch_bin_batch)

interpretation text_source: batch_source "readbatch np" "text_pending np" cap "text_ok np cap" for np cap
  by unfold_locales (rule readbatch_text_batch)

section \<open>Whole files\<close>

lemma DataReader_init_bin:
  assumes "fs f = Some (le_bytes 4 n @ le_bytes 4 d @ body)" and "0 \<le> find_sub f ''.bin''"
    and "0 \<le> n" and "n < 2147483648" and "0 \<le> d" and "d < 2147483648"
  shows "DataReader_init np fs f fd bs nf dt tt =
    Inr \<lparr>r_mytype = tt, r_bin = body, r_lines = [], r_featuredim = d, r_isbinary = True, r_type = dt,
         r_query = replicate (nat (if bs \<le> 0 then n else bs)) (replicate (nat d) (np_zero np)),
         r_normalize = nf\<rparr>"
  using assms by (simp add: DataReader_init_def open_file_def np_zeros_def Let_def)

lemma bin_pending_file:
  assumes "0 < np_itemsize np dt" and "0 < d"
    and "\<forall>r\<in>set rows. length r = np_itemsize np dt * nat d" and "length rest < np_itemsize np dt * nat d"
    and "r_type rd = dt" and "r_mytype rd = tt" and "r_featuredim rd = d" and "r_bin rd = concat rows @ rest"
  shows "bin_pending np rd = map (np_frombuffer np dt tt) rows"
proof -
  have "nat (bin_row_size np rd) = np_itemsize np dt * nat d"
    using assms by (simp add: bin_row_size_def nat_mult_distrib)
  then show ?thesis
    using assms by (simp add: bin_pending_def all_rows_concat)
qed

text \<open>C6: \<open>readallbatches\<close> on a binary file returns, in batches of the requested size (the last one
  possibly shorter), every complete row of the file in order, and their number; bytes after the
  last complete row are dropped and the row count in the header plays no part.\<close>

theorem DataReader_readallbatches_file:
  assumes "fs f = Some (le_bytes 4 n @ le_bytes 4 d @ concat rows @ rest)"
    and "0 \<le> find_sub f ''.bin''" and "0 \<le> n" and "n < 2147483648" and "0 < d" and "d < 2147483648"
    and "0 < np_itemsize np dt" and "\<forall>r\<in>set rows. length r = np_itemsize np dt * nat d"
    and "length rest < np_itemsize np dt * nat d" and "0 < bs"
  shows "\<exists>rd rd'. DataReader_init np fs f fd bs 0 dt tt = Inr rd \<and>
    readallbatches np rd =
      Some (Inr (rd', length rows, chunks (nat bs) (map (np_frombuffer np dt tt) rows))) \<and>
    concat (chunks (nat bs) (map (np_frombuffer np dt tt) rows)) = map (np_frombuffer np dt tt) rows"
proof -
  let ?rd = "\<lparr>r_mytype = tt, r_bin = concat rows @ rest, r_lines = [], r_featuredim = d, r_isbinary = True,
    r_type = dt, r_query = replicate (nat bs) (replicate (nat d) (np_zero np)), r_normalize = 0\<rparr>"
  have init: "DataReader_init np fs f fd bs 0 dt tt = Inr ?rd"
    using DataReader_init_bin [of fs f n d "concat rows @ rest" np fd bs 0 dt tt] assms by simp
  have ok: "bin_ok np (nat bs) ?rd"
    using assms by (simp add: bin_ok_def bin_row_size_def)
  have pend: "bin_pending np ?rd = map (np_frombuffer np dt tt) rows"
    using assms by (intro bin_pending_file) simp_all
  from bin_source.collect_all [OF _ ok, of "[]" 0] assms(10) pend
  obtain rd' where "collect_batches (readbatch np) (nat bs) ?rd [] 0 =
      Some (Inr (rd', length rows, chunks (nat bs) (map (np_frombuffer np dt tt) rows)))"
    by auto
  with init assms(10) show ?thesis by (auto simp: readallbatches_def concat_chunks)
qed

definition np_int8 :: "int numpy" where
  "np_int8 = \<lparr>np_itemsize = (\<lambda>_. 1), np_frombuffer = (\<lambda>_ _ bs. map sint bs), np_zero = 0,
     np_store = (\<lambda>_ x. case x of FFin r \<Rightarrow> \<lfloor>r\<rfloor> | _ \<Rightarrow> 0), np_square = (\<lambda>x. x * x), np_sum = sum_list,
     np_sqrt = (\<lambda>x. int (isqrt (nat x))), np_lt_float = (\<lambda>x y. flt (FFin (of_int x)) y),
     np_of_float = (\<lambda>x. case x of FFin r \<Rightarrow> \<lfloor>r\<rfloor> | _ \<Rightarrow> 0), np_div = (\<lambda>x y. x div y)\<rparr>"

lemma np_int8_sel [simp]:
  "np_itemsize np_int8 t = 1" "np_frombuffer np_int8 t u bs = map sint bs"
  by (simp_all add: np_int8_def)

theorem DataReader_readallbatches_file_witness:
  "\<exists>rd rd'. DataReader_init np_int8 [''v.bin'' \<mapsto> le_bytes 4 9 @ le_bytes 4 2 @ concat [[1, 2], [3, 4], [5, 6]] @ [7]]
      ''v.bin'' 100 2 0 ''int8'' ''int8'' = Inr rd \<and>
    readallbatches np_int8 rd = Some (Inr (rd', 3, [[[1, 2], [3, 4]], [[5, 6]]]))"
proof -
  have "0 \<le> find_sub ''v.bin'' ''.bin''" by code_simp
  moreover have "chunks 2 [[1, 2], [3, 4], [5, 6 :: int]] = [[[1, 2], [3, 4]], [[5, 6]]]"
    by (simp add: chunks.simps)
  ultimately show ?thesis
    using DataReader_readallbatches_file
      [of "[''v.bin'' \<mapsto> le_bytes 4 9 @ le_bytes 4 2 @ concat [[1, 2], [3, 4], [5, 6]] @ [7]]" "''v.bin''"
        9 2 "[[1, 2], [3, 4], [5, 6]]" "[7]" np_int8 "''int8''" 2 100 "''int8''"]
    by (simp add: eval_nat_numeral)
qed

text \<open>With no batch size given (\<open>batchsize = -1\<close>, as both tools call it for their train and query
  sets), one \<open>readbatch\<close> returns the first \<open>n\<close> complete rows of the file, \<open>n\<close> the count in the
  header, or all of them when the file holds fewer.\<close>

theorem DataReader_readbatch_whole:
  assumes "fs f = Some (le_bytes 4 n @ le_bytes 4 d @ concat rows @ rest)"
    and "0 \<le> find_sub f ''.bin''" and "0 \<le> n" and "n < 2147483648" and "0 < d" and "d < 2147483648"
    and "0 < np_itemsize np dt" and "\<forall>r\<in>set rows. length r = np_itemsize np dt * nat d"
    and "length rest < np_itemsize np dt * nat d" and "bs \<le> 0"
  shows "\<exists>rd rd'. DataReader_init np fs f fd bs 0 dt tt = Inr rd \<and>
    readbatch np rd =
      Inr (rd', min (nat n) (length rows), map (np_frombuffer np dt tt) (take (nat n) rows))"
proof -
  let ?rd = "\<lparr>r_mytype = tt, r_bin = concat rows @ rest, r_lines = [], r_featuredim = d, r_isbinary = True,
    r_type = dt, r_query = replicate (nat n) (replicate (nat d) (np_zero np)), r_normalize = 0\<rparr>"
  have init: "DataReader_init np fs f fd bs 0 dt tt = Inr ?rd"
    using DataReader_init_bin [of fs f n d "concat rows @ rest" np fd bs 0 dt tt] assms by simp
  have ok: "bin_ok np (nat n) ?rd"
    using assms by (simp add: bin_ok_def bin_row_size_def)
  have pend: "bin_pending np ?rd = map (np_frombuffer np dt tt) rows"
    using assms by (intro bin_pending_file) simp_all
  from bin_source.get_ok [OF ok] init show ?thesis by (auto simp: pend take_map)
qed

theorem DataReader_readbatch_whole_witness:
  "\<exists>rd rd'. DataReader_init np_int8 [''v.bin'' \<mapsto> le_bytes 4 2 @ le_bytes 4 2 @ concat [[1, 2], [3, 4], [5, 6]] @ []]
      ''v.bin'' 100 (-1) 0 ''int8'' ''int8'' = Inr rd \<and>
    readbatch np_int8 rd = Inr (rd', 2, [[1, 2], [3, 4]])"
proof -
  have "0 \<le> find_sub ''v.bin'' ''.bin''" by code_simp
  then show ?thesis
    using DataReader_readbatch_whole
      [of "[''v.bin'' \<mapsto> le_bytes 4 2 @ le_bytes 4 2 @ concat [[1, 2], [3, 4], [5, 6]] @ []]" "''v.bin''"
        2 2 "[[1, 2], [3, 4], [5, 6]]" "[]" np_int8 "''int8''" "-1" 100 "''int8''"]
    by (simp add: eval_nat_numeral)
qed

text \<open>C15: \<open>readallbatches\<close> does not return on an empty text file opened with no batch size: the buffer
  then has no rows, every batch is as long as the buffer, and the loop never reaches its \<open>break\<close>.\<close>

theorem DataReader_empty_file_diverges:
  assumes "fs f = Some []" and "find_sub f ''.bin'' < 0" and "0 \<le> fd" and "bs \<le> 0"
  shows "\<exists>rd. DataReader_init np fs f fd bs 0 dt tt = Inr rd \<and> readallbatches np rd = None"
proof -
  let ?rd = "\<lparr>r_mytype = tt, r_bin = [], r_lines = [], r_featuredim = fd, r_isbinary = False,
    r_type = tt, r_query = [] :: 'a list list, r_normalize = 0\<rparr>"
  have "DataReader_init np fs f fd bs 0 dt tt = Inr ?rd"
    using assms by (simp add: DataReader_init_def open_file_def np_zeros_def as_text_def Let_def)
  moreover have "text_ok np 0 ?rd" by (simp add: text_ok_def)
  then have "readallbatches np ?rd = None"
    unfolding readallbatches_def using text_source.collect_diverges [of 0 np ?rd "[]" 0] by simp
  ultimately show ?thesis by blast
qed

theorem DataReader_empty_file_diverges_witness:
  "\<exists>rd. DataReader_init np_int8 [''q.tsv'' \<mapsto> []] ''q.tsv'' 100 (-1) 0 ''float32'' ''float32'' = Inr rd
    \<and> readallbatches np_int8 rd = None"
proof -
  have "find_sub ''q.tsv'' ''.bin'' < 0" by code_simp
  then show ?thesis
    using DataReader_empty_file_diverges [of "[''q.tsv'' \<mapsto> []]" "''q.tsv''" 100 "-1" np_int8] by simp
qed

end
