(* ===== verification/Nni_Dataset.thy ===== *)
theory Nni_Dataset
  imports Data_Reader
begin

text \<open>
  \<open>Tools/nni-auto-tune/dataset.py\<close>: its copy of \<open>DataReader\<close> (with its own default arguments) and
  the reader of ann-benchmarks HDF5 files. h5py is not part of the sources: an opened file is the
  record \<open>h5file\<close> of what the reader asks of it, absent entries being \<open>None\<close>. A dataset is a matrix
  or a flat array; a sparse one comes with a list of lengths.
\<close>

section \<open>DataReader\<close>

definition nni_DataReader_init ::
  "'v numpy \<Rightarrow> filesys \<Rightarrow> string \<Rightarrow> int \<Rightarrow> int \<Rightarrow> string \<Rightarrow> bool \<Rightarrow> string \<Rightarrow> 'v reader result" where
  "nni_DataReader_init np fs filename featuredim batchsize datatype norm_flag targettype =
     DataReader_init np fs filename featuredim batchsize (if norm_flag then 1 else 0) datatype targettype"

definition nni_norm :: "'v numpy \<Rightarrow> 'v reader \<Rightarrow> 'v list list \<Rightarrow> 'v list list result" where
  "nni_norm np rd data = bindE (norm_rows np rd data) (\<lambda>(rows, view). Inr rows)"

definition nni_readbatch :: "'v numpy \<Rightarrow> 'v reader \<Rightarrow> ('v reader \<times> nat \<times> 'v list list) result" where
  "nni_readbatch np rd = readbatch np rd"

text \<open>Here \<open>readallbatches\<close> turns the list of batches into one array; \<open>np_array\<close> is numpy's
  constructor, which may refuse batches of different sizes.\<close>

definition nni_readallbatches ::
  "'v numpy \<Rightarrow> ('v list list list \<Rightarrow> 'a result) \<Rightarrow> 'v reader \<Rightarrow> ('v reader \<times> nat \<times> 'a) result option" where
  "nni_readallbatches np np_array rd =
     (case readallbatches np rd of None \<Rightarrow> None
      | Some r \<Rightarrow> Some (bindE r (\<lambda>(rd', R, data). bindE (np_array data) (\<lambda>a. Inr (rd', R, a)))))"

section \<open>HDF5 files\<close>

datatype 'v h5data = Dense "'v list list" | Flat "'v list"

record 'v h5file =
  h5_type :: "string option"
  h5_dimension :: "int option"
  h5_distance :: "string option"
  h5_train :: "'v h5data option"
  h5_test :: "'v h5data option"
  h5_size_train :: "int list option"
  h5_size_test :: "int list option"
  h5_distances :: "'v list list option"

definition h5_key :: "'a option \<Rightarrow> 'a result" where
  "h5_key x = (case x of None \<Rightarrow> Inl KeyError | Some v \<Rightarrow> Inr v)"

fun sparse_to_lists_loop :: "'v list \<Rightarrow> int list \<Rightarrow> int \<Rightarrow> 'v list list \<Rightarrow> 'v list list" where
  "sparse_to_lists_loop data [] index X = X"
| "sparse_to_lists_loop data (l # lengths) index X =
     sparse_to_lists_loop data lengths (index + l) (X @ [py_slice data index (index + l)])"

definition sparse_to_lists :: "'v list \<Rightarrow> int list \<Rightarrow> 'v list list" where
  "sparse_to_lists data lengths = sparse_to_lists_loop data lengths 0 []"

text \<open>\<open>np.array\<close> keeps the rank of a dataset; slicing a sparse dataset gives a list of vectors, or
  of matrices if the data has rows.\<close>

datatype 'v h5rows = Rows "'v list list" | Vector "'v list" | Blocks "'v list list list"

definition whole_rows :: "'v h5data \<Rightarrow> 'v h5rows" where
  "whole_rows d = (case d of Dense m \<Rightarrow> Rows m | Flat v \<Rightarrow> Vector v)"

definition sparse_rows :: "'v h5data \<Rightarrow> int list \<Rightarrow> 'v h5rows" where
  "sparse_rows d lengths =
     (case d of Dense m \<Rightarrow> Blocks (sparse_to_lists m lengths) | Flat v \<Rightarrow> Rows (sparse_to_lists v lengths))"

definition dataset_transform :: "'v h5file \<Rightarrow> ('v h5rows \<times> 'v h5rows) result" where
  "dataset_transform dataset =
     (if (case h5_type dataset of None \<Rightarrow> ''dense'' | Some t \<Rightarrow> t) \<noteq> ''sparse'' then
        bindE (h5_key (h5_train dataset)) (\<lambda>tr.
        bindE (h5_key (h5_test dataset)) (\<lambda>te. Inr (whole_rows tr, whole_rows te)))
      else
        bindE (h5_key (h5_train dataset)) (\<lambda>tr.
        bindE (h5_key (h5_size_train dataset)) (\<lambda>ltr.
        bindE (h5_key (h5_test dataset)) (\<lambda>te.
        bindE (h5_key (h5_size_test dataset)) (\<lambda>lte.
          Inr (sparse_rows tr ltr, sparse_rows te lte))))))"

record 'v hdf5_reader =
  hr_data_type :: string
  hr_featuredim :: int
  hr_train :: "'v h5rows"
  hr_test :: "'v h5rows"
  hr_distance :: string
  hr_label :: "'v list list"

text \<open>\<open>len(self.data['train'][0])\<close>: an element of a flat dataset has no length.\<close>

definition first_row_length :: "'v h5data \<Rightarrow> int result" where
  "first_row_length d =
     (case d of
        Dense m \<Rightarrow> bindE (py_get m 0) (\<lambda>row. Inr (int (length row)))
      | Flat v \<Rightarrow> bindE (py_get v 0) (\<lambda>_. Inl TypeError))"

definition HDF5Reader_init :: "(string \<rightharpoonup> 'v h5file) \<Rightarrow> string \<Rightarrow> string \<Rightarrow> 'v hdf5_reader result" where
  "HDF5Reader_init h5 filename data_type =
     bindE (case h5 filename of None \<Rightarrow> Inl FileNotFoundError | Some d \<Rightarrow> Inr d) (\<lambda>data.
     bindE (case h5_dimension data of
              Some d \<Rightarrow> Inr d
            | None \<Rightarrow> bindE (h5_key (h5_train data)) first_row_length) (\<lambda>fd.
     bindE (dataset_transform data) (\<lambda>(tr, te).
     bindE (h5_key (h5_distance data)) (\<lambda>dist.
     bindE (h5_key (h5_distances data)) (\<lambda>lab.
       Inr \<lparr>hr_data_type = data_type, hr_featuredim = fd, hr_train = tr, hr_test = te,
            hr_distance = dist, hr_label = lab\<rparr>)))))"

text \<open>\<open>norm\<close> is a copy of the method of \<open>DataReader\<close>, on the dimension of this reader and data of its type.\<close>

definition HDF5Reader_norm :: "'v numpy \<Rightarrow> 'v hdf5_reader \<Rightarrow> 'v list list \<Rightarrow> 'v list list result" where
  "HDF5Reader_norm np r data =
     (let square = map (\<lambda>row. np_sqrt np (np_sum np (map (np_square np) row))) data;
          small = map (\<lambda>s. np_lt_float np s float_1e6) square
      in bindE (fdiv float_1e6 (sqrt_of_nat (nat (hr_featuredim r)))) (\<lambda>fill.
           let data' = map2 (\<lambda>b row. if b then map (\<lambda>_. np_store np (hr_data_type r) fill) row else row) small data;
               square' = map2 (\<lambda>b s. if b then np_of_float np float_1e6 else s) small square
           in Inr (map2 (\<lambda>row s. map (\<lambda>x. np_div np x s) row) data' square')))"

text \<open>\<open>np_cast\<close> is \<open>np.array(..., dtype)\<close>, which refuses rows of different lengths; as the callers
  use its result as a matrix, it also stands for what becomes of data of another rank.\<close>

definition HDF5Reader_readallbatches ::
  "(string \<Rightarrow> 'v h5rows \<Rightarrow> 'w list list result) \<Rightarrow> 'v hdf5_reader \<Rightarrow> ('w list list \<times> 'w list list) result" where
  "HDF5Reader_readallbatches np_cast r =
     bindE (np_cast (hr_data_type r) (hr_train r)) (\<lambda>train.
     bindE (np_cast (hr_data_type r) (hr_test r)) (\<lambda>test. Inr (train, test)))"

section \<open>What sparse rows are\<close>

lemma sparse_loop_prefix:
  "sparse_to_lists_loop data lengths i X = X @ sparse_to_lists_loop data lengths i []"
proof (induction lengths arbitrary: i X)
  case (Cons l ls)
  from Cons.IH [of "i + l" "X @ [py_slice data i (i + l)]"]
    Cons.IH [of "i + l" "[py_slice data i (i + l)]"] show ?case by simp
qed simp

lemma sparse_loop_concat:
  "\<forall>l\<in>set lengths. 0 \<le> l \<Longrightarrow>
   concat (sparse_to_lists_loop data lengths (int i) []) = take (nat (sum_list lengths)) (drop i data)"
proof (induction lengths arbitrary: i)
  case (Cons l ls)
  then obtain k where l: "l = int k" by (metis list.set_intros(1) nonneg_eq_int)
  have nn: "0 \<le> sum_list ls" using Cons.prems by (auto intro: sum_list_nonneg)
  have "concat (sparse_to_lists_loop data (l # ls) (int i) [])
      = py_slice data (int i) (int (i + k)) @ concat (sparse_to_lists_loop data ls (int (i + k)) [])"
    using sparse_loop_prefix [of data ls "int (i + k)" "[py_slice data (int i) (int (i + k))]"]
    by (simp add: l)
  also have "\<dots> = take k (drop i data) @ take (nat (sum_list ls)) (drop k (drop i data))"
    using Cons.IH [of "i + k"] Cons.prems by (simp add: add.commute del: of_nat_add)
  also have "\<dots> = take (k + nat (sum_list ls)) (drop i data)"
    by (simp add: take_add)
  finally show ?case using nn by (simp add: l nat_add_distrib)
qed simp

text \<open>The rows of a sparse dataset are consecutive, in order, and together the stated prefix.\<close>

lemma sparse_to_lists_concat:
  "\<forall>l\<in>set lengths. 0 \<le> l \<Longrightarrow> concat (sparse_to_lists data lengths) = take (nat (sum_list lengths)) data"
  using sparse_loop_concat [of lengths data 0] by (simp add: sparse_to_lists_def)

lemma sparse_loop_lengths:
  "\<forall>l\<in>set lengths. 0 \<le> l \<Longrightarrow> int i + sum_list lengths \<le> int (length data) \<Longrightarrow>
   map (int \<circ> length) (sparse_to_lists_loop data lengths (int i) []) = lengths"
proof (induction lengths arbitrary: i)
  case (Cons l ls)
  then obtain k where l: "l = int k" by (metis list.set_intros(1) nonneg_eq_int)
  have nn: "0 \<le> sum_list ls" using Cons.prems by (auto intro: sum_list_nonneg)
  then have "i + k \<le> length data" using Cons.prems l by simp
  moreover have "map (int \<circ> length) (sparse_to_lists_loop data ls (int (i + k)) []) = ls"
    using Cons.prems l by (intro Cons.IH) simp_all
  moreover have "sparse_to_lists_loop data (l # ls) (int i) [] =
      take k (drop i data) # sparse_to_lists_loop data ls (int (i + k)) []"
    using sparse_loop_prefix [of data ls "int (i + k)" "[py_slice data (int i) (int (i + k))]"]
    by (simp add: l flip: of_nat_add)
  ultimately show ?case by (simp add: l comp_def)
qed simp

end
