(* ===== verification/Nni_Model.thy ===== *)
theory Nni_Model
  imports Nni_Dataset
begin

text \<open>
  \<open>Tools/nni-auto-tune/model.py\<close>: the distance table, the wrapper class \<open>Sptag\<close> and the brute-force
  search \<open>BruteForceBLAS\<close>. Array elements are floats. scipy's \<open>pdist\<close>, numpy's array arithmetic and
  \<open>argpartition\<close>, and the index behind \<open>SPTAG.AnnIndex\<close> are not part of the sources modelled here:
  the first two are the arguments \<open>scipy_pdist\<close> and \<open>bl\<close>, and the calls \<open>Sptag\<close> makes on its index are
  recorded, in order, as values of \<open>sptag_call\<close>.
\<close>

type_synonym vec = "pyfloat list"

section \<open>Distances\<close>

definition pdist :: "(string \<Rightarrow> vec \<Rightarrow> vec \<Rightarrow> pyfloat) \<Rightarrow> vec \<Rightarrow> vec \<Rightarrow> string \<Rightarrow> pyfloat" where
  "pdist scipy_pdist a b metric = scipy_pdist metric a b"

text \<open>\<open>set(a) & set(b)\<close> never holds a NaN: a NaN is not equal to the NaN of another array.\<close>

definition jaccard :: "vec \<Rightarrow> vec \<Rightarrow> pyfloat result" where
  "jaccard a b =
     (if length a = 0 \<or> length b = 0 then Inr (FFin 0)
      else let intersect = card (set a \<inter> set b - {FNan})
           in bindE (float_of_int (int intersect)) (\<lambda>x.
              bindE (float_of_int (int (length a) + int (length b) - int intersect)) (\<lambda>y. fdiv x y)))"

definition metric_distance ::
  "(string \<Rightarrow> vec \<Rightarrow> vec \<Rightarrow> pyfloat) \<Rightarrow> string \<Rightarrow> vec \<Rightarrow> vec \<Rightarrow> pyfloat result" where
  "metric_distance sp metric a b =
     (if metric = ''hamming'' then Inr (pdist sp a b ''hamming'')
      else if metric = ''jaccard'' then bindE (jaccard a b) (\<lambda>j. Inr (fadd (FFin 1) (fneg j)))
      else if metric = ''euclidean'' then Inr (pdist sp a b ''euclidean'')
      else if metric = ''angular'' then Inr (pdist sp a b ''cosine'')
      else Inl KeyError)"

definition metric_distance_valid :: "string \<Rightarrow> pyfloat \<Rightarrow> bool result" where
  "metric_distance_valid metric a =
     (if metric = ''jaccard'' then Inr (flt a (fadd (FFin 1) (fneg (fl64 (1 / 100000)))))
      else if metric \<in> {''hamming'', ''euclidean'', ''angular''} then Inr True
      else Inl KeyError)"

section \<open>The index wrapper\<close>

datatype sptag_call =
    AnnIndex string string int
  | SetBuildParam string string string
  | BuildIndex "vec list" int bool
  | SetSearchParam string string string
  | SaveIndex string
  | LoadIndex string "sptag_call list option"

text \<open>\<open>sp_index\<close> says whether the attribute \<open>_sptag\<close> exists, \<open>sp_s_para\<close> likewise holds an attribute
  that only \<open>set_query_arguments\<close> creates.\<close>

record sptag =
  sp_algo :: string
  sp_para :: "(string \<times> int) list"
  sp_metric :: string
  sp_data_type :: "string option"
  sp_s_para :: "(string \<times> int) list option"
  sp_index :: bool
  sp_calls :: "sptag_call list"

definition record_call :: "sptag_call \<Rightarrow> sptag \<Rightarrow> sptag" where
  "record_call c a = a\<lparr>sp_calls := sp_calls a @ [c]\<rparr>"

definition Sptag_init :: "string \<Rightarrow> string \<Rightarrow> sptag result" where
  "Sptag_init algo metric =
     bindE (if metric = ''angular'' then Inr ''Cosine''
            else if metric = ''euclidean'' then Inr ''L2'' else Inl KeyError) (\<lambda>m.
       Inr \<lparr>sp_algo = algo, sp_para = [], sp_metric = m, sp_data_type = None, sp_s_para = None,
            sp_index = False, sp_calls = []\<rparr>)"

definition Sptag_save :: "string \<Rightarrow> sptag \<Rightarrow> sptag result" where
  "Sptag_save fn a = (if sp_index a then Inr (record_call (SaveIndex fn) a) else Inl AttributeError)"

text \<open>\<open>AnnIndex.Load\<close> makes a new index object from what the directory \<open>fn\<close> holds (\<open>disk\<close>: the calls
  of the index that was saved there), so the calls of the object it replaces are dropped.\<close>

definition Sptag_load :: "(string \<rightharpoonup> sptag_call list) \<Rightarrow> string \<Rightarrow> sptag \<Rightarrow> sptag" where
  "Sptag_load disk fn a = a\<lparr>sp_index := True, sp_calls := [LoadIndex fn (disk fn)]\<rparr>"

definition Sptag_fit ::
  "vec list \<Rightarrow> (string \<times> int) list \<Rightarrow> string \<Rightarrow> bool \<Rightarrow> sptag \<Rightarrow> sptag result" where
  "Sptag_fit X para data_type save_index a =
     bindE (if data_type = ''float32'' then Inr ''Float''
            else if data_type = ''int8'' then Inr ''Int8''
            else if data_type = ''int16'' then Inr ''Int16'' else Inl KeyError) (\<lambda>dt.
     bindE (py_get X 0) (\<lambda>row.
       let a1 = record_call (AnnIndex (sp_algo a) dt (int (length row)))
                  (a\<lparr>sp_data_type := Some dt, sp_index := True\<rparr>);
           a2 = record_call (SetBuildParam ''NumberOfThreads'' ''32'' ''Index'') a1;
           a3 = record_call (SetBuildParam ''DistCalcMethod'' (sp_metric a) ''Index'') a2;
           a4 = (if para \<noteq> [] then
                   fold (\<lambda>(k, v). record_call (SetBuildParam k (str_int v) ''Index'')) para (a3\<lparr>sp_para := para\<rparr>)
                 else a3);
           a5 = record_call (BuildIndex X (int (length X)) False) a4
       in if save_index then Sptag_save ''index'' a5 else Inr a5))"

definition Sptag_set_query_arguments :: "(string \<times> int) list \<Rightarrow> sptag \<Rightarrow> sptag result" where
  "Sptag_set_query_arguments s_para a =
     (if s_para \<noteq> [] then
        (if sp_index a then
           Inr (fold (\<lambda>(k, v). record_call (SetSearchParam k (str_int v) ''Index'')) s_para
                  (a\<lparr>sp_s_para := Some s_para\<rparr>))
         else Inl AttributeError)
      else Inr a)"

text \<open>\<open>search\<close> stands for \<open>AnnIndex.Search(v, k)[0]\<close>; the calls made so far determine its answer.\<close>

definition Sptag_query ::
  "(sptag_call list \<Rightarrow> vec \<Rightarrow> int \<Rightarrow> int list) \<Rightarrow> vec \<Rightarrow> int \<Rightarrow> sptag \<Rightarrow> int list result" where
  "Sptag_query search v k a = (if sp_index a then Inr (search (sp_calls a) v k) else Inl AttributeError)"

definition Sptag_str :: "sptag \<Rightarrow> string result" where
  "Sptag_str a =
     (let s1 = (if sp_para a \<noteq> [] then '', '' @ join '', '' (map (\<lambda>(k, v). k @ ''='' @ str_int v) (sp_para a)) else '''')
      in case sp_s_para a of None \<Rightarrow> Inl AttributeError
         | Some s_para \<Rightarrow>
             (let s2 = (if s_para \<noteq> [] then s1 @ '', '' @ join '', '' (map (\<lambda>(k, v). k @ ''_s'' @ ''='' @ str_int v) s_para) else s1)
              in Inr (''Sptag(metric='' @ sp_metric a @ '', algo='' @ sp_algo a @ s2 @ '')'')))"

section \<open>Brute force\<close>

record blas =
  bl_astype :: "string \<Rightarrow> pyfloat \<Rightarrow> pyfloat"
  bl_sumsq :: "vec \<Rightarrow> pyfloat"
  bl_sqrt :: "pyfloat \<Rightarrow> pyfloat"
  bl_div :: "pyfloat \<Rightarrow> pyfloat \<Rightarrow> pyfloat"
  bl_dot :: "vec \<Rightarrow> vec \<Rightarrow> pyfloat"
  bl_neg :: "pyfloat \<Rightarrow> pyfloat"
  bl_sub :: "pyfloat \<Rightarrow> pyfloat \<Rightarrow> pyfloat"
  bl_twice :: "pyfloat \<Rightarrow> pyfloat"
  bl_argpartition :: "pyfloat list \<Rightarrow> int \<Rightarrow> nat list result"

record brute_force =
  bf_metric :: string
  bf_precision :: string
  bf_index :: "vec list"
  bf_lengths :: "pyfloat list"

definition BruteForceBLAS_init :: "string \<Rightarrow> string \<Rightarrow> brute_force result" where
  "BruteForceBLAS_init metric precision =
     (if metric \<notin> {''angular'', ''euclidean'', ''hamming'', ''jaccard''} then Inl NotImplementedError
      else if metric = ''hamming'' \<and> precision \<noteq> ''bool'' then Inl NotImplementedError
      else Inr \<lparr>bf_metric = metric, bf_precision = precision, bf_index = [], bf_lengths = []\<rparr>)"

definition BruteForceBLAS_fit :: "blas \<Rightarrow> vec list \<Rightarrow> brute_force \<Rightarrow> brute_force result" where
  "BruteForceBLAS_fit bl X bf =
     (let X1 = map (map (bl_astype bl (bf_precision bf))) X
      in if bf_metric bf = ''angular'' then
           Inr (bf\<lparr>bf_index := map (\<lambda>row. map (\<lambda>x. bl_div bl x (bl_sqrt bl (bl_sumsq bl row))) row) X1\<rparr>)
         else if bf_metric bf = ''hamming'' then
           (let X2 = map (map (bl_astype bl ''float32'')) X1
            in Inr (bf\<lparr>bf_index := X2, bf_lengths := map (bl_sumsq bl) X2\<rparr>))
         else if bf_metric bf = ''euclidean'' then
           Inr (bf\<lparr>bf_index := X1, bf_lengths := map (bl_sumsq bl) X1\<rparr>)
         else if bf_metric bf = ''jaccard'' then Inr (bf\<lparr>bf_index := X1\<rparr>)
         else Inl AssertionError)"

definition bf_dists ::
  "blas \<Rightarrow> (string \<Rightarrow> vec \<Rightarrow> vec \<Rightarrow> pyfloat) \<Rightarrow> brute_force \<Rightarrow> vec \<Rightarrow> pyfloat list result" where
  "bf_dists bl sp bf v =
     (if bf_metric bf = ''angular'' then Inr (map (\<lambda>row. bl_neg bl (bl_dot bl row v)) (bf_index bf))
      else if bf_metric bf = ''euclidean'' \<or> bf_metric bf = ''hamming'' then
        Inr (map2 (\<lambda>len row. bl_sub bl len (bl_twice bl (bl_dot bl row v))) (bf_lengths bf) (bf_index bf))
      else if bf_metric bf = ''jaccard'' then mapE (\<lambda>e. metric_distance sp (bf_metric bf) v e) (bf_index bf)
      else Inl AssertionError)"

text \<open>The query in the precision of the object, then (but for jaccard) in the type of the index array.\<close>

definition query_vector :: "blas \<Rightarrow> brute_force \<Rightarrow> vec \<Rightarrow> vec" where
  "query_vector bl bf v0 =
     (let v = map (bl_astype bl (bf_precision bf)) v0
      in if bf_metric bf \<noteq> ''jaccard''
         then map (bl_astype bl (if bf_metric bf = ''hamming'' then ''float32'' else bf_precision bf)) v else v)"

definition query_with_distances ::
  "blas \<Rightarrow> (string \<Rightarrow> vec \<Rightarrow> vec \<Rightarrow> pyfloat) \<Rightarrow> brute_force \<Rightarrow> vec \<Rightarrow> int \<Rightarrow> (nat \<times> pyfloat) list result" where
  "query_with_distances bl sp bf v0 n =
     (let v = query_vector bl bf v0
      in bindE (bf_dists bl sp bf v) (\<lambda>dists.
         bindE (bl_argpartition bl dists n) (\<lambda>part.
           let nearest_indices = py_prefix part n
           in bindE (mapE (\<lambda>idx. bindE (py_get dists (int idx)) (\<lambda>d.
                       bindE (metric_distance_valid (bf_metric bf) d) (\<lambda>ok. Inr (idx, ok)))) nearest_indices) (\<lambda>flagged.
              mapE (\<lambda>idx. bindE (py_get (bf_index bf) (int idx)) (\<lambda>ep.
                  bindE (metric_distance sp (bf_metric bf) ep v) (\<lambda>d. Inr (idx, d))))
                (map fst (filter snd flagged))))))"

definition bf_query ::
  "blas \<Rightarrow> (string \<Rightarrow> vec \<Rightarrow> vec \<Rightarrow> pyfloat) \<Rightarrow> brute_force \<Rightarrow> vec \<Rightarrow> int \<Rightarrow> nat list result" where
  "bf_query bl sp bf v n = bindE (query_with_distances bl sp bf v n) (\<lambda>res. Inr (map fst res))"

section \<open>Properties\<close>

lemma jaccard_value:
  assumes "a \<noteq> []" and "b \<noteq> []" and "length a + length b \<le> 2 ^ 53"
  defines "i \<equiv> card (set a \<inter> set b - {FNan})"
  shows "jaccard a b = fdiv (FFin (of_nat i)) (FFin (of_nat (length a + length b - i)))"
    and "i \<le> length a" and "i \<le> length b" and "0 < length a + length b - i"
proof -
  have "i \<le> card (set a)" "i \<le> card (set b)" unfolding i_def by (auto intro: card_mono)
  then show il: "i \<le> length a" "i \<le> length b" using card_length [of a] card_length [of b] by linarith+
  show "0 < length a + length b - i" using il assms(1) by (cases a) auto
  have "float_of_int (int i) = Inr (FFin (of_nat i))"
    using il assms(3) by (subst float_of_int_exact) auto
  moreover have "float_of_int (int (length a) + int (length b) - int i) =
      Inr (FFin (of_nat (length a + length b - i)))"
    using il assms(3) by (subst float_of_int_exact) (auto simp: of_nat_diff)
  ultimately show "jaccard a b = fdiv (FFin (of_nat i)) (FFin (of_nat (length a + length b - i)))"
    using assms(1,2) by (simp add: jaccard_def Let_def flip: i_def)
qed

text \<open>Rounding to nearest moves a number by at most half a unit in the last place; a number from 0 to 1
  stays there and moves by at most 1/2^54.\<close>

lemma rnd_even_error: "\<bar>of_int (rnd_even x) - x\<bar> \<le> 1 / 2"
proof -
  have "of_int \<lfloor>x\<rfloor> \<le> x" "x < of_int \<lfloor>x\<rfloor> + 1" by linarith+
  then show ?thesis by (auto simp: rnd_even_def Let_def abs_le_iff)
qed

lemma rndf_error: "\<bar>rndf p emin x - x\<bar> \<le> 2 powi quantum p emin x / 2"
proof (cases "x = 0")
  case False
  define u :: rat where "u = 2 powi quantum p emin x"
  have u: "0 < u" by (simp add: u_def)
  have "rndf p emin x - x = (of_int (rnd_even (x / u)) - x / u) * u"
    using False u by (simp add: rndf_def u_def algebra_simps)
  also have "\<bar>\<dots>\<bar> \<le> 1 / 2 * u"
    unfolding abs_mult using u rnd_even_error [of "x / u"] by (intro mult_mono) simp_all
  finally show ?thesis by (simp add: u_def)
qed (simp add: rndf_def)

lemma fl64_unit:
  assumes "0 \<le> x" and "x \<le> 1"
  shows "\<exists>r. fl64 x = FFin r \<and> 0 \<le> r \<and> r \<le> 1 \<and> \<bar>r - x\<bar> \<le> 1 / 2 ^ 54"
proof -
  obtain r where r: "fl64 x = FFin r" "0 \<le> r" "r \<le> 1"
    using fl64_between [of 0 x 1] assms by auto
  have "\<bar>r - x\<bar> \<le> 1 / 2 ^ 54"
  proof (cases "x = 0 \<or> x = 1")
    case True
    with r(1) show ?thesis by auto
  next
    case False
    with assms have x: "0 < x" "x < 2 powi 0" by simp_all
    then have "quantum 53 (- 1074) x \<le> - 53"
      using ilog2_less [of x 0] by (simp add: quantum_def)
    then have "(2 :: rat) powi quantum 53 (- 1074) x \<le> 2 powi (- 53)" by (rule two_powi_le)
    moreover have "rndf 53 (- 1074) x = r"
      using r(1) by (auto simp: fl64_def Let_def split: if_splits)
    ultimately show ?thesis
      using rndf_error [of 53 "- 1074" x] by (simp add: power_int_minus field_simps)
  qed
  with r show ?thesis by blast
qed

text \<open>C17: the Jaccard entry of the distance table, for all vectors of at most 2^53 coordinates together.
  The result is a finite number from 0 to 1. With an empty vector or no common value it is 1. For
  non-empty vectors it differs by at most 1/2^53 (two roundings) from 1 - i / (len(a) + len(b) - i), where i
  is the number of values common to both, so it is the Jaccard distance 1 - |A and B| / |A or B| of the sets
  of their values when no vector repeats a value; it is then exactly 0 for two orders of the
  same values (other than NaN, which Python finds unequal to itself).\<close>

theorem jaccard_distance_value:
  assumes "length a + length b \<le> 2 ^ 53" and "i = card (set a \<inter> set b - {FNan})"
  shows "\<exists>r. metric_distance sp ''jaccard'' a b = Inr (FFin r) \<and> 0 \<le> r \<and> r \<le> 1 \<and>
    (a = [] \<or> b = [] \<or> i = 0 \<longrightarrow> r = 1) \<and>
    (a \<noteq> [] \<and> b \<noteq> [] \<longrightarrow> \<bar>r - (1 - of_nat i / of_nat (length a + length b - i))\<bar> \<le> 1 / 2 ^ 53) \<and>
    (a \<noteq> [] \<and> b \<noteq> [] \<and> distinct a \<and> distinct b \<and> FNan \<notin> set a \<longrightarrow>
      \<bar>r - (1 - of_nat (card (set a \<inter> set b)) / of_nat (card (set a \<union> set b)))\<bar> \<le> 1 / 2 ^ 53 \<and>
      (set a = set b \<longrightarrow> r = 0))"
proof (cases "a = [] \<or> b = []")
  case True
  then show ?thesis by (auto simp: metric_distance_def jaccard_def)
next
  case False
  define n where "n = length a + length b - i"
  from False assms jaccard_value [of a b] have ja: "jaccard a b = fdiv (FFin (of_nat i)) (FFin (of_nat n))"
    and n: "i \<le> n" "0 < n" by (auto simp: n_def)
  obtain j where j: "fl64 (of_nat i / of_nat n) = FFin j" "0 \<le> j" "j \<le> 1" "\<bar>j - of_nat i / of_nat n\<bar> \<le> 1 / 2 ^ 54"
    using fl64_unit [of "of_nat i / of_nat n"] n by auto
  obtain r where r: "fl64 (1 - j) = FFin r" "0 \<le> r" "r \<le> 1" "\<bar>r - (1 - j)\<bar> \<le> 1 / 2 ^ 54"
    using fl64_unit [of "1 - j"] j by auto
  have val: "metric_distance sp ''jaccard'' a b = Inr (FFin r)"
    using n(2) j(1) r(1) by (simp add: metric_distance_def ja)
  have err: "\<bar>r - (1 - of_nat i / of_nat n)\<bar> \<le> 1 / 2 ^ 53"
  proof -
    have "\<bar>r - (1 - of_nat i / of_nat n)\<bar> \<le> \<bar>r - (1 - j)\<bar> + \<bar>j - of_nat i / of_nat n\<bar>" by linarith
    also have "\<dots> \<le> 1 / 2 ^ 54 + 1 / 2 ^ 54" using r(4) j(4) by (rule add_mono)
    finally show ?thesis by simp
  qed
  have one: "r = 1" if "i = 0" using that j(1) r(1) by simp
  have sets: "i = card (set a \<inter> set b)" "n = card (set a \<union> set b)"
    if "distinct a" "distinct b" "FNan \<notin> set a"
  proof -
    show i: "i = card (set a \<inter> set b)" using that(3) assms(2) by (simp add: Diff_triv)
    show "n = card (set a \<union> set b)"
      using card_Un_Int [of "set a" "set b"] that(1,2) by (simp add: n_def i distinct_card)
  qed
  have zero: "r = 0" if "distinct a" "distinct b" "FNan \<notin> set a" "set a = set b"
  proof -
    have "i = n" unfolding sets [OF that(1-3)] that(4) by simp
    with n(2) j(1) r(1) show ?thesis by simp
  qed
  show ?thesis
  proof (intro exI [of _ r] conjI impI)
    show "\<bar>r - (1 - of_nat i / of_nat (length a + length b - i))\<bar> \<le> 1 / 2 ^ 53"
      using err by (simp only: n_def)
    show "\<bar>r - (1 - of_nat (card (set a \<inter> set b)) / of_nat (card (set a \<union> set b)))\<bar> \<le> 1 / 2 ^ 53"
      if "a \<noteq> [] \<and> b \<noteq> [] \<and> distinct a \<and> distinct b \<and> FNan \<notin> set a"
      using err sets that by (simp only: simp_thms)
    show "r = 1" if "a = [] \<or> b = [] \<or> i = 0" using that False one by blast
    show "r = 0" if "a \<noteq> [] \<and> b \<noteq> [] \<and> distinct a \<and> distinct b \<and> FNan \<notin> set a" and "set a = set b"
      using zero that by blast
  qed (fact val r(2,3))+
qed

theorem jaccard_distance_value_witness:
  "\<exists>r. metric_distance (\<lambda>_ _ _. FNan) ''jaccard'' [FFin 1, FFin 2] [FFin 2, FFin 3] = Inr (FFin r) \<and>
    0 \<le> r \<and> r \<le> 1 \<and> \<bar>r - (1 - 1 / 3)\<bar> \<le> 1 / 2 ^ 53"
proof -
  have c: "card (set [FFin 1, FFin 2] \<inter> set [FFin 2, FFin 3] - {FNan}) = 1" by code_simp
  show ?thesis
    using jaccard_distance_value [of "[FFin 1, FFin 2]" "[FFin 2, FFin 3]" 1 "\<lambda>_ _ _. FNan"] c by auto
qed

text \<open>numpy documents \<open>argpartition(a, n)\<close>: a permutation of the indices whose first \<open>n\<close> entries are the
  places of \<open>n\<close> smallest elements; an \<open>n\<close> outside the array is refused.\<close>

definition lawful_argpartition :: "blas \<Rightarrow> bool" where
  "lawful_argpartition bl \<longleftrightarrow>
     (\<forall>ds n. (if 0 \<le> n \<and> n < int (length ds)
              then (\<exists>p. bl_argpartition bl ds n = Inr p \<and> distinct p \<and> set p = {..<length ds} \<and>
                    (\<forall>i\<in>set (take (nat n) p). \<forall>j\<in>set (drop (nat n) p). \<not> flt (ds ! j) (ds ! i)))
              else n < - int (length ds) \<or> int (length ds) \<le> n \<longrightarrow> bl_argpartition bl ds n = Inl ValueError))"

text \<open>For the three metrics that keep every candidate, the selection is by the keys.\<close>

lemma query_selects:
  assumes "lawful_argpartition bl" and "bf_metric bf \<in> {''angular'', ''euclidean'', ''hamming''}"
    and "bf_metric bf = ''angular'' \<or> length (bf_lengths bf) = length (bf_index bf)"
    and "v = query_vector bl bf v0" and "0 \<le> n"
  shows "if n < int (length (bf_index bf)) then
      (\<exists>ids ds. query_with_distances bl sp bf v0 n =
          Inr (map (\<lambda>i. (i, projr (metric_distance sp (bf_metric bf) (bf_index bf ! i) v))) ids) \<and>
        bf_dists bl sp bf v = Inr ds \<and> length ds = length (bf_index bf) \<and>
        distinct ids \<and> length ids = nat n \<and> set ids \<subseteq> {..<length (bf_index bf)} \<and>
        (\<forall>i\<in>set ids. \<forall>j<length (bf_index bf). j \<notin> set ids \<longrightarrow> \<not> flt (ds ! j) (ds ! i)))
    else query_with_distances bl sp bf v0 n = Inl ValueError"
proof -
  let ?N = "length (bf_index bf)"
  obtain ds where ds: "bf_dists bl sp bf v = Inr ds" "length ds = ?N"
    using assms(2,3) by (auto simp: bf_dists_def)
  show ?thesis
  proof (cases "n < int ?N")
    case False
    with ds assms(1,5) have "bl_argpartition bl ds n = Inl ValueError"
      unfolding lawful_argpartition_def by (smt (verit))
    with ds False show ?thesis by (simp add: query_with_distances_def flip: assms(4))
  next
    case True
    with ds assms(1,5) obtain p where p: "bl_argpartition bl ds n = Inr p" "distinct p" "set p = {..<?N}"
      "\<forall>i\<in>set (take (nat n) p). \<forall>j\<in>set (drop (nat n) p). \<not> flt (ds ! j) (ds ! i)"
      unfolding lawful_argpartition_def by (metis (no_types, lifting))
    define ids where "ids = take (nat n) p"
    have pre: "py_prefix p n = ids"
      using assms(5) py_prefix_nat [of p "nat n"] by (simp add: ids_def)
    have lenp: "length p = ?N" using p(2,3) by (metis card_lessThan distinct_card)
    have sub: "set ids \<subseteq> {..<?N}" using set_take_subset [of "nat n" p] p(3) by (simp add: ids_def)
    have flags: "mapE (\<lambda>idx. bindE (py_get ds (int idx)) (\<lambda>d.
        bindE (metric_distance_valid (bf_metric bf) d) (\<lambda>ok. Inr (idx, ok)))) ids = Inr (map (\<lambda>x. (x, True)) ids)"
      using sub ds assms(2) by (intro mapE_total) (auto simp: metric_distance_valid_def)
    have dist: "mapE (\<lambda>idx. bindE (py_get (bf_index bf) (int idx)) (\<lambda>ep.
        bindE (metric_distance sp (bf_metric bf) ep v) (\<lambda>d. Inr (idx, d)))) ids =
        Inr (map (\<lambda>i. (i, projr (metric_distance sp (bf_metric bf) (bf_index bf ! i) v))) ids)"
      using sub assms(2) by (intro mapE_total) (auto simp: metric_distance_def)
    have "query_with_distances bl sp bf v0 n =
          Inr (map (\<lambda>i. (i, projr (metric_distance sp (bf_metric bf) (bf_index bf ! i) v))) ids)"
      using ds p(1) flags dist
      by (simp add: query_with_distances_def pre Let_def filter_map comp_def flip: assms(4))
    moreover have "j \<in> set (drop (nat n) p)" if "j < ?N" "j \<notin> set ids" for j
      using that p(3) by (metis append_take_drop_id Un_iff ids_def lessThan_iff set_append)
    moreover have "distinct ids" "length ids = nat n"
      using p(2) True lenp assms(5) by (auto simp: ids_def)
    ultimately show ?thesis
      using True ds p(4) sub by (auto simp: ids_def)
  qed
qed

section \<open>Nearness in exact arithmetic\<close>

text \<open>The vectors as real numbers: inner product, squared Euclidean distance, the sum of the absolute
  coordinates, and the part of the cosine similarity that does not depend on the length of the query.\<close>

fun fin_val :: "pyfloat \<Rightarrow> rat" where
  "fin_val (FFin r) = r"
| "fin_val _ = 0"

definition val :: "pyfloat \<Rightarrow> real" where
  "val x = of_rat (fin_val x)"

definition dotR :: "vec \<Rightarrow> vec \<Rightarrow> real" where
  "dotR u v = (\<Sum>(x, y)\<leftarrow>zip u v. val x * val y)"

definition sqdist :: "vec \<Rightarrow> vec \<Rightarrow> real" where
  "sqdist u v = (\<Sum>(x, y)\<leftarrow>zip u v. (val x - val y)\<^sup>2)"

definition norm1 :: "vec \<Rightarrow> real" where
  "norm1 v = (\<Sum>y\<leftarrow>v. \<bar>val y\<bar>)"

definition cosim :: "vec \<Rightarrow> vec \<Rightarrow> real" where
  "cosim u v = dotR u v / sqrt (dotR u u)"

text \<open>A float that is the rounding of a real number, with an error of at most \<open>e\<close>.\<close>

definition rounded :: "real \<Rightarrow> pyfloat \<Rightarrow> real \<Rightarrow> bool" where
  "rounded e x r \<longleftrightarrow> (\<exists>q. x = FFin q) \<and> \<bar>val x - r\<bar> \<le> e"

text \<open>The operations numpy makes for one row and one query, each on the operands it has there, are within
  an error \<open>e\<close> of the exact operation (no overflow and no NaN). Negation is exact.\<close>

definition unit_row :: "blas \<Rightarrow> vec \<Rightarrow> vec" where
  "unit_row bl row = map (\<lambda>x. bl_div bl x (bl_sqrt bl (bl_sumsq bl row))) row"

definition euclid_rounded :: "blas \<Rightarrow> real \<Rightarrow> vec \<Rightarrow> vec \<Rightarrow> bool" where
  "euclid_rounded bl e v row \<longleftrightarrow>
     (let l = bl_sumsq bl row; d = bl_dot bl row v; t = bl_twice bl d
      in rounded e l (dotR row row) \<and> rounded e d (dotR row v) \<and> rounded e t (2 * val d) \<and>
         rounded e (bl_sub bl l t) (val l - val t))"

definition angular_rounded :: "blas \<Rightarrow> real \<Rightarrow> vec \<Rightarrow> vec \<Rightarrow> bool" where
  "angular_rounded bl e v row \<longleftrightarrow>
     (\<forall>x\<in>set row. rounded e (bl_div bl x (bl_sqrt bl (bl_sumsq bl row))) (val x / sqrt (dotR row row))) \<and>
     rounded e (bl_dot bl (unit_row bl row) v) (dotR (unit_row bl row) v)"

lemma dotR_simps [simp]:
  "dotR [] v = 0" "dotR u [] = 0" "dotR (x # u) (y # v) = val x * val y + dotR u v"
  by (simp_all add: dotR_def)

lemma sqdist_dotR: "length u = length v \<Longrightarrow> sqdist u v = dotR u u - 2 * dotR u v + dotR v v"
  by (induction u v rule: list_induct2) (simp_all add: sqdist_def dotR_def power2_eq_square algebra_simps)

text \<open>Scaling a vector coordinate by coordinate with an error \<open>e\<close> moves its inner product with \<open>v\<close> by at
  most \<open>e\<close> times the sum of the absolute coordinates of \<open>v\<close>.\<close>

lemma dotR_scaled:
  assumes "length u = length v" and "\<forall>x\<in>set u. rounded e (f x) (val x / s)"
  shows "\<bar>dotR (map f u) v - dotR u v / s\<bar> \<le> e * norm1 v"
  using assms
proof (induction u v rule: list_induct2)
  case (Cons x u y v)
  have "\<bar>val (f x) - val x / s\<bar> * \<bar>val y\<bar> \<le> e * \<bar>val y\<bar>"
    using Cons.prems by (intro mult_right_mono) (simp_all add: rounded_def)
  then have "\<bar>val (f x) * val y - val x * val y / s\<bar> \<le> e * \<bar>val y\<bar>"
    by (simp add: algebra_simps flip: abs_mult)
  moreover have "\<bar>dotR (map f u) v - dotR u v / s\<bar> \<le> e * norm1 v"
    using Cons by simp
  ultimately show ?case
    by (simp add: norm1_def add_divide_distrib distrib_left)
qed (simp add: norm1_def)

lemma flt_val: "rounded e x r \<Longrightarrow> rounded e y t \<Longrightarrow> \<not> flt x y \<Longrightarrow> val y \<le> val x"
  by (auto simp: rounded_def val_def of_rat_less_eq not_less)

lemma val_fneg [simp]: "val (fneg x) = - val x"
  by (cases x) (simp_all add: val_def of_rat_minus)

text \<open>What the two kinds of keys say about the rows.\<close>

lemma euclid_key_nearer:
  assumes "euclid_rounded bl e v x" and "euclid_rounded bl e v y" and "length x = length v" and "length y = length v"
    and "\<not> flt (bl_sub bl (bl_sumsq bl y) (bl_twice bl (bl_dot bl y v)))
           (bl_sub bl (bl_sumsq bl x) (bl_twice bl (bl_dot bl x v)))"
  shows "sqdist x v \<le> sqdist y v + 10 * e"
proof -
  have key: "\<bar>val (bl_sub bl (bl_sumsq bl u) (bl_twice bl (bl_dot bl u v))) - (dotR u u - 2 * dotR u v)\<bar> \<le> 5 * e"
    if "euclid_rounded bl e v u" for u
    using that by (auto simp: euclid_rounded_def rounded_def Let_def abs_le_iff)
  have "val (bl_sub bl (bl_sumsq bl x) (bl_twice bl (bl_dot bl x v))) \<le>
      val (bl_sub bl (bl_sumsq bl y) (bl_twice bl (bl_dot bl y v)))"
    using assms(1,2,5) by (intro flt_val) (auto simp: euclid_rounded_def Let_def)
  with key [OF assms(1)] key [OF assms(2)] sqdist_dotR [OF assms(3)] sqdist_dotR [OF assms(4)]
  show ?thesis by linarith
qed

lemma angular_key_nearer:
  assumes "angular_rounded bl e v x" and "angular_rounded bl e v y" and "length x = length v" and "length y = length v"
    and "\<not> flt (fneg (bl_dot bl (unit_row bl y) v)) (fneg (bl_dot bl (unit_row bl x) v))"
  shows "cosim y v \<le> cosim x v + 2 * e * (1 + norm1 v)"
proof -
  have key: "\<bar>val (bl_dot bl (unit_row bl u) v) - cosim u v\<bar> \<le> e + e * norm1 v"
    if "angular_rounded bl e v u" "length u = length v" for u
  proof -
    have "\<bar>dotR (unit_row bl u) v - cosim u v\<bar> \<le> e * norm1 v"
      unfolding unit_row_def cosim_def using that by (intro dotR_scaled) (simp_all add: angular_rounded_def)
    moreover have "\<bar>val (bl_dot bl (unit_row bl u) v) - dotR (unit_row bl u) v\<bar> \<le> e"
      using that by (simp add: angular_rounded_def rounded_def)
    ultimately show ?thesis by linarith
  qed
  have "rounded e (bl_dot bl (unit_row bl u) v) (dotR (unit_row bl u) v)" if "angular_rounded bl e v u" for u
    using that by (simp add: angular_rounded_def)
  then have "rounded e (fneg (bl_dot bl (unit_row bl u) v)) (- dotR (unit_row bl u) v)" if "angular_rounded bl e v u" for u
    using that by (fastforce simp: rounded_def)
  from flt_val [OF this [OF assms(2)] this [OF assms(1)] assms(5)]
  have "val (bl_dot bl (unit_row bl y) v) \<le> val (bl_dot bl (unit_row bl x) v)" by simp
  with key [OF assms(1,3)] key [OF assms(2,4)] show ?thesis by (simp add: algebra_simps)
qed

text \<open>The rows and the query after the conversions to the precision of the object.\<close>

definition typed_rows :: "blas \<Rightarrow> string \<Rightarrow> string \<Rightarrow> vec list \<Rightarrow> vec list" where
  "typed_rows bl m p X =
     (let X1 = map (map (bl_astype bl p)) X in if m = ''hamming'' then map (map (bl_astype bl ''float32'')) X1 else X1)"

definition typed_query :: "blas \<Rightarrow> string \<Rightarrow> string \<Rightarrow> vec \<Rightarrow> vec" where
  "typed_query bl m p v =
     map (\<lambda>x. bl_astype bl (if m = ''hamming'' then ''float32'' else p) (bl_astype bl p x)) v"

lemma fit_new:
  assumes "BruteForceBLAS_init m p = Inr bf0" and "m \<in> {''angular'', ''euclidean'', ''hamming''}"
    and "rows = typed_rows bl m p X"
  shows "BruteForceBLAS_fit bl X bf0 = Inr (bf0\<lparr>bf_index := (if m = ''angular'' then map (unit_row bl) rows else rows),
      bf_lengths := (if m = ''angular'' then [] else map (bl_sumsq bl) rows)\<rparr>)"
    and "bf_metric bf0 = m" and "bf_precision bf0 = p"
proof -
  from assms(1,2) have bf0: "bf0 = \<lparr>bf_metric = m, bf_precision = p, bf_index = [], bf_lengths = []\<rparr>"
    by (simp add: BruteForceBLAS_init_def split: if_splits)
  show "bf_metric bf0 = m" "bf_precision bf0 = p" by (simp_all add: bf0)
  from assms(2) consider "m = ''angular''" | "m = ''euclidean''" | "m = ''hamming''" by blast
  then show "BruteForceBLAS_fit bl X bf0 = Inr (bf0\<lparr>bf_index := (if m = ''angular'' then map (unit_row bl) rows else rows),
      bf_lengths := (if m = ''angular'' then [] else map (bl_sumsq bl) rows)\<rparr>)"
    by cases (simp_all add: bf0 assms(3) BruteForceBLAS_fit_def typed_rows_def Let_def unit_row_def)
qed

text \<open>C10: brute force finds the nearest rows. A new object for one of the three metrics that keep every
  candidate (\<open>precision\<close> must be \<open>bool\<close> for hamming), fitted with the rows of \<open>X\<close> and asked for \<open>n\<close>
  neighbours of \<open>v0\<close>, answers with \<open>n\<close> distinct rows and their distances, and a row that is left out is not
  nearer than a row returned: its squared Euclidean distance to the query (for bits, the
  number of differing bits) is not smaller, and its cosine similarity (times the length of the query)
  not larger, up to the rounding errors of the keys: 10 e and 2 e (1 + the sum of the absolute
  coordinates of the query) when every arithmetic operation of the query has an error of at most \<open>e\<close>, so
  exactly when the arithmetic is exact (\<open>e = 0\<close>). Asked for as many neighbours as there are rows, or
  more, it raises ValueError.\<close>

theorem query_with_distances_nearest:
  assumes "lawful_argpartition bl" and "bl_neg bl = fneg"
    and "m \<in> {''angular'', ''euclidean'', ''hamming''}" and "m = ''hamming'' \<longrightarrow> p = ''bool''"
    and "rows = typed_rows bl m p X" and "v = typed_query bl m p v0"
    and "\<forall>row\<in>set rows. length row = length v \<and>
           (if m = ''angular'' then angular_rounded bl e v row else euclid_rounded bl e v row)"
    and "0 \<le> n"
  shows "\<exists>bf0 bf. BruteForceBLAS_init m p = Inr bf0 \<and> BruteForceBLAS_fit bl X bf0 = Inr bf \<and>
    (if n < int (length X) then
      (\<exists>ids. query_with_distances bl sp bf v0 n =
          Inr (map (\<lambda>i. (i, sp (if m = ''angular'' then ''cosine'' else m) (bf_index bf ! i) v)) ids) \<and>
        distinct ids \<and> length ids = nat n \<and> set ids \<subseteq> {..<length X} \<and>
        (\<forall>i\<in>set ids. \<forall>j<length X. j \<notin> set ids \<longrightarrow>
          (if m = ''angular'' then cosim (rows ! j) v \<le> cosim (rows ! i) v + 2 * e * (1 + norm1 v)
           else sqdist (rows ! i) v \<le> sqdist (rows ! j) v + 10 * e)))
     else query_with_distances bl sp bf v0 n = Inl ValueError)"
proof -
  have "\<exists>bf0. BruteForceBLAS_init m p = Inr bf0"
    using assms(3,4) by (auto simp: BruteForceBLAS_init_def)
  then obtain bf0 where bf0: "BruteForceBLAS_init m p = Inr bf0" by blast
  define bf where "bf = bf0\<lparr>bf_index := (if m = ''angular'' then map (unit_row bl) rows else rows),
      bf_lengths := (if m = ''angular'' then [] else map (bl_sumsq bl) rows)\<rparr>"
  note fit = fit_new [OF bf0 assms(3,5)]
  have bf: "bf_metric bf = m" "length (bf_index bf) = length X" "length rows = length X"
    using fit(2) by (simp_all add: bf_def assms(5) typed_rows_def Let_def)
  have v: "v = query_vector bl bf v0"
    using assms(3) fit(2,3) by (auto simp: assms(6) query_vector_def typed_query_def bf_def)
  have len: "m = ''angular'' \<or> length (bf_lengths bf) = length X"
    using bf(3) by (simp add: bf_def)
  have sel: "if n < int (length X) then
      (\<exists>ids ds. query_with_distances bl sp bf v0 n =
          Inr (map (\<lambda>i. (i, projr (metric_distance sp m (bf_index bf ! i) v))) ids) \<and>
        bf_dists bl sp bf v = Inr ds \<and> length ds = length X \<and>
        distinct ids \<and> length ids = nat n \<and> set ids \<subseteq> {..<length X} \<and>
        (\<forall>i\<in>set ids. \<forall>j<length X. j \<notin> set ids \<longrightarrow> \<not> flt (ds ! j) (ds ! i)))
    else query_with_distances bl sp bf v0 n = Inl ValueError"
    by (rule query_selects [of bl bf v v0 n sp, unfolded bf(1,2), OF assms(1,3) len v assms(8)])
  have dist: "projr (metric_distance sp m u v) = sp (if m = ''angular'' then ''cosine'' else m) u v" for u
    using assms(3) by (auto simp: metric_distance_def pdist_def)
  have near: "if m = ''angular'' then cosim (rows ! j) v \<le> cosim (rows ! i) v + 2 * e * (1 + norm1 v)
           else sqdist (rows ! i) v \<le> sqdist (rows ! j) v + 10 * e"
    if "bf_dists bl sp bf v = Inr ds" "i < length X" "j < length X" "\<not> flt (ds ! j) (ds ! i)" for ds i j
  proof (cases "m = ''angular''")
    case True
    with that bf fit(2) have "ds ! k = fneg (bl_dot bl (unit_row bl (rows ! k)) v)" if "k < length X" for k
      using that assms(2) by (auto simp: bf_dists_def bf_def)
    with True that(2-4) assms(7) bf(3) angular_key_nearer [of bl e v "rows ! i" "rows ! j"] show ?thesis
      by simp
  next
    case False
    with that bf fit(2) assms(3) have
      "ds ! k = bl_sub bl (bl_sumsq bl (rows ! k)) (bl_twice bl (bl_dot bl (rows ! k) v))" if "k < length X" for k
      using that by (auto simp: bf_dists_def bf_def)
    with False that(2-4) assms(7) bf(3) euclid_key_nearer [of bl e v "rows ! i" "rows ! j"] show ?thesis
      by simp
  qed
  have "if n < int (length X) then
      (\<exists>ids. query_with_distances bl sp bf v0 n =
          Inr (map (\<lambda>i. (i, sp (if m = ''angular'' then ''cosine'' else m) (bf_index bf ! i) v)) ids) \<and>
        distinct ids \<and> length ids = nat n \<and> set ids \<subseteq> {..<length X} \<and>
        (\<forall>i\<in>set ids. \<forall>j<length X. j \<notin> set ids \<longrightarrow>
          (if m = ''angular'' then cosim (rows ! j) v \<le> cosim (rows ! i) v + 2 * e * (1 + norm1 v)
           else sqdist (rows ! i) v \<le> sqdist (rows ! j) v + 10 * e)))
     else query_with_distances bl sp bf v0 n = Inl ValueError"
  proof (cases "n < int (length X)")
    case True
    with sel obtain ids ds where ids: "query_with_distances bl sp bf v0 n =
          Inr (map (\<lambda>i. (i, projr (metric_distance sp m (bf_index bf ! i) v))) ids)"
      "bf_dists bl sp bf v = Inr ds" "distinct ids" "length ids = nat n" "set ids \<subseteq> {..<length X}"
      "\<forall>i\<in>set ids. \<forall>j<length X. j \<notin> set ids \<longrightarrow> \<not> flt (ds ! j) (ds ! i)" by auto
    from ids(5,6) near [OF ids(2)] have
      "\<forall>i\<in>set ids. \<forall>j<length X. j \<notin> set ids \<longrightarrow>
          (if m = ''angular'' then cosim (rows ! j) v \<le> cosim (rows ! i) v + 2 * e * (1 + norm1 v)
           else sqdist (rows ! i) v \<le> sqdist (rows ! j) v + 10 * e)" by blast
    with True ids(1,3-5) show ?thesis unfolding dist by auto
  next
    case False
    with sel show ?thesis by simp
  qed
  with bf0 fit(1) show ?thesis unfolding bf_def by blast
qed

text \<open>An instance: partitioning by a full stable sort.\<close>

definition sort_argpartition :: "pyfloat list \<Rightarrow> int \<Rightarrow> nat list result" where
  "sort_argpartition ds n =
     (if - int (length ds) \<le> n \<and> n < int (length ds) then Inr (argsort ds) else Inl ValueError)"

definition blas64 :: blas where
  "blas64 = \<lparr>bl_astype = (\<lambda>_ x. x), bl_sumsq = (\<lambda>v. foldl fadd (FFin 0) (map (\<lambda>x. fmul x x) v)),
     bl_sqrt = (\<lambda>x. x), bl_div = ieee_div,
     bl_dot = (\<lambda>u v. foldl fadd (FFin 0) (map2 fmul u v)), bl_neg = fneg,
     bl_sub = (\<lambda>x y. fadd x (fneg y)), bl_twice = fmul (FFin 2), bl_argpartition = sort_argpartition\<rparr>"

lemma lawful_blas64: "lawful_argpartition blas64"
  using argsort_splits by (auto simp: lawful_argpartition_def blas64_def sort_argpartition_def)

lemma blas64_astype [simp]: "bl_astype blas64 t x = x"
  by (simp add: blas64_def)

lemma blas64_neg: "bl_neg blas64 = fneg"
  by (simp add: blas64_def)

lemma blas64_exact:
  "euclid_rounded blas64 0 [FFin 1] [FFin 3]" "euclid_rounded blas64 0 [FFin 1] [FFin 1]"
proof -
  have "bl_sumsq blas64 [FFin 3] = FFin 9" "bl_sumsq blas64 [FFin 1] = FFin 1"
    "bl_dot blas64 [FFin 3] [FFin 1] = FFin 3" "bl_dot blas64 [FFin 1] [FFin 1] = FFin 1"
    "bl_twice blas64 (FFin 3) = FFin 6" "bl_twice blas64 (FFin 1) = FFin 2"
    "bl_sub blas64 (FFin 9) (FFin 6) = FFin 3" "bl_sub blas64 (FFin 1) (FFin 2) = FFin (- 1)"
    by code_simp+
  then show "euclid_rounded blas64 0 [FFin 1] [FFin 3]" "euclid_rounded blas64 0 [FFin 1] [FFin 1]"
    by (simp_all add: euclid_rounded_def rounded_def val_def of_rat_minus)
qed

theorem query_with_distances_nearest_witness:
  "\<exists>bf0 bf. BruteForceBLAS_init ''euclidean'' ''float32'' = Inr bf0 \<and>
    BruteForceBLAS_fit blas64 [[FFin 3], [FFin 1]] bf0 = Inr bf \<and>
    (\<exists>ids. query_with_distances blas64 (\<lambda>_ _ _. FFin 0) bf [FFin 1] 1 = Inr (map (\<lambda>i. (i, FFin 0)) ids) \<and>
      length ids = 1 \<and> set ids \<subseteq> {..<2} \<and>
      (\<forall>i\<in>set ids. \<forall>j<2. j \<notin> set ids \<longrightarrow>
        sqdist ([[FFin 3], [FFin 1]] ! i) [FFin 1] \<le> sqdist ([[FFin 3], [FFin 1]] ! j) [FFin 1]))"
  using query_with_distances_nearest [of blas64 "''euclidean''" "''float32''" "[[FFin 3], [FFin 1]]"
      "[[FFin 3], [FFin 1]]" "[FFin 1]" "[FFin 1]" 0 1 "\<lambda>_ _ _. FFin 0"]
  by (auto simp: lawful_blas64 blas64_exact typed_rows_def typed_query_def numeral_2_eq_2 blas64_neg)

end
