(* ===== verification/Nni_Runner.thy ===== *)
theory Nni_Runner
  imports Nni_Model
begin

text \<open>
  The measurements of the tuner: recall and throughput (\<open>Tools/nni-auto-tune/main.py\<close>, lines 21 to 65)
  and one timed pass over the queries (\<open>runner.py\<close>). numpy's mean, standard deviation and scalar
  addition are the argument \<open>st\<close>; the wall clock and the resident set size, which every call reads
  anew, are functions of the number of readings so far (the argument \<open>pr\<close> and the counter \<open>n\<close>).
\<close>

section \<open>Recall\<close>

record np_stats =
  st_mean :: "pyfloat list \<Rightarrow> pyfloat"
  st_std :: "pyfloat list \<Rightarrow> pyfloat"
  st_add :: "pyfloat \<Rightarrow> pyfloat \<Rightarrow> pyfloat"

definition knn_threshold :: "np_stats \<Rightarrow> pyfloat list \<Rightarrow> int \<Rightarrow> pyfloat \<Rightarrow> pyfloat result" where
  "knn_threshold st data k epsilon = bindE (py_get data (k - 1)) (\<lambda>d. Inr (st_add st d epsilon))"

definition float_1e3 :: pyfloat where
  "float_1e3 = fl64 (1 / 1000)"

definition recall_summary :: "np_stats \<Rightarrow> nat list \<Rightarrow> int \<Rightarrow> (pyfloat \<times> pyfloat \<times> pyfloat list) result" where
  "recall_summary st counts k =
     bindE (float_of_int k) (\<lambda>fk.
       let recalls = map (\<lambda>c. fl64 (of_nat c)) counts
       in Inr (ieee_div (st_mean st recalls) fk, ieee_div (st_std st recalls) fk, recalls))"

definition get_recall_from_distance ::
  "np_stats \<Rightarrow> pyfloat list list \<Rightarrow> pyfloat list list \<Rightarrow> int \<Rightarrow> pyfloat \<Rightarrow>
     (pyfloat \<times> pyfloat \<times> pyfloat list) result" where
  "get_recall_from_distance st dataset_distances run_distances k epsilon =
     bindE (mapE (\<lambda>i.
         bindE (py_get dataset_distances (int i)) (\<lambda>row.
         bindE (knn_threshold st row k epsilon) (\<lambda>t.
           Inr (length (filter (\<lambda>d. fle d t) (py_prefix (run_distances ! i) k))))))
       [0..<length run_distances]) (\<lambda>counts. recall_summary st counts k)"

text \<open>The groundtruth rows hold words of a label file, or the distances of an HDF5 file; a string is
  never equal to a number.\<close>

datatype label_rows = Dist_Rows "pyfloat list list" | Name_Rows "string list list"

definition label_has :: "label_rows \<Rightarrow> nat \<Rightarrow> int \<Rightarrow> string \<Rightarrow> bool result" where
  "label_has lb i k w =
     (case lb of
        Dist_Rows rows \<Rightarrow> bindE (py_get rows (int i)) (\<lambda>row. Inr False)
      | Name_Rows rows \<Rightarrow> bindE (py_get rows (int i)) (\<lambda>row. Inr (w \<in> set (py_prefix row k))))"

definition get_recall_from_index ::
  "np_stats \<Rightarrow> label_rows \<Rightarrow> int list list \<Rightarrow> int \<Rightarrow> (pyfloat \<times> pyfloat \<times> pyfloat list) result" where
  "get_recall_from_index st dataset_index run_index k =
     bindE (mapE (\<lambda>i.
         bindE (mapE (\<lambda>d. label_has dataset_index i k (str_int d)) (py_prefix (run_index ! i) k)) (\<lambda>hits.
           Inr (length (filter id hits))))
       [0..<length run_index]) (\<lambda>counts. recall_summary st counts k)"

record run_attrs =
  ra_best_search_time :: pyfloat
  ra_candidates :: pyfloat
  ra_name :: string
  ra_run_count :: int
  ra_distance :: string
  ra_count :: int

definition queries_per_second :: "run_attrs \<Rightarrow> pyfloat result" where
  "queries_per_second attrs = fdiv (FFin 1) (ra_best_search_time attrs)"

definition distance_rows :: "label_rows \<Rightarrow> pyfloat list list result" where
  "distance_rows lb = (case lb of Dist_Rows rows \<Rightarrow> Inr rows | Name_Rows _ \<Rightarrow> Inl TypeError)"

datatype run_rows = Run_Distances "pyfloat list list" | Run_Index "int list list"

definition compute_metrics ::
  "np_stats \<Rightarrow> label_rows \<Rightarrow> run_attrs \<Rightarrow> run_rows \<Rightarrow> int \<Rightarrow> (pyfloat \<times> pyfloat) result" where
  "compute_metrics st groundtruth attrs results k =
     bindE (case results of
              Run_Index idx \<Rightarrow> get_recall_from_index st groundtruth idx k
            | Run_Distances ds \<Rightarrow>
                bindE (distance_rows groundtruth) (\<lambda>rows. get_recall_from_distance st rows ds k float_1e3))
       (\<lambda>(mean, std, recalls). bindE (queries_per_second attrs) (\<lambda>qps. Inr (mean, qps)))"

section \<open>One run over the queries\<close>

record process =
  pr_clock :: "nat \<Rightarrow> pyfloat"
  pr_rss :: "nat \<Rightarrow> int"
  pr_search :: "sptag_call list \<Rightarrow> vec \<Rightarrow> int \<Rightarrow> int list"
  pr_pdist :: "string \<Rightarrow> vec \<Rightarrow> vec \<Rightarrow> pyfloat"

definition single_query ::
  "process \<Rightarrow> sptag \<Rightarrow> vec list \<Rightarrow> string \<Rightarrow> int \<Rightarrow> int \<Rightarrow> vec \<Rightarrow> nat \<Rightarrow>
     (pyfloat \<times> (int \<times> pyfloat) list) result" where
  "single_query pr algo X_train distance k max_mem v n =
     (let start = pr_clock pr n
      in bindE (Sptag_query (pr_search pr) v k algo) (\<lambda>candidates.
           if 0 < max_mem \<and> max_mem < pr_rss pr n then Inl MemoryErr
           else
             let total = fadd (pr_clock pr (Suc n)) (fneg start)
             in bindE (mapE (\<lambda>idx. bindE (py_get X_train idx) (\<lambda>row.
                    bindE (metric_distance (pr_pdist pr) distance v row) (\<lambda>d. Inr (idx, d)))) candidates)
                  (\<lambda>cs. Inr (total, cs))))"

text \<open>Every query reads the clock twice.\<close>

fun run_queries ::
  "process \<Rightarrow> sptag \<Rightarrow> vec list \<Rightarrow> string \<Rightarrow> int \<Rightarrow> int \<Rightarrow> vec list \<Rightarrow> nat \<Rightarrow>
     (pyfloat \<times> (int \<times> pyfloat) list) list result" where
  "run_queries pr algo X_train distance k max_mem [] n = Inr []"
| "run_queries pr algo X_train distance k max_mem (x # xs) n =
     bindE (single_query pr algo X_train distance k max_mem x n) (\<lambda>r.
     bindE (run_queries pr algo X_train distance k max_mem xs (n + 2)) (\<lambda>rs. Inr (r # rs)))"

definition fmin2 :: "pyfloat \<Rightarrow> pyfloat \<Rightarrow> pyfloat" where
  "fmin2 a b = (if flt b a then b else a)"

definition run_times :: "(pyfloat \<times> (int \<times> pyfloat) list) list \<Rightarrow> nat \<Rightarrow> (pyfloat \<times> pyfloat) result" where
  "run_times results queries =
     (if queries = 0 then Inl ZeroDivisionError
      else
        let total_time = foldl fadd (FFin 0) (map fst results);
            total_candidates = sum_list (map (\<lambda>r. length (snd r)) results)
        in bindE (float_of_int (int queries)) (\<lambda>q.
           bindE (fdiv total_time q) (\<lambda>search_time.
           bindE (int_truediv (int total_candidates) (int queries)) (\<lambda>avg. Inr (search_time, avg)))))"

text \<open>The loop over the runs: what it carries to the next round and, once a round is done, the last
  average and the last results.\<close>

fun run_rounds ::
  "process \<Rightarrow> sptag \<Rightarrow> vec list \<Rightarrow> vec list \<Rightarrow> string \<Rightarrow> int \<Rightarrow> int \<Rightarrow> nat \<Rightarrow> nat \<Rightarrow> pyfloat \<Rightarrow>
     (pyfloat \<times> (int \<times> pyfloat) list) list option \<times> pyfloat \<Rightarrow>
     (pyfloat \<times> (pyfloat \<times> (int \<times> pyfloat) list) list option \<times> pyfloat) result" where
  "run_rounds pr algo X_train X_test distance k max_mem 0 n best acc = Inr (best, acc)"
| "run_rounds pr algo X_train X_test distance k max_mem (Suc c) n best acc =
     bindE (run_queries pr algo X_train distance k max_mem X_test n) (\<lambda>results.
     bindE (run_times results (length X_test)) (\<lambda>(search_time, avg).
       run_rounds pr algo X_train X_test distance k max_mem c (n + 2 * length X_test)
         (fmin2 best search_time) (Some results, avg)))"

definition run_individual_query ::
  "process \<Rightarrow> sptag \<Rightarrow> vec list \<Rightarrow> vec list \<Rightarrow> string \<Rightarrow> int \<Rightarrow> int \<Rightarrow> int \<Rightarrow> nat \<Rightarrow>
     (run_attrs \<times> (pyfloat \<times> (int \<times> pyfloat) list) list) result" where
  "run_individual_query pr algo X_train X_test distance k run_count max_mem n =
     bindE (run_rounds pr algo X_train X_test distance k max_mem (nat run_count) n FInf (None, FNan))
       (\<lambda>(best, results, avg).
         case results of None \<Rightarrow> Inl UnboundLocalError
         | Some rs \<Rightarrow>
             Inr (\<lparr>ra_best_search_time = best, ra_candidates = avg, ra_name = ''BKT'',
                   ra_run_count = run_count, ra_distance = distance, ra_count = k\<rparr>, rs))"

section \<open>Properties\<close>

text \<open>numpy documents the mean as the sum of the elements divided by their number, in double precision
  here. The recalls are whole numbers: as long as their sum is at most 2^53 every partial sum is exact,
  in whatever order numpy adds, so that only the division rounds.\<close>

definition lawful_mean :: "np_stats \<Rightarrow> bool" where
  "lawful_mean st \<longleftrightarrow>
     (\<forall>counts :: nat list. counts \<noteq> [] \<longrightarrow> length counts \<le> 2 ^ 53 \<longrightarrow> sum_list counts \<le> 2 ^ 53 \<longrightarrow>
        st_mean st (map (\<lambda>c. FFin (of_nat c)) counts) = fl64 (of_nat (sum_list counts) / of_nat (length counts)))"

lemma fl64_nat: "c \<le> 2 ^ 53 \<Longrightarrow> fl64 (of_nat c) = FFin (of_nat c)"
  using fl64_of_int [of "int c"] by simp

lemma ieee_div_between:
  assumes "0 \<le> x" and "x \<le> of_int k" and "0 < k"
  shows "\<exists>r. ieee_div (FFin x) (FFin (of_int k)) = FFin r \<and> 0 \<le> r \<and> r \<le> 1"
proof -
  have "\<exists>r. fdiv (FFin x) (FFin (of_int k)) = Inr (FFin r) \<and> of_int 0 \<le> r \<and> r \<le> of_int 1"
    using assms by (intro fdiv_between) simp_all
  then show ?thesis using assms by auto
qed

lemma sum_list_le: "\<forall>c\<in>set cs. c \<le> (k :: nat) \<Longrightarrow> sum_list cs \<le> length cs * k"
  by (induction cs) auto

lemma recall_summary_value:
  assumes "lawful_mean st" and "0 < k" and "counts \<noteq> []" and "length counts * k \<le> 2 ^ 53"
    and "\<forall>c\<in>set counts. c \<le> k"
  shows "\<exists>m. recall_summary st counts (int k) = Inr (FFin m,
      ieee_div (st_std st (map (\<lambda>c. FFin (of_nat c)) counts)) (FFin (of_nat k)), map (\<lambda>c. FFin (of_nat c)) counts) \<and>
    ieee_div (fl64 (of_nat (sum_list counts) / of_nat (length counts))) (FFin (of_nat k)) = FFin m \<and> 0 \<le> m \<and> m \<le> 1"
proof -
  have len: "0 < length counts" using assms(3) by simp
  then have "k \<le> length counts * k" "length counts \<le> length counts * k" using assms(2) by (simp_all add: Suc_le_eq)
  then have k: "k \<le> 2 ^ 53" "length counts \<le> 2 ^ 53" using assms(4) by linarith+
  then have fk: "float_of_int (int k) = Inr (FFin (of_nat k))"
    by (subst float_of_int_exact) simp_all
  have fl: "map (\<lambda>c. fl64 (of_nat c)) counts = map (\<lambda>c. FFin (of_nat c)) counts"
    using assms(5) k(1) by (intro map_cong refl fl64_nat) force
  have sum: "sum_list counts \<le> length counts * k" using assms(5) by (rule sum_list_le)
  then have mean: "st_mean st (map (\<lambda>c. FFin (of_nat c)) counts) = fl64 (of_nat (sum_list counts) / of_nat (length counts))"
    using assms(1,3,4) k(2) by (simp add: lawful_mean_def)
  have "of_nat (sum_list counts) \<le> (of_nat (length counts * k) :: rat)" using sum by (simp only: of_nat_le_iff)
  then have "of_nat (sum_list counts) / of_nat (length counts) \<le> (of_int (int k) :: rat)"
    using len by (simp add: pos_divide_le_eq mult.commute)
  then obtain r where r: "fl64 (of_nat (sum_list counts) / of_nat (length counts)) = FFin r" "0 \<le> r" "r \<le> of_int (int k)"
    using fl64_between [of 0 "of_nat (sum_list counts) / of_nat (length counts)" "int k"] k(1) by auto
  from ieee_div_between [OF r(2,3)] assms(2) obtain m where
    "ieee_div (FFin r) (FFin (of_nat k)) = FFin m" "0 \<le> m" "m \<le> 1" by auto
  with r(1) mean show ?thesis
    unfolding recall_summary_def fk fl Let_def bindE_Inr by (simp del: ieee_div.simps)
qed

text \<open>C12: recall by distances. With a groundtruth row of at least \<open>k\<close> distances for each of the (at least
  one) queries, the count of query \<open>i\<close> is the number of its first \<open>k\<close> distances that are at most the
  \<open>k\<close>-th groundtruth distance plus epsilon, at most \<open>k\<close>; the mean recall is the sum of the counts divided by
  the number of queries and by \<open>k\<close>, each division rounded once, a finite number from 0 to 1, and the
  deviation is that of the counts divided by \<open>k\<close>. The number of queries times \<open>k\<close> is at most 2^53.\<close>

theorem recall_from_distance_value:
  assumes "lawful_mean st" and "0 < k" and "length run * k \<le> 2 ^ 53" and "run \<noteq> []" and "length run \<le> length gt"
    and "\<forall>row\<in>set gt. k \<le> length row"
    and "counts = map (\<lambda>i. card {j. j < min k (length (run ! i)) \<and>
      fle (run ! i ! j) (st_add st (gt ! i ! (k - 1)) eps)}) [0..<length run]"
  shows "\<exists>m. get_recall_from_distance st gt run (int k) eps = Inr (FFin m,
      ieee_div (st_std st (map (\<lambda>c. FFin (of_nat c)) counts)) (FFin (of_nat k)), map (\<lambda>c. FFin (of_nat c)) counts) \<and>
    ieee_div (fl64 (of_nat (sum_list counts) / of_nat (length run))) (FFin (of_nat k)) = FFin m \<and>
    0 \<le> m \<and> m \<le> 1 \<and> (\<forall>c\<in>set counts. c \<le> k)"
proof -
  define cnt where "cnt i = length (filter (\<lambda>d. fle d (st_add st (gt ! i ! (k - 1)) eps)) (take k (run ! i)))" for i
  have k: "int k - 1 = int (k - 1)" "k - 1 < k" using assms(2) by auto
  have row: "py_get gt (int i) = Inr (gt ! i) \<and> py_get (gt ! i) (int k - 1) = Inr (gt ! i ! (k - 1))"
    if "i < length run" for i
  proof -
    from that assms(5) have "gt ! i \<in> set gt" "i < length gt" by auto
    moreover from this assms(6) k(2) have "k - 1 < length (gt ! i)"
      by (blast intro: less_le_trans)
    ultimately show ?thesis unfolding k(1) by (simp only: py_get_nat if_True simp_thms)
  qed
  have "cnt i = card {j. j < min k (length (run ! i)) \<and> fle (run ! i ! j) (st_add st (gt ! i ! (k - 1)) eps)}" for i
    unfolding cnt_def by (subst length_filter_conv_card) (auto intro!: arg_cong [where f = card] simp: min.commute)
  then have counts: "counts = map cnt [0..<length run]" using assms(7) by simp
  have "cnt i \<le> k" for i
    unfolding cnt_def by (rule order_trans [OF length_filter_le]) simp
  then have le: "\<forall>c\<in>set counts. c \<le> k" by (auto simp: counts)
  have "mapE (\<lambda>i. bindE (py_get gt (int i)) (\<lambda>row. bindE (knn_threshold st row (int k) eps) (\<lambda>t.
      Inr (length (filter (\<lambda>d. fle d t) (py_prefix (run ! i) (int k))))))) [0..<length run] = Inr counts"
    unfolding counts by (intro mapE_total) (simp add: row py_prefix_nat knn_threshold_def cnt_def del: py_get_nat)
  then have "get_recall_from_distance st gt run (int k) eps = recall_summary st counts (int k)"
    by (simp add: get_recall_from_distance_def)
  with recall_summary_value [OF assms(1,2) _ _ le] assms(3,4) le show ?thesis by (simp add: counts)
qed

text \<open>An instance: the exact mean, rounded once.\<close>

definition mean64 :: np_stats where
  "mean64 = \<lparr>st_mean = (\<lambda>xs. if xs \<noteq> [] \<and> (\<forall>x\<in>set xs. is_fin x)
       then fl64 (sum_list (map fin_val xs) / of_nat (length xs)) else FNan), st_std = (\<lambda>_. FNan), st_add = fadd\<rparr>"

lemma lawful_mean64: "lawful_mean mean64"
proof -
  have "sum_list (map (fin_val \<circ> (\<lambda>c. FFin (of_nat c))) counts) = of_nat (sum_list counts)" for counts :: "nat list"
    by (induction counts) simp_all
  then show ?thesis by (simp add: lawful_mean_def mean64_def is_fin_def)
qed

theorem recall_from_distance_value_witness:
  "\<exists>m s. get_recall_from_distance mean64 [[FFin 1]] [[FFin 1]] 1 (FFin 0) = Inr (FFin m, s, [FFin 1]) \<and>
    ieee_div (fl64 1) (FFin 1) = FFin m \<and> 0 \<le> m \<and> m \<le> 1"
proof -
  have le: "fle (FFin 1) (st_add mean64 (FFin 1) (FFin 0))" by (simp add: mean64_def)
  have "{j. j = 0} = {0 :: nat}" by auto
  with le show ?thesis
    using recall_from_distance_value [of mean64 1 "[[FFin 1]]" "[[FFin 1]]" "[1]" "FFin 0", OF lawful_mean64]
    by (auto simp del: ieee_div.simps cong: conj_cong)
qed

section \<open>What a run returns\<close>

abbreviation hits_of :: "process \<Rightarrow> sptag \<Rightarrow> vec list \<Rightarrow> string \<Rightarrow> int \<Rightarrow> vec \<Rightarrow> (int \<times> pyfloat) list" where
  "hits_of pr algo X_train distance k v \<equiv>
     map (\<lambda>i. (i, projr (metric_distance (pr_pdist pr) distance v (if i = - 1 then last X_train else X_train ! nat i))))
       (pr_search pr (sp_calls algo) v k)"

text \<open>The two metrics an index can have.\<close>

abbreviation index_metric :: "string \<Rightarrow> bool" where
  "index_metric d \<equiv> d \<in> {''angular'', ''euclidean''}"

lemma single_query_hits:
  assumes "sp_index algo" and "index_metric distance" and "max_mem \<le> 0" and "X_train \<noteq> []"
    and "set (pr_search pr (sp_calls algo) v k) \<subseteq> {- 1..<int (length X_train)}"
  shows "\<exists>t. single_query pr algo X_train distance k max_mem v n = Inr (t, hits_of pr algo X_train distance k v)"
proof -
  have "mapE (\<lambda>idx. bindE (py_get X_train idx) (\<lambda>row.
      bindE (metric_distance (pr_pdist pr) distance v row) (\<lambda>d. Inr (idx, d)))) (pr_search pr (sp_calls algo) v k)
    = Inr (hits_of pr algo X_train distance k v)"
  proof (rule mapE_total)
    fix idx assume "idx \<in> set (pr_search pr (sp_calls algo) v k)"
    with assms(5) have "- 1 \<le> idx" "idx < int (length X_train)" by auto
    then have "py_get X_train idx = Inr (if idx = - 1 then last X_train else X_train ! nat idx)"
      using assms(4) by (auto simp: py_get_def py_index_def last_conv_nth nat_diff_distrib Suc_le_eq)
    with assms(2) show "bindE (py_get X_train idx) (\<lambda>row.
      bindE (metric_distance (pr_pdist pr) distance v row) (\<lambda>d. Inr (idx, d))) =
      Inr (idx, projr (metric_distance (pr_pdist pr) distance v (if idx = - 1 then last X_train else X_train ! nat idx)))"
      by (auto simp: metric_distance_def)
  qed
  with assms(1,3) show ?thesis
    by (simp add: single_query_def Sptag_query_def)
qed

lemma run_queries_hits:
  assumes "sp_index algo" and "index_metric distance" and "max_mem \<le> 0" and "X_train \<noteq> []"
    and "\<forall>v\<in>set vs. set (pr_search pr (sp_calls algo) v k) \<subseteq> {- 1..<int (length X_train)}"
  shows "\<exists>rs. run_queries pr algo X_train distance k max_mem vs n = Inr rs \<and>
    map snd rs = map (hits_of pr algo X_train distance k) vs"
  using assms(5)
proof (induction vs arbitrary: n)
  case (Cons v vs)
  from single_query_hits [OF assms(1-4), of pr v k n] Cons.prems
  obtain t where "single_query pr algo X_train distance k max_mem v n = Inr (t, hits_of pr algo X_train distance k v)"
    by auto
  moreover have "\<forall>v\<in>set vs. set (pr_search pr (sp_calls algo) v k) \<subseteq> {- 1..<int (length X_train)}"
    using Cons.prems by simp
  from Cons.IH [OF this] obtain rs where "run_queries pr algo X_train distance k max_mem vs (n + 2) = Inr rs"
    "map snd rs = map (hits_of pr algo X_train distance k) vs" by blast
  ultimately show ?case by simp
qed simp

lemma run_times_ok:
  assumes "length results = queries" and "0 < queries" and "queries \<le> 2 ^ 53" and "k \<le> 2 ^ 53"
    and "\<forall>r\<in>set results. length (snd r) \<le> k"
  shows "\<exists>t a. run_times results queries = Inr (t, FFin a) \<and> 0 \<le> a \<and> a \<le> of_nat k"
proof -
  let ?c = "sum_list (map (\<lambda>r. length (snd r)) results)"
  have "?c \<le> length results * k"
    using assms(5) by (induction results) auto
  with assms(1) have c: "of_nat ?c \<le> (of_nat (queries * k) :: rat)" by (simp only: of_nat_le_iff)
  have fq: "float_of_int (int queries) = Inr (FFin (of_nat queries))"
    using assms(3) by (subst float_of_int_exact) simp_all
  have "\<exists>t. fdiv (foldl fadd (FFin 0) (map fst results)) (FFin (of_nat queries)) = Inr t"
    using assms(2) by (cases "foldl fadd (FFin 0) (map fst results)") auto
  moreover have "\<exists>a. int_truediv (int ?c) (int queries) = Inr (FFin a) \<and> of_int 0 \<le> a \<and> a \<le> of_int (int k)"
  proof (rule int_truediv_between)
    show "of_int (int ?c) / of_int (int queries) \<le> (of_int (int k) :: rat)"
      using c assms(2) by (simp add: pos_divide_le_eq mult.commute)
  qed (use assms(2,4) in simp_all)
  ultimately show ?thesis
    using assms(2) by (auto simp: run_times_def Let_def fq)
qed

text \<open>C11: one run of \<open>run_individual_query\<close> over a built index, without a memory limit, returns: one
  entry per query, in order, holding exactly the ids the index answers, each paired with a distance,
  and an average number of candidates of at most \<open>k\<close>. The index answers with at most \<open>k\<close> ids, each a
  row of the (non-empty) training set or -1 for a missing answer. For a row, the distance is that of
  the row to the query; for -1 it is that of the last row of the training set, as Python's negative index
  takes it, so that a missing answer looks like a found one.\<close>

theorem run_individual_query_answers:
  assumes "sp_index algo" and "index_metric distance" and "max_mem \<le> 0" and "X_train \<noteq> []"
    and "\<forall>v\<in>set X_test. set (pr_search pr (sp_calls algo) v (int k)) \<subseteq> {- 1..<int (length X_train)} \<and>
           length (pr_search pr (sp_calls algo) v (int k)) \<le> k"
    and "X_test \<noteq> []" and "length X_test \<le> 2 ^ 53" and "k \<le> 2 ^ 53"
  shows "\<exists>attrs rs a. run_individual_query pr algo X_train X_test distance (int k) 1 max_mem n = Inr (attrs, rs) \<and>
    map snd rs = map (\<lambda>v. map (\<lambda>i. (i, pr_pdist pr (if distance = ''angular'' then ''cosine'' else distance) v
        (if i = - 1 then last X_train else X_train ! nat i)))
      (pr_search pr (sp_calls algo) v (int k))) X_test \<and>
    ra_candidates attrs = FFin a \<and> 0 \<le> a \<and> a \<le> of_nat k \<and> ra_count attrs = int k"
proof -
  have "\<forall>v\<in>set X_test. set (pr_search pr (sp_calls algo) v (int k)) \<subseteq> {- 1..<int (length X_train)}"
    using assms(5) by blast
  from run_queries_hits [OF assms(1-4) this] obtain rs where
    rs: "run_queries pr algo X_train distance (int k) max_mem X_test n = Inr rs"
      "map snd rs = map (hits_of pr algo X_train distance (int k)) X_test" by blast
  have len: "length rs = length X_test" using arg_cong [OF rs(2), of length] by simp
  have "length (snd r) \<le> k" if "r \<in> set rs" for r
  proof -
    from that have "snd r \<in> set (map snd rs)" by simp
    then show ?thesis unfolding rs(2) using assms(5) by auto
  qed
  with len assms(6-8) run_times_ok [of rs "length X_test" k] obtain t a where
    ta: "run_times rs (length X_test) = Inr (t, FFin a)" "0 \<le> a" "a \<le> of_nat k" by auto
  have "hits_of pr algo X_train distance (int k) =
      (\<lambda>v. map (\<lambda>i. (i, pr_pdist pr (if distance = ''angular'' then ''cosine'' else distance) v
        (if i = - 1 then last X_train else X_train ! nat i)))
      (pr_search pr (sp_calls algo) v (int k)))"
    using assms(2) by (auto simp: metric_distance_def pdist_def)
  with rs ta show ?thesis by (simp add: run_individual_query_def)
qed

theorem run_individual_query_answers_witness:
  "\<exists>attrs rs a. run_individual_query
      \<lparr>pr_clock = (\<lambda>n. FFin (of_nat n)), pr_rss = (\<lambda>_. 0), pr_search = (\<lambda>_ _ _. [0, - 1]), pr_pdist = (\<lambda>_ _ _. FFin 0)\<rparr>
      \<lparr>sp_algo = ''BKT'', sp_para = [], sp_metric = ''L2'', sp_data_type = None, sp_s_para = None, sp_index = True, sp_calls = []\<rparr>
      [[FFin 1]] [[FFin 1]] ''euclidean'' 2 1 (- 1) 0 = Inr (attrs, rs) \<and>
    map snd rs = [[(0, FFin 0), (- 1, FFin 0)]] \<and> ra_candidates attrs = FFin a \<and> 0 \<le> a \<and> a \<le> 2 \<and> ra_count attrs = 2"
  using run_individual_query_answers [of
      "\<lparr>sp_algo = ''BKT'', sp_para = [], sp_metric = ''L2'', sp_data_type = None, sp_s_para = None, sp_index = True, sp_calls = []\<rparr>"
      "''euclidean''" "- 1" "[[FFin 1]]" "[[FFin 1]]"
      "\<lparr>pr_clock = (\<lambda>n. FFin (of_nat n)), pr_rss = (\<lambda>_. 0), pr_search = (\<lambda>_ _ _. [0, - 1]), pr_pdist = (\<lambda>_ _ _. FFin 0)\<rparr>"
      2 0]
  by simp

end
