(* ===== verification/Nni_Grid.thy ===== *)
theory Nni_Grid
  imports Py_Prelude "HOL-Library.Multiset"
begin

text \<open>
  \<open>grid_search\<close> of \<open>Tools/nni-auto-tune/main.py\<close>: the generator of search-parameter dictionaries.
  It enumerates the set of all \<open>param_num\<close>-permutations of a list that holds every index
  \<open>param_num\<close> times, and keeps those in range of every parameter's choices. A dictionary is an
  association list in insertion order; the iteration order of Python's \<open>set\<close> is unspecified, so it
  is an argument (\<open>set_order\<close>).
\<close>

section \<open>The generator\<close>

fun permutations :: "'a list \<Rightarrow> nat \<Rightarrow> 'a list list" where
  "permutations xs 0 = [[]]"
| "permutations xs (Suc r) =
     concat (map (\<lambda>j. map ((#) (xs ! j)) (permutations (take j xs @ drop (Suc j) xs) r)) [0..<length xs])"

type_synonym ('k, 'v) params = "('k \<times> 'v list) list"

definition grid_temp :: "nat \<Rightarrow> nat \<Rightarrow> nat list" where
  "grid_temp param_num max_param_choices =
     foldl (\<lambda>temp i. temp @ replicate param_num i) [] [0..<max_param_choices]"

text \<open>The inner loop: it breaks at the first index out of range.\<close>

fun grid_pick :: "('k, 'v) params \<Rightarrow> nat list \<Rightarrow> ('k \<times> 'v) list" where
  "grid_pick ((name, choices) # params) (i # c) =
     (if length choices \<le> i then [] else (name, choices ! i) # grid_pick params c)"
| "grid_pick _ _ = []"

definition grid_search ::
  "(nat list list \<Rightarrow> nat list list) \<Rightarrow> ('k, 'v) params \<Rightarrow> ('k \<times> 'v) list list result" where
  "grid_search set_order params =
     (let param_num = length params
      in if params = [] then Inl ValueError
         else
           let max_param_choices = Max (set (map (\<lambda>p. length (snd p)) params));
               temp = grid_temp param_num max_param_choices
           in Inr (filter (\<lambda>res. length res = param_num)
                (map (grid_pick params) (set_order (permutations temp param_num)))))"

definition lawful_set_order :: "(nat list list \<Rightarrow> nat list list) \<Rightarrow> bool" where
  "lawful_set_order f \<longleftrightarrow> (\<forall>xs. distinct (f xs) \<and> set (f xs) = set xs)"

section \<open>What it yields\<close>

lemma mset_drop_nth:
  "j < length xs \<Longrightarrow> mset (take j xs @ drop (Suc j) xs) = mset xs - {#xs ! j#}"
proof -
  assume j: "j < length xs"
  have "mset xs = mset (take j xs @ xs ! j # drop (Suc j) xs)"
    using j by (simp flip: id_take_nth_drop)
  then show ?thesis by simp
qed

lemma set_permutations: "set (permutations xs r) = {c. length c = r \<and> mset c \<subseteq># mset xs}"
proof (induction r arbitrary: xs)
  case 0
  then show ?case by auto
next
  case (Suc r)
  show ?case
  proof (rule set_eqI)
    fix c
    show "c \<in> set (permutations xs (Suc r)) \<longleftrightarrow> c \<in> {c. length c = Suc r \<and> mset c \<subseteq># mset xs}"
    proof (cases c)
      case (Cons a c')
      have "c \<in> set (permutations xs (Suc r)) \<longleftrightarrow>
          (\<exists>j<length xs. a = xs ! j \<and> length c' = r \<and> mset c' \<subseteq># mset xs - {#xs ! j#})"
        by (auto simp: Cons Suc.IH mset_drop_nth simp del: mset_append)
      also have "\<dots> \<longleftrightarrow> length c' = r \<and> a \<in># mset xs \<and> mset c' \<subseteq># mset xs - {#a#}"
        by (auto simp: in_set_conv_nth)
      finally show ?thesis by (auto simp: Cons insert_subset_eq_iff)
    qed (auto simp: Suc.IH)
  qed
qed

lemma count_grid_temp: "count (mset (grid_temp n m)) i = (if i < m then n else 0)"
  unfolding grid_temp_def by (induction m) (auto simp: foldl_append)

lemma permutations_grid_temp:
  "set (permutations (grid_temp n m) n) = {c. length c = n \<and> set c \<subseteq> {..<m}}"
proof -
  have "mset c \<subseteq># mset (grid_temp n m) \<longleftrightarrow> set c \<subseteq> {..<m}" if "length c = n" for c
  proof
    assume sub: "mset c \<subseteq># mset (grid_temp n m)"
    show "set c \<subseteq> {..<m}"
    proof
      fix i assume "i \<in> set c"
      then have "0 < count (mset c) i" by simp
      also have "\<dots> \<le> count (mset (grid_temp n m)) i" using sub by (rule mset_subset_eq_count)
      finally show "i \<in> {..<m}" by (auto simp: count_grid_temp split: if_splits)
    qed
  next
    assume "set c \<subseteq> {..<m}"
    then have "count (mset c) i \<le> (if i < m then n else 0)" for i
    proof (cases "i < m")
      case True
      have "count_list c i \<le> length c" by (rule count_le_length)
      with True that show ?thesis by (simp add: count_mset)
    next
      case False
      with \<open>set c \<subseteq> {..<m}\<close> have "i \<notin> set c" by auto
      with False show ?thesis by simp
    qed
    then show "mset c \<subseteq># mset (grid_temp n m)"
      by (simp add: subseteq_mset_def count_grid_temp del: count_mset)
  qed
  then show ?thesis by (auto simp: set_permutations)
qed

text \<open>The specification: one value per parameter, in the order of the parameters.\<close>

definition choices_of :: "('k, 'v) params \<Rightarrow> ('k \<times> 'v) list set" where
  "choices_of params =
     {res. list_all2 (\<lambda>p kv. fst kv = fst p \<and> snd kv \<in> set (snd p)) params res}"

lemma length_grid_pick: "length (grid_pick params c) \<le> length params"
  by (induction params c rule: grid_pick.induct) auto

lemma grid_pick_full:
  "length c = length params \<Longrightarrow>
   length (grid_pick params c) = length params \<longleftrightarrow> list_all2 (\<lambda>p i. i < length (snd p)) params c"
proof (induction params c rule: grid_pick.induct)
  case (1 name choices params i c)
  then show ?case using length_grid_pick [of params c] by auto
qed (auto simp: list_all2_iff)

lemma grid_pick_eq:
  "list_all2 (\<lambda>p i. i < length (snd p)) params c \<Longrightarrow>
   grid_pick params c = map2 (\<lambda>p i. (fst p, snd p ! i)) params c"
  by (induction params c rule: list_all2_induct) auto

abbreviation in_range :: "('k, 'v) params \<Rightarrow> nat list \<Rightarrow> bool" where
  "in_range \<equiv> list_all2 (\<lambda>p i. i < length (snd p))"

abbreviation pick_at :: "('k, 'v) params \<Rightarrow> nat list \<Rightarrow> ('k \<times> 'v) list" where
  "pick_at \<equiv> map2 (\<lambda>p i. (fst p, snd p ! i))"

lemma choices_of_iff: "res \<in> choices_of params \<longleftrightarrow> (\<exists>c. in_range params c \<and> res = pick_at params c)"
proof (induction params arbitrary: res)
  case Nil
  then show ?case by (auto simp: choices_of_def)
next
  case (Cons p ps)
  show ?case
  proof
    assume "res \<in> choices_of (p # ps)"
    then obtain kv r where res: "res = kv # r" "fst kv = fst p" "snd kv \<in> set (snd p)" "r \<in> choices_of ps"
      by (auto simp: choices_of_def list_all2_Cons1)
    then obtain i c where "i < length (snd p)" "snd p ! i = snd kv" "in_range ps c" "r = pick_at ps c"
      using Cons.IH by (auto simp: in_set_conv_nth)
    with res show "\<exists>c. in_range (p # ps) c \<and> res = pick_at (p # ps) c"
      by (intro exI [of _ "i # c"]) (simp add: prod_eq_iff)
  next
    assume "\<exists>c. in_range (p # ps) c \<and> res = pick_at (p # ps) c"
    then show "res \<in> choices_of (p # ps)"
      using Cons.IH by (fastforce simp: list_all2_Cons1 choices_of_def)
  qed
qed

lemma grid_indices_inj:
  "\<forall>p\<in>set params. distinct (snd p) \<Longrightarrow>
   inj_on (map2 (\<lambda>p i. (fst p, snd p ! i)) params) {c. list_all2 (\<lambda>p i. i < length (snd p)) params c}"
proof (induction params)
  case (Cons p ps)
  show ?case
  proof (rule inj_onI)
    fix c d
    assume c: "c \<in> {c. list_all2 (\<lambda>p i. i < length (snd p)) (p # ps) c}"
      and d: "d \<in> {c. list_all2 (\<lambda>p i. i < length (snd p)) (p # ps) c}"
      and eq: "map2 (\<lambda>p i. (fst p, snd p ! i)) (p # ps) c = map2 (\<lambda>p i. (fst p, snd p ! i)) (p # ps) d"
    from c obtain i c' where c': "c = i # c'" "i < length (snd p)" "list_all2 (\<lambda>p i. i < length (snd p)) ps c'"
      by (auto simp: list_all2_Cons1)
    from d obtain j d' where d': "d = j # d'" "j < length (snd p)" "list_all2 (\<lambda>p i. i < length (snd p)) ps d'"
      by (auto simp: list_all2_Cons1)
    have "i = j" using eq c' d' Cons.prems by (simp add: nth_eq_iff_index_eq)
    moreover have "c' = d'"
      using eq c' d' inj_onD [OF Cons.IH] Cons.prems by simp
    ultimately show "c = d" by (simp add: c' d')
  qed
qed (auto intro: inj_onI)

lemma card_choices_of:
  "\<forall>p\<in>set params. distinct (snd p) \<Longrightarrow>
   card (choices_of params) = prod_list (map (\<lambda>p. length (snd p)) params)"
proof (induction params)
  case Nil
  then show ?case by (auto simp: choices_of_def)
next
  case (Cons p ps)
  have "choices_of (p # ps) = (\<lambda>(v, r). (fst p, v) # r) ` (set (snd p) \<times> choices_of ps)"
    by (auto simp: choices_of_def list_all2_Cons1 image_iff)
  moreover have "inj_on (\<lambda>(v, r). (fst p, v) # r) (set (snd p) \<times> choices_of ps)"
    by (auto intro: inj_onI)
  ultimately show ?case
    using Cons by (simp add: card_image card_cartesian_product distinct_card)
qed

lemma grid_search_eq:
  assumes "params \<noteq> []" and f: "lawful_set_order f"
  obtains cs where "grid_search f params = Inr (map (pick_at params) cs)"
    and "distinct cs" and "set cs = {c. in_range params c}"
proof -
  define M where "M = Max (set (map (\<lambda>p. length (snd p)) params))"
  define P where "P = f (permutations (grid_temp (length params) M) (length params))"
  define cs where "cs = filter (\<lambda>c. length (grid_pick params c) = length params) P"
  have small: "length c = length params \<and> set c \<subseteq> {..<M}" if "in_range params c" for c
  proof -
    have "i < M" if i: "i \<in> set c" for i
    proof -
      from i obtain k where k: "k < length c" "c ! k = i" by (auto simp: in_set_conv_nth)
      with \<open>in_range params c\<close> have "i < length (snd (params ! k))" "params ! k \<in> set params"
        by (auto simp: list_all2_conv_all_nth)
      moreover from this(2) have "length (snd (params ! k)) \<le> M"
        unfolding M_def by (intro Max_ge) auto
      ultimately show ?thesis by simp
    qed
    then show ?thesis using that by (auto simp: list_all2_lengthD)
  qed
  have P: "set P = {c. length c = length params \<and> set c \<subseteq> {..<M}}" "distinct P"
    using f by (simp_all add: P_def lawful_set_order_def permutations_grid_temp)
  then have cs: "set cs = {c. in_range params c}"
    using small by (auto simp: cs_def grid_pick_full)
  have "filter (\<lambda>res. length res = length params) (map (grid_pick params) P) = map (grid_pick params) cs"
    by (simp add: cs_def filter_map comp_def)
  also have "\<dots> = map (pick_at params) cs"
    using cs by (auto intro: map_cong grid_pick_eq)
  finally have "grid_search f params = Inr (map (pick_at params) cs)"
    using assms(1) by (simp add: grid_search_def Let_def P_def M_def)
  moreover have "distinct cs" using P(2) by (simp add: cs_def)
  ultimately show ?thesis using cs by (rule that)
qed

text \<open>C4: over parameters with at least one entry and distinct choices, \<open>grid_search\<close> yields every
  way to choose one value per parameter, each exactly once, whatever the iteration order of the
  set: as many dictionaries as the product of the numbers of choices.\<close>

theorem grid_search_exact:
  assumes "params \<noteq> []" and "lawful_set_order f" and "\<forall>p\<in>set params. distinct (snd p)"
  shows "\<exists>G. grid_search f params = Inr G \<and> distinct G \<and> set G = choices_of params
    \<and> length G = prod_list (map (\<lambda>p. length (snd p)) params)"
proof -
  from grid_search_eq [OF assms(1,2)] obtain cs where
    G: "grid_search f params = Inr (map (pick_at params) cs)"
    and cs: "distinct cs" "set cs = {c. in_range params c}" .
  have dist: "distinct (map (pick_at params) cs)"
    using cs grid_indices_inj [OF assms(3)] by (simp add: distinct_map)
  moreover have "set (map (pick_at params) cs) = choices_of params"
    using cs(2) by (auto simp: choices_of_iff)
  moreover from this distinct_card [OF dist]
  have "length (map (pick_at params) cs) = prod_list (map (\<lambda>p. length (snd p)) params)"
    by (simp only: card_choices_of [OF assms(3)])
  ultimately show ?thesis using G by blast
qed

theorem grid_search_exact_witness:
  "\<exists>G. grid_search remdups [(''a'', [1::nat, 2]), (''b'', [5])] = Inr G \<and> distinct G
    \<and> set G = choices_of [(''a'', [1, 2]), (''b'', [5])] \<and> length G = 2"
  using grid_search_exact [of "[(''a'', [1::nat, 2]), (''b'', [5])]" remdups]
  by (simp add: lawful_set_order_def numeral_2_eq_2)

end
