(* ===== verification/Nni_Main.thy ===== *)
theory Nni_Main
  imports Nni_Runner Nni_Grid
begin

text \<open>
  \<open>main\<close> of \<open>Tools/nni-auto-tune/main.py\<close>: command line, loading of the data, the index build with its
  time limit, and the loop that tries every search parameter, saves each result and reports the
  best one. The state \<open>tuner\<close> holds the \<open>Sptag\<close> object, the number of clock readings, the index
  directories on disk, the directories made, the result files written and the reports sent to nni.
  The libraries (nni, numpy, h5py, the index) are the fields of \<open>tuner_env\<close>.
\<close>

section \<open>Command line\<close>

record nni_args =
  na_train_file :: string
  na_query_file :: "string option"
  na_label_file :: "string option"
  na_algorithm :: string
  na_k :: int
  na_distance :: string
  na_max_build_time :: int
  na_max_memory :: int
  na_dim :: int
  na_input_type :: string
  na_data_type :: string

definition nni_defaults :: nni_args where
  "nni_defaults =
     \<lparr>na_train_file = ''glove-100-angular.hdf5'', na_query_file = None, na_label_file = None,
      na_algorithm = ''BKT'', na_k = 10, na_distance = ''angular'', na_max_build_time = - 1,
      na_max_memory = - 1, na_dim = 100, na_input_type = ''float32'', na_data_type = ''float32''\<rparr>"

text \<open>One option of the command line, written in full. An argument of an \<open>int\<close> option that is not an
  integer ends the program, as does an unknown option.\<close>

definition int_option :: "string \<Rightarrow> int result" where
  "int_option v = (case py_int v of Inl _ \<Rightarrow> Inl (SystemExit ''2'') | Inr n \<Rightarrow> Inr n)"

definition nni_option :: "string \<times> string \<Rightarrow> nni_args \<Rightarrow> nni_args result" where
  "nni_option = (\<lambda>(name, v) a.
     if name = ''--train_file'' then Inr (a\<lparr>na_train_file := v\<rparr>)
     else if name = ''--query_file'' then Inr (a\<lparr>na_query_file := Some v\<rparr>)
     else if name = ''--label_file'' then Inr (a\<lparr>na_label_file := Some v\<rparr>)
     else if name = ''--algorithm'' then Inr (a\<lparr>na_algorithm := v\<rparr>)
     else if name = ''--k'' then bindE (int_option v) (\<lambda>n. Inr (a\<lparr>na_k := n\<rparr>))
     else if name = ''--distance'' then Inr (a\<lparr>na_distance := v\<rparr>)
     else if name = ''--max_build_time'' then bindE (int_option v) (\<lambda>n. Inr (a\<lparr>na_max_build_time := n\<rparr>))
     else if name = ''--max_memory'' then bindE (int_option v) (\<lambda>n. Inr (a\<lparr>na_max_memory := n\<rparr>))
     else if name = ''--dim'' then bindE (int_option v) (\<lambda>n. Inr (a\<lparr>na_dim := n\<rparr>))
     else if name = ''--input_type'' then Inr (a\<lparr>na_input_type := v\<rparr>)
     else if name = ''--data_type'' then Inr (a\<lparr>na_data_type := v\<rparr>)
     else Inl (SystemExit ''2''))"

definition nni_parse_args :: "(string \<times> string) list \<Rightarrow> nni_args result" where
  "nni_parse_args argv = forE argv nni_option nni_defaults"

section \<open>State and libraries\<close>

record tune_res =
  tr_default :: pyfloat
  tr_recall :: pyfloat
  tr_qps :: pyfloat
  tr_build_time :: pyfloat

text \<open>\<open>Report_Abort t\<close> is the dictionary with default -1, recall 0 and qps 0; \<open>Report_Empty\<close> is \<open>{}\<close>.\<close>

datatype report = Report_Abort int | Report_Best tune_res | Report_Empty

record saved_result =
  sr_res :: tune_res
  sr_build_params :: "(string \<times> int) list"
  sr_search_params :: "(string \<times> int) list"

record tuner =
  tn_algo :: sptag
  tn_ticks :: nat
  tn_disk :: "string \<rightharpoonup> sptag_call list"
  tn_dirs :: "string set"
  tn_files :: "(string \<times> saved_result) list"
  tn_reports :: "report list"

record tuner_env =
  te_process :: process
  te_stats :: np_stats
  te_log10 :: "pyfloat \<Rightarrow> pyfloat"
  te_blas :: blas
  te_numpy :: "pyfloat numpy"
  te_cast :: "string \<Rightarrow> pyfloat h5rows \<Rightarrow> vec list result"
  te_h5 :: "string \<rightharpoonup> pyfloat h5file"
  te_para :: "(string \<times> int) list"
  te_trial_id :: string
  te_set_order :: "nat list list \<Rightarrow> nat list list"
  te_in_time :: bool

section \<open>Loading\<close>

definition label_words :: "filesys \<Rightarrow> string \<Rightarrow> string list list result" where
  "label_words fs name =
     bindE (open_file fs name) (\<lambda>c. Inr (map (\<lambda>line. split_ws (strip_ws line)) (lines_of (as_text c))))"

definition brute_force_labels ::
  "tuner_env \<Rightarrow> string \<Rightarrow> vec list \<Rightarrow> vec list \<Rightarrow> int \<Rightarrow> pyfloat list list result" where
  "brute_force_labels env distance X_train X_test k =
     bindE (BruteForceBLAS_init distance ''float32'') (\<lambda>bf0.
     bindE (BruteForceBLAS_fit (te_blas env) X_train bf0) (\<lambda>bf.
       mapE (\<lambda>x. bindE (query_with_distances (te_blas env) (pr_pdist (te_process env)) bf x k) (\<lambda>res.
               Inr (map snd (sort_key (\<lambda>t. frank (snd t)) res)))) X_test))"

definition read_vectors :: "tuner_env \<Rightarrow> filesys \<Rightarrow> nni_args \<Rightarrow> string \<Rightarrow> vec list result" where
  "read_vectors env fs args name =
     bindE (nni_DataReader_init (te_numpy env) fs name (na_dim args) (- 1) (na_input_type args) False (na_data_type args)) (\<lambda>rd.
     bindE (nni_readbatch (te_numpy env) rd) (\<lambda>(rd', i, rows). Inr rows))"

definition nni_load_data ::
  "tuner_env \<Rightarrow> filesys \<Rightarrow> nni_args \<Rightarrow> (vec list \<times> vec list \<times> string \<times> int \<times> label_rows) result" where
  "nni_load_data env fs args =
     (if ends_with (na_train_file args) ''.hdf5'' then
        bindE (HDF5Reader_init (te_h5 env) (na_train_file args) (na_data_type args)) (\<lambda>r.
        bindE (HDF5Reader_readallbatches (te_cast env) r) (\<lambda>(X_train, X_test).
          Inr (X_train, X_test, hr_distance r, hr_featuredim r, Dist_Rows (hr_label r))))
      else
        bindE (read_vectors env fs args (na_train_file args)) (\<lambda>X_train.
        bindE (case na_query_file args of None \<Rightarrow> Inl AttributeError | Some q \<Rightarrow> read_vectors env fs args q) (\<lambda>X_test.
        bindE (case na_label_file args of
                 None \<Rightarrow> bindE (brute_force_labels env (na_distance args) X_train X_test (na_k args)) (\<lambda>l. Inr (Dist_Rows l))
               | Some f \<Rightarrow> bindE (label_words fs f) (\<lambda>l. Inr (Name_Rows l))) (\<lambda>label.
          Inr (X_train, X_test, na_distance args, na_dim args, label)))))"

section \<open>Building the index\<close>

definition time_now :: "tuner_env \<Rightarrow> (tuner, pyfloat) act" where
  "time_now env = bindA (getsA tn_ticks) (\<lambda>n.
     bindA (modifyA (\<lambda>s. s\<lparr>tn_ticks := Suc n\<rparr>)) (\<lambda>_. ret (pr_clock (te_process env) n)))"

definition report_final :: "report \<Rightarrow> (tuner, unit) act" where
  "report_final r = modifyA (\<lambda>s. s\<lparr>tn_reports := tn_reports s @ [r]\<rparr>)"

text \<open>With a limit the build runs in a child process, on its own copy of the object; the parent gets
  the index by loading what the child saved. The value says whether the build was in time.\<close>

definition build_index :: "tuner_env \<Rightarrow> nni_args \<Rightarrow> vec list \<Rightarrow> (tuner, bool) act" where
  "build_index env args X_train =
     bindA (getsA tn_algo) (\<lambda>algo.
       if 0 < na_max_build_time args then
         (if te_in_time env then
            bindA (liftE (Sptag_fit X_train (te_para env) (na_data_type args) True algo)) (\<lambda>child.
            seqA (modifyA (\<lambda>s. s\<lparr>tn_disk := (tn_disk s)(''index'' \<mapsto> sp_calls child)\<rparr>))
              (bindA (modifyA (\<lambda>s. s\<lparr>tn_algo := Sptag_load (tn_disk s) ''index'' algo,
                                       tn_disk := (tn_disk s)(''index'' := None)\<rparr>)) (\<lambda>_. ret True)))
          else seqA (report_final (Report_Abort (na_max_build_time args))) (ret False))
       else
         bindA (liftE (Sptag_fit X_train (te_para env) (na_data_type args) False algo)) (\<lambda>a.
           bindA (modifyA (\<lambda>s. s\<lparr>tn_algo := a\<rparr>)) (\<lambda>_. ret True)))"

section \<open>Trying the search parameters\<close>

definition search_param_choices :: "(string, int) params" where
  "search_param_choices =
     [(''NumberOfInitialDynamicPivots'', [1, 2, 4, 8, 16, 32, 50]),
      (''MaxCheck'', [512, 3200, 5120, 8192, 12800, 16400, 19600]),
      (''NumberOfOtherDynamicPivots'', [1, 2, 4, 8, 10])]"

definition pad_neighbors :: "int \<Rightarrow> (int \<times> pyfloat) list \<Rightarrow> int list" where
  "pad_neighbors k ds = map fst ds @ replicate (nat (k - int (length ds))) (- 1)"

definition pad_distances :: "int \<Rightarrow> (int \<times> pyfloat) list \<Rightarrow> pyfloat list" where
  "pad_distances k ds = map snd ds @ replicate (nat (k - int (length ds))) FInf"

definition combined_metric :: "tuner_env \<Rightarrow> pyfloat \<Rightarrow> pyfloat \<Rightarrow> pyfloat" where
  "combined_metric env recalls_mean qps =
     fadd (fmul (FFin (- 1)) (te_log10 env (fadd (FFin 1) (fneg recalls_mean))))
          (fmul (fl64 (1 / 10)) (te_log10 env qps))"

definition result_dir :: "nni_args \<Rightarrow> string" where
  "result_dir args = path_join ''results'' (hd (split_on (CHR ''.'') (na_train_file args)))"

definition result_path :: "tuner_env \<Rightarrow> nni_args \<Rightarrow> nat \<Rightarrow> string" where
  "result_path env args i =
     path_join (result_dir args) (''result_'' @ te_trial_id env @ '' '' @ str_nat i @ ''.json'')"

definition save_result :: "tuner_env \<Rightarrow> nni_args \<Rightarrow> nat \<Rightarrow> (string \<times> int) list \<Rightarrow> tune_res \<Rightarrow> (tuner, unit) act" where
  "save_result env args i search_params res =
     seqA (modifyA (\<lambda>s. s\<lparr>tn_dirs := insert (result_dir args) (tn_dirs s)\<rparr>))
       (modifyA (\<lambda>s. s\<lparr>tn_files := tn_files s @
          [(result_path env args i,
            \<lparr>sr_res = res, sr_build_params = te_para env, sr_search_params = search_params\<rparr>)]\<rparr>))"

text \<open>The body of the loop up to the result dictionary; \<open>None\<close> is the MemoryError branch.\<close>

definition tune_measure ::
  "tuner_env \<Rightarrow> nni_args \<Rightarrow> vec list \<Rightarrow> vec list \<Rightarrow> string \<Rightarrow> label_rows \<Rightarrow> pyfloat \<Rightarrow>
     (string \<times> int) list \<Rightarrow> (tuner, tune_res option) act" where
  "tune_measure env args X_train X_test distance label build_time search_params =
     bindA (getsA tn_algo) (\<lambda>algo0.
     bindA (liftE (Sptag_set_query_arguments search_params algo0)) (\<lambda>algo.
     seqA (modifyA (\<lambda>s. s\<lparr>tn_algo := algo\<rparr>))
     (bindA (getsA tn_ticks) (\<lambda>n.
       case run_individual_query (te_process env) algo X_train X_test distance (na_k args) 1 (na_max_memory args) n of
         Inl e \<Rightarrow> (if e = MemoryErr then ret None else raiseA e)
       | Inr (attrs, results) \<Rightarrow>
           seqA (modifyA (\<lambda>s. s\<lparr>tn_ticks := n + 2 * length X_test\<rparr>))
           (bindA (liftE (compute_metrics (te_stats env) label attrs
               (if na_label_file args = None then Run_Distances (map (\<lambda>r. pad_distances (na_k args) (snd r)) results)
                else Run_Index (map (\<lambda>r. pad_neighbors (na_k args) (snd r)) results)) (na_k args))) (\<lambda>(recalls_mean, qps).
             ret (Some \<lparr>tr_default = combined_metric env recalls_mean qps, tr_recall = recalls_mean,
                        tr_qps = qps, tr_build_time = build_time\<rparr>)))))))"

definition better :: "tune_res \<Rightarrow> pyfloat \<times> tune_res option \<Rightarrow> pyfloat \<times> tune_res option" where
  "better res best = (if flt (fst best) (tr_default res) then (tr_default res, Some res) else best)"

definition best_report :: "pyfloat \<times> tune_res option \<Rightarrow> report" where
  "best_report best = (case snd best of None \<Rightarrow> Report_Empty | Some r \<Rightarrow> Report_Best r)"

fun tune_loop ::
  "tuner_env \<Rightarrow> nni_args \<Rightarrow> vec list \<Rightarrow> vec list \<Rightarrow> string \<Rightarrow> label_rows \<Rightarrow> pyfloat \<Rightarrow> nat \<Rightarrow>
     (string \<times> int) list list \<Rightarrow> pyfloat \<times> tune_res option \<Rightarrow> (tuner, unit) act" where
  "tune_loop env args X_train X_test distance label build_time i [] best = report_final (best_report best)"
| "tune_loop env args X_train X_test distance label build_time i (search_params # rest) best =
     bindA (tune_measure env args X_train X_test distance label build_time search_params) (\<lambda>out.
       case out of None \<Rightarrow> report_final (Report_Abort (na_max_build_time args))
       | Some res \<Rightarrow>
           seqA (save_result env args i search_params res)
             (tune_loop env args X_train X_test distance label build_time (Suc i) rest (better res best)))"

definition nni_main :: "tuner_env \<Rightarrow> filesys \<Rightarrow> nni_args \<Rightarrow> (tuner, unit) act" where
  "nni_main env fs args =
     bindA (liftE (nni_load_data env fs args)) (\<lambda>(X_train, X_test, distance, dimension, label).
     bindA (liftE (Sptag_init (na_algorithm args) distance)) (\<lambda>algo.
     seqA (modifyA (\<lambda>s. s\<lparr>tn_algo := algo\<rparr>))
     (bindA (time_now env) (\<lambda>t0.
      bindA (build_index env args X_train) (\<lambda>built.
        if \<not> built then ret ()
        else bindA (time_now env) (\<lambda>t1.
          bindA (liftE (grid_search (te_set_order env) search_param_choices)) (\<lambda>grid.
            tune_loop env args X_train X_test distance label (fadd t1 (fneg t0)) 0 grid (FFin (- 1), None))))))))"

section \<open>Properties\<close>

lemma result_path_inj: "result_path env args i = result_path env args j \<Longrightarrow> i = j"
proof -
  assume "result_path env args i = result_path env args j"
  then have "str_nat i = str_nat j"
    by (auto simp: result_path_def path_join_def starts_with_def split: if_splits)
  then show "i = j" by (metis nat_of_str_nat)
qed

text \<open>A measurement always returns, and touches neither the files nor the reports.\<close>

lemma tune_measure_frame:
  "\<exists>s' r. tune_measure env args X_train X_test distance label bt sp s = Some (s', r) \<and>
     tn_files s' = tn_files s \<and> tn_reports s' = tn_reports s"
  by (cases "Sptag_set_query_arguments sp (tn_algo s)")
     (auto simp: tune_measure_def Let_def bindA_def split: sum.splits prod.splits if_splits)

text \<open>The entries of the result files of consecutive measurements, from number \<open>i\<close> on.\<close>

definition result_entries ::
  "tuner_env \<Rightarrow> nni_args \<Rightarrow> nat \<Rightarrow> (string \<times> int) list list \<Rightarrow> tune_res list \<Rightarrow> (string \<times> saved_result) list" where
  "result_entries env args i grid S =
     map (\<lambda>j. (result_path env args (i + j),
        \<lparr>sr_res = S ! j, sr_build_params = te_para env, sr_search_params = grid ! j\<rparr>)) [0..<length S]"

lemma result_entries_Nil [simp]: "result_entries env args i grid [] = []"
  by (simp add: result_entries_def)

lemma result_entries_Cons:
  "result_entries env args i (sp # grid) (r # S) =
     (result_path env args i, \<lparr>sr_res = r, sr_build_params = te_para env, sr_search_params = sp\<rparr>)
       # result_entries env args (Suc i) grid S"
  by (simp add: result_entries_def map_upt_Suc del: upt_Suc)

lemma distinct_result_entries: "distinct (map fst (result_entries env args i grid S))"
  by (auto simp: result_entries_def comp_def distinct_map inj_on_def dest: result_path_inj)

definition tune_outcome ::
  "tuner_env \<Rightarrow> nni_args \<Rightarrow> nat \<Rightarrow> (string \<times> int) list list \<Rightarrow> pyfloat \<times> tune_res option \<Rightarrow>
     tuner \<Rightarrow> tuner \<Rightarrow> unit result \<Rightarrow> tune_res list \<Rightarrow> bool" where
  "tune_outcome env args i grid best s s' r S \<longleftrightarrow>
     tn_files s' = tn_files s @ result_entries env args i grid S \<and>
     (case r of
        Inl e \<Rightarrow> length S < length grid \<and> tn_reports s' = tn_reports s
      | Inr _ \<Rightarrow>
          (length S < length grid \<and> tn_reports s' = tn_reports s @ [Report_Abort (na_max_build_time args)]) \<or>
          (length S = length grid \<and> tn_reports s' = tn_reports s @ [best_report (fold better S best)]))"

lemma tune_loop_outcome:
  "\<exists>s' r S. tune_loop env args X_train X_test distance label bt i grid best s = Some (s', r) \<and>
     tune_outcome env args i grid best s s' r S"
proof (induction grid arbitrary: i best s)
  case Nil
  show ?case by (auto simp: report_final_def tune_outcome_def intro!: exI [of _ "[]"])
next
  case (Cons sp grid)
  from tune_measure_frame obtain s1 r1 where
    m: "tune_measure env args X_train X_test distance label bt sp s = Some (s1, r1)"
      "tn_files s1 = tn_files s" "tn_reports s1 = tn_reports s" by blast
  consider e where "r1 = Inl e" | "r1 = Inr None" | res where "r1 = Inr (Some res)"
    by (metis sum.exhaust option.exhaust)
  then show ?case
  proof cases
    case 1
    with m show ?thesis by (auto simp: bindA_run tune_outcome_def intro!: exI [of _ "[]"])
  next
    case 2
    with m show ?thesis
      by (auto simp: bindA_run report_final_def tune_outcome_def intro!: exI [of _ "[]"])
  next
    case 3
    define s2 where "s2 = s1\<lparr>tn_dirs := insert (result_dir args) (tn_dirs s1),
      tn_files := tn_files s1 @ [(result_path env args i,
        \<lparr>sr_res = res, sr_build_params = te_para env, sr_search_params = sp\<rparr>)]\<rparr>"
    have "save_result env args i sp res s1 = Some (s2, Inr ())"
      by (simp add: save_result_def s2_def)
    with 3 m have step: "tune_loop env args X_train X_test distance label bt i (sp # grid) best s =
        tune_loop env args X_train X_test distance label bt (Suc i) grid (better res best) s2"
      by (simp add: bindA_run)
    from Cons.IH [of "Suc i" "better res best" s2] obtain s' r S where
      "tune_loop env args X_train X_test distance label bt (Suc i) grid (better res best) s2 = Some (s', r)"
      and out: "tune_outcome env args (Suc i) grid (better res best) s2 s' r S" by blast
    moreover from out m have "tune_outcome env args i (sp # grid) best s s' r (res # S)"
      by (simp add: tune_outcome_def s2_def result_entries_Cons split: sum.splits)
    ultimately show ?thesis unfolding step by blast
  qed
qed

lemma flt_trans: "flt x y \<Longrightarrow> flt y z \<Longrightarrow> flt x z"
  by (cases x; cases y; cases z) auto

text \<open>The running best: its first component is the metric of its second, and nothing seen is above it.\<close>

lemma fold_better:
  assumes "fold better S (FFin (- 1), None) = (m, b)"
  shows "(\<forall>x\<in>set S. \<not> flt m (tr_default x)) \<and>
    (case b of None \<Rightarrow> m = FFin (- 1) | Some r \<Rightarrow> r \<in> set S \<and> m = tr_default r \<and> flt (FFin (- 1)) m)"
  using assms
proof (induction S arbitrary: m b rule: rev_induct)
  case (snoc x S)
  obtain m1 b1 where mb: "fold better S (FFin (- 1), None) = (m1, b1)" by force
  note IH = snoc.IH [OF mb]
  have irr: "\<not> flt z z" for z by (cases z) auto
  from snoc.prems mb have step: "better x (m1, b1) = (m, b)" by simp
  show ?case
  proof (cases "flt m1 (tr_default x)")
    case True
    with step have "m = tr_default x" "b = Some x" by (auto simp: better_def)
    with IH True irr flt_trans [of m1 "tr_default x"] flt_trans [of "FFin (- 1)" m1 "tr_default x"]
    show ?thesis by (auto split: option.splits)
  next
    case False
    with step have "m = m1" "b = b1" by (auto simp: better_def)
    with IH False show ?thesis by (auto split: option.splits)
  qed
qed (auto split: option.splits)

text \<open>The specification of the report: a result of largest metric among those above -1, or nothing
  when there is none.\<close>

definition best_of :: "tune_res list \<Rightarrow> report \<Rightarrow> bool" where
  "best_of S rep \<longleftrightarrow>
     (case rep of
        Report_Best r \<Rightarrow> r \<in> set S \<and> flt (FFin (- 1)) (tr_default r) \<and> (\<forall>x\<in>set S. \<not> flt (tr_default r) (tr_default x))
      | Report_Empty \<Rightarrow> \<forall>x\<in>set S. \<not> flt (FFin (- 1)) (tr_default x)
      | Report_Abort t \<Rightarrow> False)"

lemma best_report_best_of: "best_of S (best_report (fold better S (FFin (- 1), None)))"
proof -
  obtain m b where mb: "fold better S (FFin (- 1), None) = (m, b)" by force
  from fold_better [OF mb] show ?thesis
    by (auto simp: mb best_report_def best_of_def split: option.splits)
qed

text \<open>C5: the tuning loop always ends. If nothing raises, it sends exactly one report: after
  measuring every parameter set, a result whose combined metric no other result exceeds (or the
  empty dictionary when no metric is above -1); or, after a measurement over the memory limit, the
  abort report. The files written are exactly the results measured so far, in order, one file per
  parameter set under pairwise distinct names; an exception sends no report.\<close>

theorem tune_loop_reports_best:
  "\<exists>s' r S. tune_loop env args X_train X_test distance label bt 0 grid (FFin (- 1), None) s = Some (s', r) \<and>
     tn_files s' = tn_files s @ result_entries env args 0 grid S \<and>
     distinct (map fst (result_entries env args 0 grid S)) \<and>
     (case r of
        Inl e \<Rightarrow> length S < length grid \<and> tn_reports s' = tn_reports s
      | Inr _ \<Rightarrow>
          (length S < length grid \<and> tn_reports s' = tn_reports s @ [Report_Abort (na_max_build_time args)]) \<or>
          (length S = length grid \<and> (\<exists>rep. tn_reports s' = tn_reports s @ [rep] \<and> best_of S rep)))"
proof -
  from tune_loop_outcome obtain s' r S where
    "tune_loop env args X_train X_test distance label bt 0 grid (FFin (- 1), None) s = Some (s', r)"
    and "tune_outcome env args 0 grid (FFin (- 1), None) s s' r S" by blast
  then show ?thesis
    using distinct_result_entries best_report_best_of [of S]
    by (intro exI [of _ s'] exI [of _ r] exI [of _ S]) (auto simp: tune_outcome_def split: sum.splits)
qed

lemma grid_size:
  assumes "lawful_set_order f"
  shows "\<exists>G. grid_search f search_param_choices = Inr G \<and> length G = 245 \<and> set G = choices_of search_param_choices"
proof -
  have d: "\<forall>p\<in>set search_param_choices. distinct (snd p)" and ne: "search_param_choices \<noteq> []"
    by (simp_all add: search_param_choices_def)
  from grid_search_eq [OF ne assms] obtain cs where
    G: "grid_search f search_param_choices = Inr (map (pick_at search_param_choices) cs)"
    and cs: "distinct cs" "set cs = {c. in_range search_param_choices c}" .
  have set: "set (map (pick_at search_param_choices) cs) = choices_of search_param_choices"
    using cs(2) by (auto simp: choices_of_iff)
  have dist: "distinct (map (pick_at search_param_choices) cs)"
    using cs grid_indices_inj [OF d] by (simp add: distinct_map)
  have "length (map (pick_at search_param_choices) cs) = card (choices_of search_param_choices)"
    using distinct_card [OF dist] set by simp
  also have "\<dots> = 245"
    by (subst card_choices_of [OF d]) (simp add: search_param_choices_def)
  finally show ?thesis using G set by blast
qed

lemma build_index_frame:
  "\<exists>s' r. build_index env args X s = Some (s', r) \<and> tn_files s' = tn_files s \<and>
     (case r of
        Inl e \<Rightarrow> tn_reports s' = tn_reports s
      | Inr ok \<Rightarrow> tn_reports s' = tn_reports s @ (if ok then [] else [Report_Abort (na_max_build_time args)]))"
proof (cases "Sptag_fit X (te_para env) (na_data_type args) (0 < na_max_build_time args) (tn_algo s)")
  case (Inl e)
  then show ?thesis by (auto simp: build_index_def bindA_def report_final_def)
next
  case (Inr a)
  then show ?thesis by (auto simp: build_index_def bindA_def report_final_def)
qed

text \<open>C1: a run of the whole program always ends. If it does not raise, it has sent nni exactly one
  report: the abort report (the build was late, or a measurement went over the memory limit), or,
  after writing one result file for each of the 245 parameter sets, a best result of those files.\<close>

theorem nni_main_one_report:
  assumes "lawful_set_order (te_set_order env)"
  shows "\<exists>s' r. nni_main env fs args s = Some (s', r) \<and>
    (case r of
       Inl e \<Rightarrow> tn_reports s' = tn_reports s
     | Inr _ \<Rightarrow>
         tn_reports s' = tn_reports s @ [Report_Abort (na_max_build_time args)] \<or>
         (\<exists>new rep. tn_files s' = tn_files s @ new \<and> length new = 245 \<and> distinct (map fst new) \<and>
            set (map (sr_search_params \<circ> snd) new) = choices_of search_param_choices \<and>
            tn_reports s' = tn_reports s @ [rep] \<and> best_of (map (sr_res \<circ> snd) new) rep))"
proof (cases "nni_load_data env fs args")
  case (Inl e)
  then show ?thesis by (simp add: nni_main_def)
next
  case (Inr ld)
  obtain X_train X_test distance dim label where ld: "ld = (X_train, X_test, distance, dim, label)"
    by (cases ld) auto
  show ?thesis
  proof (cases "Sptag_init (na_algorithm args) distance")
    case (Inl e)
    with Inr ld show ?thesis by (simp add: nni_main_def)
  next
    case algo: (Inr algo)
    define s1 where "s1 = s\<lparr>tn_algo := algo, tn_ticks := Suc (tn_ticks s)\<rparr>"
    define t0 where "t0 = pr_clock (te_process env) (tn_ticks s)"
    have now: "time_now env (s\<lparr>tn_algo := algo\<rparr>) = Some (s1, Inr t0)"
      by (simp add: time_now_def s1_def t0_def)
    have s1: "tn_files s1 = tn_files s" "tn_reports s1 = tn_reports s" by (simp_all add: s1_def)
    from build_index_frame [of env args X_train s1] obtain s2 r2 where b: "build_index env args X_train s1 = Some (s2, r2)"
      "tn_files s2 = tn_files s"
      "case r2 of Inl e \<Rightarrow> tn_reports s2 = tn_reports s
        | Inr ok \<Rightarrow> tn_reports s2 = tn_reports s @ (if ok then [] else [Report_Abort (na_max_build_time args)])"
      unfolding s1 by blast
    have main: "nni_main env fs args s = bindA (build_index env args X_train) (\<lambda>built.
        if \<not> built then ret () else bindA (time_now env) (\<lambda>t1.
          bindA (liftE (grid_search (te_set_order env) search_param_choices)) (\<lambda>grid.
            tune_loop env args X_train X_test distance label (fadd t1 (fneg t0)) 0 grid (FFin (- 1), None)))) s1"
      by (simp add: nni_main_def Inr ld algo bindA_run(1) [of "time_now env", OF now])
    show ?thesis
    proof (cases "r2 = Inr True")
      case False
      with b main show ?thesis by (cases r2) (auto simp: bindA_run)
    next
      case True
      from grid_size [OF assms] obtain G where G: "grid_search (te_set_order env) search_param_choices = Inr G"
        "length G = 245" "set G = choices_of search_param_choices" by blast
      define s3 where "s3 = s2\<lparr>tn_ticks := Suc (tn_ticks s2)\<rparr>"
      have loop: "nni_main env fs args s = tune_loop env args X_train X_test distance label
          (fadd (pr_clock (te_process env) (tn_ticks s2)) (fneg t0)) 0 G (FFin (- 1), None) s3"
        using b True by (simp add: main bindA_def time_now_def G s3_def)
      have s3: "tn_files s3 = tn_files s" "tn_reports s3 = tn_reports s" using b True by (simp_all add: s3_def)
      from tune_loop_outcome obtain s' r S where out:
        "tune_loop env args X_train X_test distance label
          (fadd (pr_clock (te_process env) (tn_ticks s2)) (fneg t0)) 0 G (FFin (- 1), None) s3 = Some (s', r)"
        "tune_outcome env args 0 G (FFin (- 1), None) s3 s' r S" by blast
      let ?new = "result_entries env args 0 G S"
      have full: "map (sr_res \<circ> snd) ?new = S" "length ?new = length S"
        by (simp_all add: result_entries_def comp_def map_nth)
      have "map (sr_search_params \<circ> snd) ?new = G" if "length S = length G"
        using that by (simp add: result_entries_def comp_def map_nth)
      note full = full this
      let ?rep = "best_report (fold better S (FFin (- 1), None))"
      have fin: "\<exists>new rep. tn_files s' = tn_files s @ new \<and> length new = 245 \<and> distinct (map fst new) \<and>
          set (map (sr_search_params \<circ> snd) new) = choices_of search_param_choices \<and>
          tn_reports s' = tn_reports s @ [rep] \<and> best_of (map (sr_res \<circ> snd) new) rep"
        if "length S = length G" "tn_files s' = tn_files s @ ?new" "tn_reports s' = tn_reports s @ [?rep]"
        using that full G best_report_best_of [of S] distinct_result_entries [of env args 0 G S]
        by (intro exI [of _ ?new] exI [of _ ?rep] conjI) simp_all
      show ?thesis
        unfolding loop out(1) using out(2) s3 fin
        by (intro exI [of _ s'] exI [of _ r] conjI refl) (cases r; simp only: tune_outcome_def sum.case; blast)
    qed
  qed
qed

definition sample_env :: tuner_env where
  "sample_env =
     \<lparr>te_process = \<lparr>pr_clock = (\<lambda>n. FFin (of_nat n)), pr_rss = (\<lambda>_. 0), pr_search = (\<lambda>_ _ _. [0]), pr_pdist = (\<lambda>_ _ _. FFin 0)\<rparr>,
      te_stats = mean64, te_log10 = (\<lambda>x. x), te_blas = blas64,
      te_numpy = \<lparr>np_itemsize = (\<lambda>_. 4), np_frombuffer = (\<lambda>_ _ _. []), np_zero = FFin 0, np_store = (\<lambda>_ x. x),
        np_square = (\<lambda>x. fmul x x), np_sum = foldl fadd (FFin 0), np_sqrt = (\<lambda>x. x), np_lt_float = flt,
        np_of_float = (\<lambda>x. x), np_div = ieee_div\<rparr>,
      te_cast = (\<lambda>_ x. case x of Rows m \<Rightarrow> Inr m | _ \<Rightarrow> Inl ValueError),
      te_h5 = [''glove-100-angular.hdf5'' \<mapsto>
        \<lparr>h5_type = None, h5_dimension = Some 1, h5_distance = Some ''angular'', h5_train = Some (Dense [[FFin 1]]),
         h5_test = Some (Dense [[FFin 1]]), h5_size_train = None, h5_size_test = None, h5_distances = Some [[FFin 0]]\<rparr>],
      te_para = [], te_trial_id = ''t'', te_set_order = remdups, te_in_time = True\<rparr>"

theorem nni_main_one_report_witness:
  "\<exists>s' r. nni_main sample_env Map.empty nni_defaults
      \<lparr>tn_algo = \<lparr>sp_algo = [], sp_para = [], sp_metric = [], sp_data_type = None, sp_s_para = None, sp_index = False, sp_calls = []\<rparr>,
       tn_ticks = 0, tn_disk = Map.empty, tn_dirs = {}, tn_files = [], tn_reports = []\<rparr> = Some (s', r) \<and>
    (case r of
       Inl e \<Rightarrow> tn_reports s' = []
     | Inr _ \<Rightarrow>
         tn_reports s' = [Report_Abort (- 1)] \<or>
         (\<exists>new rep. tn_files s' = new \<and> length new = 245 \<and> distinct (map fst new) \<and>
            set (map (sr_search_params \<circ> snd) new) = choices_of search_param_choices \<and>
            tn_reports s' = [rep] \<and> best_of (map (sr_res \<circ> snd) new) rep))"
proof -
  have l: "lawful_set_order (te_set_order sample_env)"
    by (simp add: sample_env_def lawful_set_order_def)
  have t: "na_max_build_time nni_defaults = - 1" by (simp add: nni_defaults_def)
  from nni_main_one_report [OF l, of Map.empty nni_defaults
      "\<lparr>tn_algo = \<lparr>sp_algo = [], sp_para = [], sp_metric = [], sp_data_type = None, sp_s_para = None, sp_index = False, sp_calls = []\<rparr>,
       tn_ticks = 0, tn_disk = Map.empty, tn_dirs = {}, tn_files = [], tn_reports = []\<rparr>"]
  show ?thesis unfolding t tuner.select_convs append_Nil .
qed

end
