(* ===== verification/Nni_Preprocess.thy ===== *)
theory Nni_Preprocess
  imports Nni_Main
begin

text \<open>
  \<open>Tools/nni-auto-tune/preprocessing.py\<close>: sampling a training set into a text file and writing the
  groundtruth indices of the queries. The state is the file system (contents and directories);
  numpy's \<open>str\<close> of an element and \<open>random.shuffle\<close> are the arguments \<open>np_str\<close> and \<open>shuffle\<close>.
\<close>

record pp_args =
  pp_train_file :: string
  pp_query_file :: "string option"
  pp_output_dir :: string
  pp_num_sample :: int
  pp_k :: int
  pp_distance :: string
  pp_dim :: int
  pp_input_type :: string
  pp_data_type :: string

definition pp_defaults :: pp_args where
  "pp_defaults =
     \<lparr>pp_train_file = ''glove-100-angular.hdf5'', pp_query_file = None, pp_output_dir = ''./sampled'',
      pp_num_sample = 1000000, pp_k = 32, pp_distance = ''angular'', pp_dim = 100,
      pp_input_type = ''float32'', pp_data_type = ''float32''\<rparr>"

definition pp_option :: "string \<times> string \<Rightarrow> pp_args \<Rightarrow> pp_args result" where
  "pp_option = (\<lambda>(name, v) a.
     if name = ''--train_file'' then Inr (a\<lparr>pp_train_file := v\<rparr>)
     else if name = ''--query_file'' then Inr (a\<lparr>pp_query_file := Some v\<rparr>)
     else if name = ''--output_dir'' then Inr (a\<lparr>pp_output_dir := v\<rparr>)
     else if name = ''--num_sample'' then bindE (int_option v) (\<lambda>n. Inr (a\<lparr>pp_num_sample := n\<rparr>))
     else if name = ''--k'' then bindE (int_option v) (\<lambda>n. Inr (a\<lparr>pp_k := n\<rparr>))
     else if name = ''--distance'' then Inr (a\<lparr>pp_distance := v\<rparr>)
     else if name = ''--dim'' then bindE (int_option v) (\<lambda>n. Inr (a\<lparr>pp_dim := n\<rparr>))
     else if name = ''--input_type'' then Inr (a\<lparr>pp_input_type := v\<rparr>)
     else if name = ''--data_type'' then Inr (a\<lparr>pp_data_type := v\<rparr>)
     else Inl (SystemExit ''2''))"

definition pp_parse_args :: "(string \<times> string) list \<Rightarrow> pp_args result" where
  "pp_parse_args argv = forE argv pp_option pp_defaults"

record pp_state =
  pp_files :: filesys
  pp_dirs :: "string set"

definition pp_read_vectors :: "tuner_env \<Rightarrow> filesys \<Rightarrow> pp_args \<Rightarrow> string \<Rightarrow> vec list result" where
  "pp_read_vectors env fs args name =
     bindE (nni_DataReader_init (te_numpy env) fs name (pp_dim args) (- 1) (pp_input_type args) False (pp_data_type args)) (\<lambda>rd.
     bindE (nni_readbatch (te_numpy env) rd) (\<lambda>(rd', i, rows). Inr rows))"

definition pp_load_data :: "tuner_env \<Rightarrow> filesys \<Rightarrow> pp_args \<Rightarrow> (vec list \<times> vec list \<times> string \<times> int) result" where
  "pp_load_data env fs args =
     (if ends_with (pp_train_file args) ''.hdf5'' then
        bindE (HDF5Reader_init (te_h5 env) (pp_train_file args) (pp_data_type args)) (\<lambda>r.
        bindE (HDF5Reader_readallbatches (te_cast env) r) (\<lambda>(X_train, X_test).
          Inr (X_train, X_test, hr_distance r, hr_featuredim r)))
      else
        bindE (pp_read_vectors env fs args (pp_train_file args)) (\<lambda>X_train.
        bindE (case pp_query_file args of None \<Rightarrow> Inl AttributeError | Some q \<Rightarrow> pp_read_vectors env fs args q) (\<lambda>X_test.
          Inr (X_train, X_test, pp_distance args, pp_dim args))))"

definition target_path :: "pp_args \<Rightarrow> string" where
  "target_path args =
     (let prefix = replace_all ''.bin'' '''' (pp_train_file args)
      in path_join (pp_output_dir args)
           (ext_root (path_tail prefix) @ ''-sampled-'' @ str_int (pp_num_sample args) @ ''.txt''))"

definition sampled_text :: "('v \<Rightarrow> string) \<Rightarrow> 'v list list \<Rightarrow> string" where
  "sampled_text np_str rows = concat (map (\<lambda>row. [tab] @ join ''|'' (map np_str row) @ [nl]) rows)"

definition groundtruth_text :: "nat list list \<Rightarrow> string" where
  "groundtruth_text label_index = concat (map (\<lambda>ids. join '' '' (map str_nat ids) @ [nl]) label_index)"

definition write_text :: "string \<Rightarrow> string \<Rightarrow> (pp_state, unit) act" where
  "write_text name s = modifyA (\<lambda>st. st\<lparr>pp_files := (pp_files st)(name \<mapsto> as_bytes s)\<rparr>)"

definition groundtruth_index ::
  "tuner_env \<Rightarrow> string \<Rightarrow> vec list \<Rightarrow> vec list \<Rightarrow> int \<Rightarrow> nat list list result" where
  "groundtruth_index env distance X_train X_test k =
     bindE (BruteForceBLAS_init distance ''float32'') (\<lambda>bf0.
     bindE (BruteForceBLAS_fit (te_blas env) X_train bf0) (\<lambda>bf.
       mapE (\<lambda>x. bindE (query_with_distances (te_blas env) (pr_pdist (te_process env)) bf x k) (\<lambda>res.
               Inr (map fst (sort_key (\<lambda>t. frank (snd t)) res)))) X_test))"

definition pp_main ::
  "tuner_env \<Rightarrow> (vec list \<Rightarrow> vec list) \<Rightarrow> (pyfloat \<Rightarrow> string) \<Rightarrow> pp_args \<Rightarrow> (pp_state, unit) act" where
  "pp_main env shuffle np_str args =
     bindA (getsA pp_files) (\<lambda>fs.
     bindA (liftE (pp_load_data env fs args)) (\<lambda>(X_train0, X_test, distance, dimension).
     seqA (modifyA (\<lambda>st. st\<lparr>pp_dirs := insert (pp_output_dir args) (pp_dirs st)\<rparr>))
     (bindA
        (if pp_num_sample args \<noteq> - 1 then
           (let X = py_prefix (shuffle X_train0) (pp_num_sample args)
            in bindA (write_text (target_path args) (sampled_text np_str X)) (\<lambda>_. ret X))
         else ret X_train0) (\<lambda>X_train.
      bindA (liftE (groundtruth_index env distance X_train X_test (pp_k args))) (\<lambda>label_index.
        write_text (path_join (pp_output_dir args) ''ground_truth.txt'') (groundtruth_text label_index))))))"

section \<open>Properties\<close>

lemma str_nat_word: "is_word (str_nat n)"
  using str_nat_digits [of _ n] is_digit_not_ws by (auto simp: is_word_def)

lemma is_ws_nl [simp]: "is_ws nl" and is_ws_blank [simp]: "is_ws (CHR '' '')" and nl_not_bar [simp]: "nl \<noteq> CHR ''|''"
  and tab_not_nl [simp]: "tab \<noteq> nl" and nl_not_tab [simp]: "nl \<noteq> tab" and tab_not_bar [simp]: "tab \<noteq> CHR ''|''"
  by code_simp+

lemma groundtruth_lines:
  "lines_of (groundtruth_text L) = map (\<lambda>ids. join '' '' (map str_nat ids) @ [nl]) L"
proof -
  have "nl \<notin> set (join '' '' (map str_nat ids))" for ids
    using set_join [of "'' ''" "map str_nat ids"] str_nat_word is_ws_nl
    by (force simp: is_word_def nl_def)
  then have "lines_of (concat (map (\<lambda>w. w @ [nl]) (map (\<lambda>ids. join '' '' (map str_nat ids)) L))) =
      map (\<lambda>w. w @ [nl]) (map (\<lambda>ids. join '' '' (map str_nat ids)) L)"
    by (intro lines_of_rows) auto
  then show ?thesis by (simp add: groundtruth_text_def comp_def)
qed

text \<open>The groundtruth file of \<open>preprocessing.py\<close> read as the label file of \<open>main.py\<close> gives, for each
  query, the decimal forms of exactly the groundtruth indices, in order.\<close>

theorem groundtruth_roundtrip:
  "label_words (fs(name \<mapsto> as_bytes (groundtruth_text L))) name = Inr (map (map str_nat) L)"
proof -
  have "split_ws (join '' '' (map str_nat ids) @ [nl]) = map str_nat ids" for ids
    by (rule split_ws_join) (auto simp: str_nat_word)
  then show ?thesis
    by (simp add: label_words_def open_file_def groundtruth_lines comp_def)
qed

lemma lines_sampled:
  assumes "\<forall>row\<in>set rows. \<forall>x\<in>set row. nl \<notin> set (np_str x)"
  shows "lines_of (sampled_text np_str rows) = map (\<lambda>row. [tab] @ join ''|'' (map np_str row) @ [nl]) rows"
proof -
  have "nl \<notin> set ([tab] @ join ''|'' (map np_str row))" if "row \<in> set rows" for row
    using set_join [of "''|''" "map np_str row"] assms that by force
  then have "lines_of (concat (map (\<lambda>w. w @ [nl]) (map (\<lambda>row. [tab] @ join ''|'' (map np_str row)) rows))) =
      map (\<lambda>w. w @ [nl]) (map (\<lambda>row. [tab] @ join ''|'' (map np_str row)) rows)"
    by (intro lines_of_rows) auto
  then show ?thesis by (simp add: sampled_text_def comp_def)
qed

lemma join_snoc: "ws \<noteq> [] \<Longrightarrow> join sep (butlast ws @ [last ws @ t]) = join sep ws @ t"
proof (induction sep ws rule: join.induct)
  case (3 sep w v ws)
  have "join sep (w # butlast (v # ws) @ [last (v # ws) @ t]) = w @ sep @ join sep (butlast (v # ws) @ [last (v # ws) @ t])"
    by (cases "butlast (v # ws)") auto
  with 3 show ?case by simp
qed simp_all

lemma row_items_sampled:
  assumes "row \<noteq> []" and "\<forall>x\<in>set row. CHR ''|'' \<notin> set (np_str x) \<and> tab \<notin> set (np_str x)"
  shows "row_items ([tab] @ join ''|'' (map np_str row) @ [nl]) =
    butlast (map np_str row) @ [last (map np_str row) @ [nl]]"
proof -
  let ?ws = "map np_str row"
  have "tab \<notin> set (join ''|'' ?ws @ [nl])"
    using set_join [of "''|''" ?ws] assms(2) by fastforce
  then have "rfind_char tab ([] @ tab # join ''|'' ?ws @ [nl]) = 0"
    by (subst rfind_char_append) simp_all
  then have "row_items ([tab] @ join ''|'' ?ws @ [nl]) = split_on (CHR ''|'') (join ''|'' ?ws @ [nl])"
    by (simp add: row_items_def del: rfind_char.simps)
  also have "\<dots> = split_on (CHR ''|'') (join ''|'' (butlast ?ws @ [last ?ws @ [nl]]))"
    using assms(1) by (simp add: join_snoc)
  also have "\<dots> = butlast ?ws @ [last ?ws @ [nl]]"
  proof (rule split_on_join)
    have "set (butlast ?ws) \<subseteq> np_str ` set row" "last ?ws \<in> np_str ` set row"
      using assms(1) by (auto dest: in_set_butlastD simp: last_map)
    with assms(2) show "\<forall>w\<in>set (butlast ?ws @ [last ?ws @ [nl]]). CHR ''|'' \<notin> set w"
      by (auto simp: nl_def)
  qed simp
  finally show ?thesis .
qed

text \<open>What the round trip needs of numpy: a printed element reads back as itself.\<close>

definition prints_back :: "'v numpy \<Rightarrow> string \<Rightarrow> ('v \<Rightarrow> string) \<Rightarrow> 'v \<Rightarrow> bool" where
  "prints_back np tt np_str x \<longleftrightarrow>
     set (np_str x) \<inter> {CHR ''|'', tab, nl} = {} \<and>
     (case py_float (np_str x) of Inl _ \<Rightarrow> False | Inr v \<Rightarrow> np_store np tt v = x)"

lemma parse_sampled:
  assumes "row \<noteq> []" and "\<forall>x\<in>set row. prints_back np tt np_str x" and "r_mytype rd = tt"
    and "r_featuredim rd = int (length row)"
  shows "parse_row np rd ([tab] @ join ''|'' (map np_str row) @ [nl]) = Inr row"
proof -
  let ?ws = "map np_str row" and ?f = "\<lambda>w. bindE (py_float w) (\<lambda>x. Inr (np_store np tt x))"
  have items: "row_items ([tab] @ join ''|'' ?ws @ [nl]) = butlast ?ws @ [last ?ws @ [nl]]"
    using assms(1,2) by (intro row_items_sampled) (auto simp: prints_back_def)
  have "mapE ?f (butlast ?ws @ [last ?ws @ [nl]]) = mapE ?f (butlast ?ws @ [last ?ws])"
    by (simp add: mapE_append)
  also have "\<dots> = mapE ?f ?ws" using assms(1) by (subst append_butlast_last_id) simp_all
  also have "\<dots> = Inr row"
    using assms(2) by (induction row) (auto simp: prints_back_def split: sum.splits)
  finally have all: "mapE ?f (butlast ?ws @ [last ?ws @ [nl]]) = Inr row" .
  have "take (length row) (butlast ?ws @ [last ?ws @ [nl]]) = butlast ?ws @ [last ?ws @ [nl]]"
    using assms(1) by (intro take_all) simp
  with all assms(3,4) show ?thesis
    unfolding parse_row_def items by simp
qed

text \<open>C14: a sampled training set written by \<open>preprocessing.py\<close> and read back by \<open>DataReader\<close> is the sampled
  set: the same rows, in order, as many as were written.\<close>

theorem sampled_roundtrip:
  assumes "find_sub name ''.bin'' < 0" and "0 < d" and "\<forall>row\<in>set rows. length row = d"
    and "\<forall>row\<in>set rows. \<forall>x\<in>set row. prints_back np tt np_str x"
  shows "\<exists>rd rd'. nni_DataReader_init np (fs(name \<mapsto> as_bytes (sampled_text np_str rows))) name (int d) (- 1) dt False tt = Inr rd \<and>
    nni_readbatch np rd = Inr (rd', length rows, rows)"
proof -
  define lns where "lns = map (\<lambda>row. [tab] @ join ''|'' (map np_str row) @ [nl]) rows"
  define rd :: "'a reader" where "rd = \<lparr>r_mytype = tt, r_bin = [], r_lines = lns, r_featuredim = int d, r_isbinary = False,
    r_type = tt, r_query = replicate (length rows) (replicate d (np_zero np)), r_normalize = 0\<rparr>"
  have lines: "lines_of (sampled_text np_str rows) = lns"
    unfolding lns_def using assms(4) by (intro lines_sampled) (auto simp: prints_back_def)
  have init: "nni_DataReader_init np (fs(name \<mapsto> as_bytes (sampled_text np_str rows))) name (int d) (- 1) dt False tt = Inr rd"
    using assms(1) lines
    by (simp add: nni_DataReader_init_def DataReader_init_def open_file_def np_zeros_def Let_def rd_def lns_def)
  have parse: "parse_row np rd ([tab] @ join ''|'' (map np_str row) @ [nl]) = Inr row \<and>
      usable_line rd ([tab] @ join ''|'' (map np_str row) @ [nl])" if "row \<in> set rows" for row
  proof
    have ne: "row \<noteq> []" and ok: "\<forall>x\<in>set row. prints_back np tt np_str x" and d: "length row = d"
      using assms(2-4) that by auto
    then show "parse_row np rd ([tab] @ join ''|'' (map np_str row) @ [nl]) = Inr row"
      by (intro parse_sampled) (simp_all add: rd_def)
    have "row_items ([tab] @ join ''|'' (map np_str row) @ [nl]) = butlast (map np_str row) @ [last (map np_str row) @ [nl]]"
      using ne ok by (intro row_items_sampled) (auto simp: prints_back_def)
    with ne d show "usable_line rd ([tab] @ join ''|'' (map np_str row) @ [nl])"
      by (simp add: usable_line_def rd_def)
  qed
  have "text_ok np (length rows) rd"
    using parse by (auto simp: text_ok_def rd_def lns_def)
  moreover have "text_pending np rd = rows"
  proof -
    have "filter (usable_line rd) lns = lns" using parse by (auto simp: lns_def filter_id_conv)
    then have "text_pending np rd = map (\<lambda>l. projr (parse_row np rd l)) lns"
      by (simp add: text_pending_def) (simp add: rd_def)
    also have "\<dots> = rows" using parse by (simp add: lns_def comp_def map_idI)
    finally show ?thesis .
  qed
  ultimately show ?thesis
    using init text_source.get_ok [of np "length rows" rd] by (auto simp: nni_readbatch_def)
qed

theorem sampled_roundtrip_witness:
  "\<exists>rd rd'. nni_DataReader_init np_int8 (Map.empty(''s.txt'' \<mapsto> as_bytes (sampled_text str_int [[1, -2], [3, 4]]))) ''s.txt''
      2 (- 1) ''float32'' False ''int8'' = Inr rd \<and> nni_readbatch np_int8 rd = Inr (rd', 2, [[1, -2], [3, 4]])"
proof -
  have "find_sub ''s.txt'' ''.bin'' < 0" by code_simp
  moreover have "\<forall>row\<in>set [[1, -2], [3, 4]]. \<forall>x\<in>set row. prints_back np_int8 ''int8'' str_int x" by code_simp
  ultimately show ?thesis
    using sampled_roundtrip [of "''s.txt''" 2 "[[1, -2], [3, 4]]" np_int8 "''int8''" str_int Map.empty "''float32''"]
    by (simp add: eval_nat_numeral)
qed

end
