(* ===== verification/Nni_Plot.thy ===== *)
theory Nni_Plot
  imports Nni_Main
begin

text \<open>
  \<open>Tools/nni-auto-tune/plot.py\<close>: from all saved results, the points of the recall/throughput curve.
  \<open>json.load\<close> is the argument \<open>parse\<close>, from the bytes of a file to the five entries the script
  takes (\<open>None\<close> when parsing or a lookup raises, which the script catches); build and search
  parameters stay uninterpreted. Printing of a value with \<open>str\<close> is the argument \<open>show_val\<close>.
\<close>

record 'p point =
  pt_qps :: pyfloat
  pt_recall :: pyfloat
  pt_build_time :: pyfloat
  pt_build_params :: 'p
  pt_search_params :: 'p

definition load_points ::
  "filesys \<Rightarrow> (bytes \<Rightarrow> 'p point option) \<Rightarrow> string \<Rightarrow> string list \<Rightarrow> 'p point list result" where
  "load_points fs parse path results =
     forE results (\<lambda>p data.
       bindE (open_file fs (path_join (path_join ''results'' path) p)) (\<lambda>c.
         case parse c of None \<Rightarrow> Inr data | Some res \<Rightarrow> Inr (data @ [res]))) []"

definition plot_key :: "'p point \<Rightarrow> (nat \<times> rat) \<times> (nat \<times> rat)" where
  "plot_key t = (frank (fmul (FFin (- 1)) (pt_qps t)), frank (fmul (FFin (- 1)) (pt_recall t)))"

fun select_points :: "nat \<Rightarrow> pyfloat \<Rightarrow> 'p point list \<Rightarrow> (nat \<times> 'p point) list" where
  "select_points i last_x [] = []"
| "select_points i last_x (t # ts) =
     (if flt last_x (pt_recall t) then (i, t) # select_points (Suc i) (pt_recall t) ts
      else select_points (Suc i) last_x ts)"

definition point_line :: "(pyfloat \<Rightarrow> string) \<Rightarrow> ('p \<Rightarrow> string) \<Rightarrow> nat \<times> 'p point \<Rightarrow> string" where
  "point_line show_val show_par = (\<lambda>(i, t).
     ''Selected point'' @ str_nat i @ ''recalls:'' @ show_val (pt_recall t) @ ''qps:'' @ show_val (pt_qps t) @
     ''build time:'' @ show_val (pt_build_time t) @ ''with build params:'' @ show_par (pt_build_params t) @
     ''and search params:'' @ show_par (pt_search_params t) @ [nl])"

text \<open>The scale of the horizontal axis: \<open>a\<alpha>\<close> is the function \<open>1 - (1 - x) ^ (1/\<alpha>)\<close> with ticks at steps of
  0.2 or logit ticks, any other name is passed on.\<close>

datatype x_axis = Function_Steps pyfloat | Function_Logit pyfloat | Function_Bare pyfloat | Named_Scale string

definition choose_axis :: "string \<Rightarrow> x_axis result" where
  "choose_axis x_scale =
     bindE (py_get x_scale 0) (\<lambda>c.
       if c = CHR ''a'' then
         bindE (py_float (drop 1 x_scale)) (\<lambda>alpha.
           Inr (if fle alpha (FFin 3) then Function_Steps alpha
                else if flt (FFin 3) alpha then Function_Logit alpha else Function_Bare alpha))
       else Inr (Named_Scale x_scale))"

text \<open>What is drawn: the curve, its horizontal axis and the scale of the vertical one. The lines of the
  selected points go to the file \<open>path.json\<close> before the axis is chosen.\<close>

record plot_out =
  po_recalls :: "pyfloat list"
  po_qps :: "pyfloat list"
  po_axis :: x_axis
  po_y_scale :: string

definition selected :: "'p point list \<Rightarrow> (nat \<times> 'p point) list" where
  "selected data = select_points 0 (FFin (- 1)) (sort_key plot_key data)"

definition create_plot ::
  "(bytes \<Rightarrow> 'p point option) \<Rightarrow> (pyfloat \<Rightarrow> string) \<Rightarrow> ('p \<Rightarrow> string) \<Rightarrow> string \<Rightarrow> string \<Rightarrow> string \<Rightarrow> string list \<Rightarrow>
     (filesys, plot_out) act" where
  "create_plot parse show_val show_par path x_scale y_scale results =
     bindA (getsA (\<lambda>fs. fs)) (\<lambda>fs.
     bindA (liftE (load_points fs parse path results)) (\<lambda>data.
       let sel = selected data
       in seqA (modifyA (\<lambda>fs. fs(path @ ''.json'' \<mapsto> as_bytes (concat (map (point_line show_val show_par) sel)))))
          (bindA (liftE (choose_axis x_scale)) (\<lambda>axis.
             ret \<lparr>po_recalls = map (pt_recall \<circ> snd) sel, po_qps = map (pt_qps \<circ> snd) sel,
                  po_axis = axis, po_y_scale = y_scale\<rparr>))))"

text \<open>The command line part: the results are the names in the directory \<open>results/path\<close>.\<close>

record plot_args =
  pl_path :: string
  pl_x_scale :: string
  pl_y_scale :: string

definition plot_defaults :: plot_args where
  "plot_defaults = \<lparr>pl_path = ''glove-100-angular'', pl_x_scale = ''a4'', pl_y_scale = ''log''\<rparr>"

definition plot_option :: "string \<times> string \<Rightarrow> plot_args \<Rightarrow> plot_args result" where
  "plot_option = (\<lambda>(name, v) a.
     if name = ''--path'' then Inr (a\<lparr>pl_path := v\<rparr>)
     else if name \<in> {''-X'', ''--x_scale''} then Inr (a\<lparr>pl_x_scale := v\<rparr>)
     else if name \<in> {''-Y'', ''--y_scale''} then
       (if v \<in> {''linear'', ''log'', ''symlog'', ''logit''} then Inr (a\<lparr>pl_y_scale := v\<rparr>) else Inl (SystemExit ''2''))
     else Inl (SystemExit ''2''))"

definition plot_parse_args :: "(string \<times> string) list \<Rightarrow> plot_args result" where
  "plot_parse_args argv = forE argv plot_option plot_defaults"

definition plot_main ::
  "(string \<rightharpoonup> string list) \<Rightarrow> (bytes \<Rightarrow> 'p point option) \<Rightarrow> (pyfloat \<Rightarrow> string) \<Rightarrow> ('p \<Rightarrow> string) \<Rightarrow>
     (string \<times> string) list \<Rightarrow> (filesys, plot_out) act" where
  "plot_main listdir parse show_val show_par argv =
     bindA (liftE (plot_parse_args argv)) (\<lambda>args.
       case listdir (path_join ''results'' (pl_path args)) of
         None \<Rightarrow> raiseA FileNotFoundError
       | Some results \<Rightarrow> create_plot parse show_val show_par (pl_path args) (pl_x_scale args) (pl_y_scale args) results)"

text \<open>With an empty horizontal scale the file of the selected points is written, and then the choice of
  the axis raises.\<close>

lemma create_plot_empty_scale:
  assumes "load_points fs parse path results = Inr data"
  shows "create_plot parse show_val show_par path [] y_scale results fs =
    Some (fs(path @ ''.json'' \<mapsto> as_bytes (concat (map (point_line show_val show_par) (selected data)))), Inl IndexError)"
  using assms by (simp add: create_plot_def choose_axis_def py_get_def py_index_def Let_def)

section \<open>The selected points are the frontier\<close>

text \<open>A value of a measured point is a number a double holds, so that negation is exact.\<close>

definition measured :: "'p point \<Rightarrow> bool" where
  "measured t \<longleftrightarrow> (\<exists>q r. pt_qps t = FFin q \<and> pt_recall t = FFin r \<and> fl64 (- q) = FFin (- q) \<and> fl64 (- r) = FFin (- r))"

definition qv :: "'p point \<Rightarrow> rat" where "qv t = (case pt_qps t of FFin q \<Rightarrow> q | _ \<Rightarrow> 0)"
definition rv :: "'p point \<Rightarrow> rat" where "rv t = (case pt_recall t of FFin q \<Rightarrow> q | _ \<Rightarrow> 0)"

lemma measured_vals [simp]: "measured t \<Longrightarrow> pt_recall t = FFin (rv t)" "measured t \<Longrightarrow> pt_qps t = FFin (qv t)"
  by (auto simp: measured_def qv_def rv_def)

lemma plot_key_measured:
  assumes "measured t"
  shows "plot_key t = ((1, - qv t), (1, - rv t))"
proof -
  from assms obtain q r where "pt_qps t = FFin q" "pt_recall t = FFin r" "fl64 (- q) = FFin (- q)" "fl64 (- r) = FFin (- r)"
    unfolding measured_def by blast
  then show ?thesis by (simp add: plot_key_def qv_def rv_def)
qed

definition ahead :: "'p point \<Rightarrow> 'p point \<Rightarrow> bool" where
  "ahead a b \<longleftrightarrow> qv b < qv a \<or> (qv a = qv b \<and> rv b \<le> rv a)"

lemma plot_key_le:
  "measured a \<Longrightarrow> measured b \<Longrightarrow> plot_key a \<le> plot_key b \<longleftrightarrow> ahead a b"
  by (auto simp: plot_key_measured less_eq_prod_def ahead_def)

text \<open>Selecting from points sorted by falling throughput: the recalls of what is selected rise from
  \<open>x\<close>, and every point of recall above \<open>x\<close> has a selected point ahead of it of at least its recall.\<close>

lemma select_points_mem:
  "\<forall>t\<in>set ts. measured t \<Longrightarrow> p \<in> set (select_points i (FFin x) ts) \<Longrightarrow> snd p \<in> set ts \<and> x < rv (snd p)"
proof (induction ts arbitrary: i x)
  case (Cons t ts)
  then show ?case by (fastforce split: if_splits)
qed simp

lemma select_points_sorted:
  assumes "sorted_wrt ahead ts" and "\<forall>t\<in>set ts. measured t"
  shows "sorted_wrt (\<lambda>a b. rv a < rv b \<and> qv b < qv a) (map snd (select_points i (FFin x) ts))"
  using assms
proof (induction ts arbitrary: i x)
  case (Cons t ts)
  have "rv t < rv (snd p) \<and> qv (snd p) < qv t" if "p \<in> set (select_points (Suc i) (FFin (rv t)) ts)" for p
    using select_points_mem [OF _ that] Cons.prems by (auto simp: ahead_def)
  with Cons show ?case by auto
qed simp

lemma select_points_cover:
  assumes "sorted_wrt ahead ts" and "\<forall>t\<in>set ts. measured t" and "u \<in> set ts" and "x < rv u"
  shows "\<exists>p\<in>set (select_points i (FFin x) ts). rv u \<le> rv (snd p) \<and> qv u \<le> qv (snd p)"
  using assms
proof (induction ts arbitrary: i x)
  case (Cons t ts)
  show ?case
  proof (cases "x < rv t")
    case False
    with Cons.prems have "u \<in> set ts" by auto
    with Cons False show ?thesis by simp
  next
    case True
    show ?thesis
    proof (cases "rv u \<le> rv t")
      case True
      with \<open>x < rv t\<close> Cons.prems show ?thesis by (auto simp: ahead_def)
    next
      case False
      with Cons.prems have "u \<in> set ts" by auto
      with Cons.IH [of "rv t" "Suc i"] Cons.prems False \<open>x < rv t\<close> show ?thesis by simp
    qed
  qed
qed simp

lemma sorted_ahead:
  "\<forall>t\<in>set data. measured t \<Longrightarrow> sorted_wrt ahead (sort_key plot_key data)"
proof -
  assume m: "\<forall>t\<in>set data. measured t"
  have "sorted_wrt (\<lambda>a b. plot_key a \<le> plot_key b) (sort_key plot_key data)"
    using sorted_sort_key [of plot_key data] by (simp add: sorted_map)
  then show ?thesis
    using m by (rule_tac sorted_wrt_mono_rel [where P = "\<lambda>a b. plot_key a \<le> plot_key b"]) (auto simp: plot_key_le)
qed

text \<open>C8: the points \<open>create_plot\<close> selects from measured results are their Pareto frontier: their recalls
  rise strictly while their throughput falls strictly, every result of recall above -1 has a selected
  point at least as good in both, and no result at all beats a selected point in one and matches
  it in the other.\<close>

theorem selected_pareto:
  assumes "\<forall>t\<in>set data. measured t"
  defines "sel \<equiv> map snd (selected data)"
  shows "sorted_wrt (\<lambda>a b. rv a < rv b \<and> qv b < qv a) sel \<and> set sel \<subseteq> set data \<and>
    (\<forall>t\<in>set data. - 1 < rv t \<longrightarrow> (\<exists>p\<in>set sel. rv t \<le> rv p \<and> qv t \<le> qv p)) \<and>
    (\<forall>p\<in>set sel. \<forall>t\<in>set data. \<not> (rv p \<le> rv t \<and> qv p \<le> qv t \<and> (rv p < rv t \<or> qv p < qv t)))"
proof -
  let ?ts = "sort_key plot_key data"
  have m: "\<forall>t\<in>set ?ts. measured t" using assms(1) by simp
  note srt = sorted_ahead [OF assms(1)]
  have sel: "sel = map snd (select_points 0 (FFin (- 1)) ?ts)" by (simp add: sel_def selected_def)
  have sorted: "sorted_wrt (\<lambda>a b. rv a < rv b \<and> qv b < qv a) sel"
    unfolding sel by (rule select_points_sorted [OF srt m])
  have mem: "p \<in> set data \<and> - 1 < rv p" if "p \<in> set sel" for p
    using that select_points_mem [OF m] unfolding sel by fastforce
  have cover: "\<exists>p\<in>set sel. rv t \<le> rv p \<and> qv t \<le> qv p" if "t \<in> set data" "- 1 < rv t" for t
    using select_points_cover [OF srt m, of t "- 1" 0] that unfolding sel by auto
  have "\<not> (rv p \<le> rv t \<and> qv p \<le> qv t \<and> (rv p < rv t \<or> qv p < qv t))" if p: "p \<in> set sel" and t: "t \<in> set data" for p t
  proof
    assume better: "rv p \<le> rv t \<and> qv p \<le> qv t \<and> (rv p < rv t \<or> qv p < qv t)"
    with cover [OF t] mem [OF p] obtain p' where p': "p' \<in> set sel" "rv t \<le> rv p'" "qv t \<le> qv p'" by fastforce
    from p p'(1) obtain i j where ij: "i < length sel" "sel ! i = p" "j < length sel" "sel ! j = p'"
      by (auto simp: in_set_conv_nth)
    consider "i < j" | "j < i" | "i = j" by linarith
    then show False
      using sorted_wrt_nth_less [OF sorted, of i j] sorted_wrt_nth_less [OF sorted, of j i] ij better p'
      by cases auto
  qed
  with sorted mem cover show ?thesis by blast
qed

lemma measured_ints:
  assumes "pt_qps t = FFin (of_int a)" and "pt_recall t = FFin (of_int b)" and "\<bar>a\<bar> \<le> 2 ^ 53" and "\<bar>b\<bar> \<le> 2 ^ 53"
  shows "measured t"
  using assms fl64_of_int [of "- a"] fl64_of_int [of "- b"] unfolding measured_def by fastforce

theorem selected_pareto_witness:
  "sorted_wrt (\<lambda>a b. rv a < rv b \<and> qv b < qv a) (map snd (selected
     [\<lparr>pt_qps = FFin 5, pt_recall = FFin 1, pt_build_time = FFin 0, pt_build_params = (), pt_search_params = ()\<rparr>,
      \<lparr>pt_qps = FFin 9, pt_recall = FFin 0, pt_build_time = FFin 0, pt_build_params = (), pt_search_params = ()\<rparr>]))"
proof -
  have "measured \<lparr>pt_qps = FFin 5, pt_recall = FFin 1, pt_build_time = FFin 0, pt_build_params = (), pt_search_params = ()\<rparr>"
    by (rule measured_ints [of _ 5 1]) simp_all
  moreover have "measured \<lparr>pt_qps = FFin 9, pt_recall = FFin 0, pt_build_time = FFin 0, pt_build_params = (), pt_search_params = ()\<rparr>"
    by (rule measured_ints [of _ 9 0]) simp_all
  ultimately have "\<forall>t\<in>set [\<lparr>pt_qps = FFin 5, pt_recall = FFin 1, pt_build_time = FFin 0, pt_build_params = (), pt_search_params = ()\<rparr>,
      \<lparr>pt_qps = FFin 9, pt_recall = FFin 0, pt_build_time = FFin 0, pt_build_params = (), pt_search_params = ()\<rparr>]. measured t"
    unfolding list.set ball_simps by blast
  from selected_pareto [OF this] show ?thesis by (rule conjunct1)
qed

end
