(* ===== verification/Opq_Truth.thy ===== *)
theory Opq_Truth
  imports Data_Reader "HOL-Library.Multiset"
begin

text \<open>
  \<open>get_config\<close> and \<open>gpusearch\<close> of \<open>Tools/OPQ/OPQ_gpu_train_infer.py\<close>: exact nearest neighbours of all
  queries over a data file that is searched batch by batch. Each batch's answers go to a text file
  of indices and a binary file of distances; the files are then merged into one answer per query.
  faiss is the argument \<open>fa\<close>: its flat index and the four bytes of a \<open>float32\<close>, which are also what
  \<open>struct.pack('f', x)\<close> writes. \<open>fa_flat\<close> makes a flat index of a metric, a dimension and the option
  \<open>useFloat16\<close>, adds the data and gives its \<open>search\<close>; both may raise. The file system is threaded
  through (its directories are not part of it, so \<open>os.mkdir\<close> leaves it as it is); a run that raises
  ends the program, and its files are not part of the result.
\<close>

section \<open>Command line\<close>

record opq_args =
  oa_data_file :: string
  oa_query_file :: string
  oa_data_normalize :: int
  oa_query_normalize :: int
  oa_data_type :: string
  oa_target_type :: string
  oa_k :: int
  oa_dim :: int
  oa_B :: int
  oa_Q :: int
  oa_S :: int
  oa_D :: string
  oa_output_truth :: string
  oa_data_format :: string
  oa_task :: int
  oa_log_dir :: string
  oa_T :: int
  oa_train_samples :: int
  oa_quan_type :: string
  oa_quan_dim :: int
  oa_output_dir :: string
  oa_output_quantizer :: string
  oa_output_quan_vector_file :: string
  oa_output_rec_vector_file :: string
  oa_quan_test :: int

definition opq_defaults :: opq_args where
  "opq_defaults =
     \<lparr>oa_data_file = ''traindata'', oa_query_file = ''query.tsv'', oa_data_normalize = 0,
      oa_query_normalize = 0, oa_data_type = ''float32'', oa_target_type = ''float32'', oa_k = 32,
      oa_dim = 100, oa_B = - 1, oa_Q = 10000, oa_S = 1000, oa_D = ''L2'', oa_output_truth = ''truth.txt'',
      oa_data_format = ''DEFAULT'', oa_task = 0, oa_log_dir = '''', oa_T = 32, oa_train_samples = 1000000,
      oa_quan_type = ''none'', oa_quan_dim = - 1, oa_output_dir = ''quan_tmp'',
      oa_output_quantizer = ''quantizer.bin'', oa_output_quan_vector_file = '''',
      oa_output_rec_vector_file = '''', oa_quan_test = 0\<rparr>"

definition opq_int :: "string \<Rightarrow> int result" where
  "opq_int v = (case py_int v of Inl _ \<Rightarrow> Inl (SystemExit ''2'') | Inr n \<Rightarrow> Inr n)"

definition opq_option :: "string \<times> string \<Rightarrow> opq_args \<Rightarrow> opq_args result" where
  "opq_option = (\<lambda>(name, v) a.
     if name = ''--data_file'' then Inr (a\<lparr>oa_data_file := v\<rparr>)
     else if name = ''--query_file'' then Inr (a\<lparr>oa_query_file := v\<rparr>)
     else if name = ''--data_normalize'' then bindE (opq_int v) (\<lambda>n. Inr (a\<lparr>oa_data_normalize := n\<rparr>))
     else if name = ''--query_normalize'' then bindE (opq_int v) (\<lambda>n. Inr (a\<lparr>oa_query_normalize := n\<rparr>))
     else if name = ''--data_type'' then Inr (a\<lparr>oa_data_type := v\<rparr>)
     else if name = ''--target_type'' then Inr (a\<lparr>oa_target_type := v\<rparr>)
     else if name = ''--k'' then bindE (opq_int v) (\<lambda>n. Inr (a\<lparr>oa_k := n\<rparr>))
     else if name = ''--dim'' then bindE (opq_int v) (\<lambda>n. Inr (a\<lparr>oa_dim := n\<rparr>))
     else if name = ''--B'' then bindE (opq_int v) (\<lambda>n. Inr (a\<lparr>oa_B := n\<rparr>))
     else if name = ''--Q'' then bindE (opq_int v) (\<lambda>n. Inr (a\<lparr>oa_Q := n\<rparr>))
     else if name = ''--S'' then bindE (opq_int v) (\<lambda>n. Inr (a\<lparr>oa_S := n\<rparr>))
     else if name = ''--D'' then Inr (a\<lparr>oa_D := v\<rparr>)
     else if name = ''--output_truth'' then Inr (a\<lparr>oa_output_truth := v\<rparr>)
     else if name = ''--data_format'' then Inr (a\<lparr>oa_data_format := v\<rparr>)
     else if name = ''--task'' then bindE (opq_int v) (\<lambda>n. Inr (a\<lparr>oa_task := n\<rparr>))
     else if name = ''-log_dir'' then Inr (a\<lparr>oa_log_dir := v\<rparr>)
     else if name = ''--T'' then bindE (opq_int v) (\<lambda>n. Inr (a\<lparr>oa_T := n\<rparr>))
     else if name = ''--train_samples'' then bindE (opq_int v) (\<lambda>n. Inr (a\<lparr>oa_train_samples := n\<rparr>))
     else if name = ''--quan_type'' then Inr (a\<lparr>oa_quan_type := v\<rparr>)
     else if name = ''--quan_dim'' then bindE (opq_int v) (\<lambda>n. Inr (a\<lparr>oa_quan_dim := n\<rparr>))
     else if name = ''--output_dir'' then Inr (a\<lparr>oa_output_dir := v\<rparr>)
     else if name = ''--output_quantizer'' then Inr (a\<lparr>oa_output_quantizer := v\<rparr>)
     else if name = ''--output_quan_vector_file'' then Inr (a\<lparr>oa_output_quan_vector_file := v\<rparr>)
     else if name = ''--output_rec_vector_file'' then Inr (a\<lparr>oa_output_rec_vector_file := v\<rparr>)
     else if name = ''--quan_test'' then bindE (opq_int v) (\<lambda>n. Inr (a\<lparr>oa_quan_test := n\<rparr>))
     else Inl (SystemExit ''2''))"

definition get_config :: "(string \<times> string) list \<Rightarrow> opq_args result" where
  "get_config argv = forE argv opq_option opq_defaults"

section \<open>Searching the batches\<close>

record 'r faiss =
  fa_flat :: "string \<Rightarrow> int \<Rightarrow> bool \<Rightarrow> 'r list \<Rightarrow> ('r list \<Rightarrow> int \<Rightarrow> (pyfloat list \<times> int list) list result) result"
  fa_tobytes :: "pyfloat \<Rightarrow> bytes"
  fa_frombuffer :: "bytes \<Rightarrow> pyfloat"

abbreviation truth_name :: "nat \<Rightarrow> string" where
  "truth_name b \<equiv> ''truth.txt.'' @ str_nat b"

abbreviation dist_name :: "nat \<Rightarrow> string" where
  "dist_name b \<equiv> ''dist.bin.'' @ str_nat b"

definition id_line :: "int list \<Rightarrow> string" where
  "id_line ids = concat (map (\<lambda>i. str_int i @ '' '') ids) @ [nl]"

definition flat_metric :: "opq_args \<Rightarrow> string" where
  "flat_metric args = (if oa_D args \<noteq> ''Cosine'' then ''L2'' else ''IP'')"

definition use_float16 :: "opq_args \<Rightarrow> bool" where
  "use_float16 args = (if oa_target_type args = ''float32'' then False else True)"

definition write_batch ::
  "'r faiss \<Rightarrow> opq_args \<Rightarrow> nat \<Rightarrow> 'r list list \<Rightarrow> 'r list \<Rightarrow> nat \<Rightarrow> filesys \<Rightarrow> filesys result" where
  "write_batch fa args RQ dataQ data batch fs =
     bindE (fa_flat fa (flat_metric args) (oa_dim args) (use_float16 args) data) (\<lambda>index_search.
     bindE (pack_i (int RQ)) (\<lambda>hr.
     bindE (pack_i (oa_k args)) (\<lambda>hk.
     bindE (mapE (\<lambda>query. index_search query (oa_k args)) dataQ) (\<lambda>found.
       Inr (fs(truth_name batch \<mapsto> as_bytes (concat (map (id_line \<circ> snd) (concat found))),
               dist_name batch \<mapsto>
                 hr @ hk @ concat (map (\<lambda>a. concat (map (fa_tobytes fa) (fst a))) (concat found))))))))"

partial_function (option) gpu_batches ::
  "('s \<Rightarrow> ('s \<times> nat \<times> 'r list) result) \<Rightarrow> 'r faiss \<Rightarrow> opq_args \<Rightarrow> nat \<Rightarrow> 'r list list \<Rightarrow> 's \<Rightarrow> nat \<Rightarrow> nat \<Rightarrow> filesys \<Rightarrow>
     (nat \<times> nat \<times> filesys) result option" where
  "gpu_batches get fa args RQ dataQ rd batch totaldata fs =
     (case get rd of Inl e \<Rightarrow> Some (Inl e)
      | Inr (rd', numData, data) \<Rightarrow>
          if numData = 0 then Some (Inr (batch, totaldata, fs))
          else (case write_batch fa args RQ dataQ data (Suc batch) fs of
                  Inl e \<Rightarrow> Some (Inl e)
                | Inr fs' \<Rightarrow> gpu_batches get fa args RQ dataQ rd' (Suc batch) (totaldata + numData) fs'))"

section \<open>Merging\<close>

type_synonym answer = "int \<times> pyfloat"

definition answer_key :: "answer \<Rightarrow> (nat \<times> rat) \<times> int" where
  "answer_key a = (frank (snd a), fst a)"

definition parse_answers :: "int \<Rightarrow> int \<Rightarrow> string \<Rightarrow> pyfloat list \<Rightarrow> answer list result" where
  "parse_answers k offset line currdist =
     (let items = split_ws (butlast line)
      in mapE (\<lambda>j. bindE (py_get items (int j)) (\<lambda>w. bindE (py_int w) (\<lambda>n.
             bindE (py_get currdist (int j)) (\<lambda>d. Inr (n + offset, d))))) [0..<nat k])"

definition truth_update :: "int \<Rightarrow> answer list \<Rightarrow> answer list \<Rightarrow> answer list" where
  "truth_update k old new_answers = py_prefix (sort_key answer_key (old @ new_answers)) k"

definition nth_line :: "string list \<Rightarrow> nat \<Rightarrow> string" where
  "nth_line lns j = (if j < length lns then lns ! j else '''')"

definition merge_batch ::
  "'r faiss \<Rightarrow> opq_args \<Rightarrow> nat \<Rightarrow> filesys \<Rightarrow> nat \<Rightarrow> answer list list \<Rightarrow> answer list list result" where
  "merge_batch fa args RQ fs i truth =
     bindE (open_file fs (truth_name i)) (\<lambda>f.
     bindE (open_file fs (dist_name i)) (\<lambda>fd.
       let (h1, fd1) = fread 4 fd
       in bindE (unpack_i h1) (\<lambda>r.
          let (h2, fd2) = fread 4 fd1
          in bindE (unpack_i h2) (\<lambda>c.
             let body = fst (fread (4 * int RQ * oa_k args) fd2)
             in if int (length body) \<noteq> 4 * int RQ * oa_k args then Inl ValueError
                else
                  let flat = map (fa_frombuffer fa) (all_rows 4 body);
                      kk = nat (oa_k args);
                      lns = lines_of (as_text f)
                  in mapE (\<lambda>j. bindE (parse_answers (oa_k args) (oa_B args * (int i - 1)) (nth_line lns j)
                                 (take kk (drop (j * kk) flat))) (\<lambda>new_answers.
                         Inr (truth_update (oa_k args) (truth ! j) new_answers))) [0..<RQ]))))"

section \<open>The whole search\<close>

definition write_truth ::
  "'r faiss \<Rightarrow> opq_args \<Rightarrow> nat \<Rightarrow> answer list list \<Rightarrow> filesys \<Rightarrow> filesys result" where
  "write_truth fa args RQ truth fs =
     bindE (pack_i (int RQ)) (\<lambda>hr.
     bindE (pack_i (oa_k args)) (\<lambda>hk.
     bindE (mapE (\<lambda>i. mapE (\<lambda>j. bindE (py_get truth (int i)) (\<lambda>row. bindE (py_get row (int j)) (\<lambda>a.
              bindE (pack_i (fst a)) (\<lambda>b. Inr (fst a, b @ fa_tobytes fa (snd a)))))) [0..<nat (oa_k args)]) [0..<RQ]) (\<lambda>rows.
       Inr (fs(oa_output_truth args \<mapsto> as_bytes (concat (map (\<lambda>row. id_line (map fst row)) rows)),
               oa_output_truth args @ ''.dist'' @ [CHR 0x5C] @ ''dist.bin.'' @ str_int (oa_task args) \<mapsto>
                 hr @ hk @ concat (map (\<lambda>row. concat (map snd row)) rows))))))"

definition gpusearch ::
  "'v numpy \<Rightarrow> 'v list faiss \<Rightarrow> opq_args \<Rightarrow> filesys \<Rightarrow> (opq_args \<times> answer list list \<times> filesys) result option" where
  "gpusearch np fa args fs =
     (case DataReader_init np fs (oa_data_file args) (oa_dim args) (oa_B args) (oa_data_normalize args) (oa_data_type args) (oa_target_type args) of
        Inl e \<Rightarrow> Some (Inl e)
      | Inr datareader \<Rightarrow>
     (case DataReader_init np fs (oa_query_file args) (oa_dim args) (oa_Q args) (oa_query_normalize args) (oa_data_type args) (oa_target_type args) of
        Inl e \<Rightarrow> Some (Inl e)
      | Inr queryreader \<Rightarrow>
     (case readallbatches np queryreader of None \<Rightarrow> None
      | Some (Inl e) \<Rightarrow> Some (Inl e)
      | Some (Inr (qr, RQ, dataQ)) \<Rightarrow>
     (case gpu_batches (readbatch np) fa args RQ dataQ datareader 0 0 fs of None \<Rightarrow> None
      | Some (Inl e) \<Rightarrow> Some (Inl e)
      | Some (Inr (batch, totaldata, fs1)) \<Rightarrow>
          (let args1 = (if oa_B args \<le> 0 \<or> int totaldata \<le> oa_B args then args\<lparr>oa_B := int totaldata\<rparr> else args)
           in Some (bindE (forE [1..<batch + 1] (merge_batch fa args1 RQ fs1) (replicate RQ [])) (\<lambda>truth.
                    bindE (write_truth fa args1 RQ truth fs1) (\<lambda>fs2. Inr (args1, truth, fs2)))))))))"

section \<open>Merging keeps the nearest\<close>

lemma answer_key_inj: "inj answer_key"
proof (rule injI)
  fix a b assume "answer_key a = answer_key b"
  moreover have "frank x = frank y \<Longrightarrow> x = y" for x y by (cases x; cases y) auto
  ultimately show "a = b" by (auto simp: answer_key_def prod_eq_iff)
qed

lemma sorted_answer_split:
  assumes "a \<in> set (take k (sort_key answer_key L))" and "b \<in> set (drop k (sort_key answer_key L))"
  shows "answer_key a \<le> answer_key b"
proof -
  have "sorted (map answer_key (take k (sort_key answer_key L) @ drop k (sort_key answer_key L)))" by simp
  with assms show ?thesis unfolding map_append sorted_append by auto
qed

lemma answer_key_leD: "answer_key a \<le> answer_key b \<Longrightarrow> frank (snd a) \<le> frank (snd b)"
  unfolding answer_key_def less_eq_prod_def [of "(frank (snd a), fst a)"] by auto

text \<open>The specification of an answer: \<open>k\<close> distinct members of \<open>S\<close> with their distances, and no other
  member of \<open>S\<close> is nearer than any of them. Ties may be broken either way.\<close>

definition is_knn :: "(nat \<Rightarrow> pyfloat) \<Rightarrow> nat set \<Rightarrow> nat \<Rightarrow> answer list \<Rightarrow> bool" where
  "is_knn d S k res \<longleftrightarrow>
     length res = k \<and> distinct (map fst res) \<and> (\<forall>a\<in>set res. \<exists>g\<in>S. a = (int g, d g)) \<and>
     (\<forall>g\<in>S. int g \<notin> fst ` set res \<longrightarrow> (\<forall>a\<in>set res. frank (snd a) \<le> frank (d g)))"

lemma is_knn_member:
  "is_knn d S k res \<Longrightarrow> g \<in> S \<Longrightarrow> int g \<in> fst ` set res \<Longrightarrow> (int g, d g) \<in> set res"
  unfolding is_knn_def by force

lemma is_knn_sort:
  assumes "is_knn d S k res"
  shows "is_knn d S k (take k (sort_key answer_key res))"
proof -
  have len: "length res = k" using assms by (simp add: is_knn_def)
  then have "take k (sort_key answer_key res) = sort_key answer_key res" by simp
  moreover have "distinct (map fst (sort_key answer_key res))"
    using assms by (simp add: is_knn_def distinct_map)
  ultimately show ?thesis using assms by (simp add: is_knn_def)
qed

lemma is_knn_merge_one:
  assumes A: "is_knn d S k A" and B: "is_knn d T k B" and g: "g \<in> S" "int g \<notin> fst ` set A"
    and m: "m \<in> set (take k (sort_key answer_key (A @ B)))" and disj: "S \<inter> T = {}"
  shows "frank (snd m) \<le> frank (d g)"
proof (rule ccontr)
  assume "\<not> ?thesis"
  then have far: "frank (d g) < frank (snd m)" by simp
  let ?M = "take k (sort_key answer_key (A @ B))"
  have near: "frank (snd a) \<le> frank (d g)" if "a \<in> set A" for a
    using A g that by (auto simp: is_knn_def)
  then have mA: "m \<notin> set A" using far by fastforce
  have "set A \<subseteq> set ?M"
  proof
    fix a assume a: "a \<in> set A"
    show "a \<in> set ?M"
    proof (rule ccontr)
      assume no: "a \<notin> set ?M"
      have "set ?M \<union> set (drop k (sort_key answer_key (A @ B))) = set (A @ B)"
        by (metis append_take_drop_id set_append set_sort)
      with no a have "a \<in> set (drop k (sort_key answer_key (A @ B)))" by auto
      from answer_key_leD [OF sorted_answer_split [OF m this]] near [OF a] far show False by simp
    qed
  qed
  with m have "insert m (set A) \<subseteq> set ?M" by simp
  then have "card (insert m (set A)) \<le> card (set ?M)" by (intro card_mono) auto
  also have "\<dots> \<le> k" by (rule le_trans [OF card_length]) simp
  finally have "Suc (card (set A)) \<le> k" using mA by simp
  moreover have "card (set A) = k"
    using A by (metis is_knn_def distinct_card distinct_map)
  ultimately show False by simp
qed

lemma map_sort_answers: "map answer_key (sort_key answer_key L) = sort (map answer_key L)"
  by (rule properties_for_sort [symmetric]) simp_all

lemma take_sort_commute: "take k (sort_key answer_key (A @ B)) = take k (sort_key answer_key (B @ A))"
proof -
  have "sort (map answer_key (A @ B)) = sort (map answer_key (B @ A))"
    by (rule properties_for_sort) simp_all
  then have "map answer_key (sort_key answer_key (A @ B)) = map answer_key (sort_key answer_key (B @ A))"
    by (simp only: map_sort_answers)
  then show ?thesis using answer_key_inj by (simp add: inj_map_eq_map)
qed

lemma is_knn_merge:
  assumes A: "is_knn d S k A" and B: "is_knn d T k B" and disj: "S \<inter> T = {}"
  shows "is_knn d (S \<union> T) k (take k (sort_key answer_key (A @ B)))"
proof -
  let ?M = "take k (sort_key answer_key (A @ B))"
  have len: "length ?M = k" using A B by (simp add: is_knn_def)
  have ids: "fst ` set A \<inter> fst ` set B = {}"
    using A B disj by (force simp: is_knn_def)
  then have "distinct (map fst (A @ B))" using A B by (simp add: is_knn_def)
  then have "distinct (map fst (sort_key answer_key (A @ B)))"
    by (simp only: distinct_map distinct_sort set_sort)
  then have dist: "distinct (map fst ?M)" by (metis distinct_take take_map)
  have sub: "set ?M \<subseteq> set (A @ B)" using set_take_subset by fastforce
  then have mem: "\<forall>a\<in>set ?M. \<exists>g\<in>S \<union> T. a = (int g, d g)" using A B by (fastforce simp: is_knn_def)
  have "frank (snd m) \<le> frank (d g)" if g: "g \<in> S \<union> T" "int g \<notin> fst ` set ?M" and m: "m \<in> set ?M" for g m
  proof (cases "(int g, d g) \<in> set (A @ B)")
    case True
    have "(int g, d g) \<notin> set ?M" using g(2) by force
    moreover have "set ?M \<union> set (drop k (sort_key answer_key (A @ B))) = set (A @ B)"
      by (metis append_take_drop_id set_append set_sort)
    ultimately have "(int g, d g) \<in> set (drop k (sort_key answer_key (A @ B)))" using True by auto
    from answer_key_leD [OF sorted_answer_split [OF m this]] show ?thesis by simp
  next
    case False
    show ?thesis
    proof (cases "g \<in> S")
      case True
      with False is_knn_member [OF A] have "int g \<notin> fst ` set A" by auto
      from is_knn_merge_one [OF A B True this m disj] show ?thesis .
    next
      case gT: False
      with g(1) have T: "g \<in> T" by simp
      with False is_knn_member [OF B] have "int g \<notin> fst ` set B" by auto
      from is_knn_merge_one [OF B A T this] m disj show ?thesis by (metis inf_commute take_sort_commute)
    qed
  qed
  with len dist mem show ?thesis by (auto simp: is_knn_def)
qed

section \<open>Batch files read back\<close>

lemma ws_facts [simp]: "is_ws (CHR '' '')" "is_ws nl"
  by code_simp+

lemma id_line_body: "split_ws (concat (map (\<lambda>i. str_int i @ '' '') ids)) = map str_int ids"
proof (induction ids)
  case (Cons i ids)
  have "split_aux [] (str_int i @ '' '' @ concat (map (\<lambda>i. str_int i @ '' '') ids)) =
      split_aux (rev (str_int i)) ('' '' @ concat (map (\<lambda>i. str_int i @ '' '') ids))"
    using str_int_no_ws by (subst split_aux_word) auto
  moreover have "str_int i \<noteq> []" by (auto simp: str_int_def)
  ultimately show ?case using Cons by (simp add: split_ws_def)
qed (simp add: split_ws_def)

lemma lines_of_id_lines: "lines_of (concat (map id_line idss)) = map id_line idss"
proof -
  have "nl \<notin> set (concat (map (\<lambda>i. str_int i @ '' '') ids))" for ids
  proof
    assume "nl \<in> set (concat (map (\<lambda>i. str_int i @ '' '') ids))"
    then obtain i where "nl \<in> set (str_int i @ '' '')" by (auto split: if_splits)
    moreover have "nl \<noteq> CHR '' ''" by (simp add: nl_def)
    ultimately show False using str_int_no_ws [of nl i] ws_facts(2) by auto
  qed
  then have "lines_of (concat (map (\<lambda>w. w @ [nl]) (map (\<lambda>ids. concat (map (\<lambda>i. str_int i @ '' '') ids)) idss))) =
      map (\<lambda>w. w @ [nl]) (map (\<lambda>ids. concat (map (\<lambda>i. str_int i @ '' '') ids)) idss)"
    by (intro lines_of_rows) auto
  moreover have "id_line = (\<lambda>ids. concat (map (\<lambda>i. str_int i @ '' '') ids) @ [nl])"
    by (rule ext) (simp add: id_line_def)
  ultimately show ?thesis by (simp add: comp_def)
qed

lemma parse_id_line:
  assumes "length ids = k" and "length ds = k"
  shows "parse_answers (int k) off (id_line ids) ds = Inr (map (\<lambda>(n, d). (n + off, d)) (zip ids ds))"
proof -
  have items: "split_ws (butlast (id_line ids)) = map str_int ids"
    by (simp add: id_line_def id_line_body)
  have "mapE (\<lambda>j. bindE (py_get (map str_int ids) (int j)) (\<lambda>w. bindE (py_int w) (\<lambda>n.
      bindE (py_get ds (int j)) (\<lambda>d. Inr (n + off, d))))) [0..<k] = Inr (map (\<lambda>j. (ids ! j + off, ds ! j)) [0..<k])"
    using assms by (intro mapE_total) (simp add: py_int_str_int)
  moreover have "map (\<lambda>j. (ids ! j + off, ds ! j)) [0..<k] = map (\<lambda>(n, d). (n + off, d)) (zip ids ds)"
    using assms by (intro nth_equalityI) auto
  ultimately show ?thesis unfolding parse_answers_def items Let_def by simp
qed

lemma take_drop_concat:
  "\<forall>r\<in>set rs. length r = k \<Longrightarrow> j < length rs \<Longrightarrow> take k (drop (j * k) (concat rs)) = rs ! j"
proof (induction rs arbitrary: j)
  case (Cons r rs)
  then show ?case by (cases j) auto
qed simp

definition f32_ok :: "'r faiss \<Rightarrow> pyfloat \<Rightarrow> bool" where
  "f32_ok fa d \<longleftrightarrow> length (fa_tobytes fa d) = 4 \<and> fa_frombuffer fa (fa_tobytes fa d) = d"

definition batch_written :: "'r faiss \<Rightarrow> nat \<Rightarrow> (pyfloat list \<times> int list) list \<Rightarrow> nat \<Rightarrow> filesys \<Rightarrow> bool" where
  "batch_written fa k ans b fs \<longleftrightarrow>
     fs (truth_name b) = Some (as_bytes (concat (map (id_line \<circ> snd) ans))) \<and>
     fs (dist_name b) = Some (le_bytes 4 (int (length ans)) @ le_bytes 4 (int k) @
        concat (map (\<lambda>a. concat (map (fa_tobytes fa) (fst a))) ans))"

lemma flat_read_back:
  assumes "\<forall>a\<in>set ans. \<forall>d\<in>set (fst a). f32_ok fa d"
  shows "map (fa_frombuffer fa) (all_rows 4 (concat (map (\<lambda>a. concat (map (fa_tobytes fa) (fst a))) ans))) = concat (map fst ans)"
proof -
  let ?rs = "concat (map (\<lambda>a. map (fa_tobytes fa) (fst a)) ans)"
  have "concat (map (\<lambda>a. concat (map (fa_tobytes fa) (fst a))) ans) = concat ?rs @ []"
    by (induction ans) auto
  moreover have "all_rows 4 (concat ?rs @ []) = ?rs"
    using assms by (intro all_rows_concat) (auto simp: f32_ok_def)
  moreover have "map (fa_frombuffer fa) ?rs = concat (map fst ans)"
    using assms by (induction ans) (auto simp: f32_ok_def intro!: map_idI)
  ultimately show ?thesis by simp
qed

lemma merge_batch_read:
  assumes w: "batch_written fa k ans b fs" and k: "oa_k args = int k" "0 < k" "k < 2147483648"
    and len: "length ans < 2147483648" "\<forall>a\<in>set ans. length (fst a) = k \<and> length (snd a) = k"
    and f32: "\<forall>a\<in>set ans. \<forall>d\<in>set (fst a). f32_ok fa d"
  shows "merge_batch fa args (length ans) fs b truth =
    Inr (map (\<lambda>j. truth_update (int k) (truth ! j)
      (map (\<lambda>(n, d). (n + oa_B args * (int b - 1), d)) (zip (snd (ans ! j)) (fst (ans ! j))))) [0..<length ans])"
proof -
  let ?body = "concat (map (\<lambda>a. concat (map (fa_tobytes fa) (fst a))) ans)"
  have blen: "length ?body = 4 * (length ans * k)"
    using len(2) f32 by (induction ans) (auto simp: length_concat f32_ok_def comp_def sum_list_triv cong: map_cong)
  have fread: "fst (fread (4 * int (length ans) * oa_k args) ?body) = ?body"
    using fread_nat [of "4 * (length ans * k)" ?body] blen by (simp add: k mult.assoc)
  have "mapE (\<lambda>j. bindE (parse_answers (oa_k args) (oa_B args * (int b - 1))
        (nth_line (map (id_line \<circ> snd) ans) j) (take k (drop (j * k) (concat (map fst ans))))) (\<lambda>new_answers.
        Inr (truth_update (oa_k args) (truth ! j) new_answers))) [0..<length ans] =
      Inr (map (\<lambda>j. truth_update (int k) (truth ! j)
      (map (\<lambda>(n, d). (n + oa_B args * (int b - 1), d)) (zip (snd (ans ! j)) (fst (ans ! j))))) [0..<length ans])"
  proof (rule mapE_total)
    fix j assume "j \<in> set [0..<length ans]"
    then have j: "j < length ans" by simp
    then have "ans ! j \<in> set ans" by simp
    with len(2) have lj: "length (fst (ans ! j)) = k" "length (snd (ans ! j)) = k" by auto
    have "take k (drop (j * k) (concat (map fst ans))) = fst (ans ! j)"
      using len(2) j by (subst take_drop_concat) auto
    moreover have "nth_line (map (id_line \<circ> snd) ans) j = id_line (snd (ans ! j))"
      using j by (simp add: nth_line_def)
    ultimately show "bindE (parse_answers (oa_k args) (oa_B args * (int b - 1))
        (nth_line (map (id_line \<circ> snd) ans) j) (take k (drop (j * k) (concat (map fst ans))))) (\<lambda>new_answers.
        Inr (truth_update (oa_k args) (truth ! j) new_answers)) =
        Inr (truth_update (int k) (truth ! j) (map (\<lambda>(n, d). (n + oa_B args * (int b - 1), d)) (zip (snd (ans ! j)) (fst (ans ! j)))))"
      using lj by (simp add: k(1) parse_id_line)
  qed
  moreover have "lines_of (concat (map (id_line \<circ> snd) ans)) = map (id_line \<circ> snd) ans"
    using lines_of_id_lines [of "map snd ans"] by simp
  ultimately show ?thesis
    using w k len(1) fread blen flat_read_back [OF f32]
    by (simp add: merge_batch_def batch_written_def open_file_def Let_def comp_def)
qed

section \<open>The loop over the batches\<close>

definition batch_answers ::
  "'r faiss \<Rightarrow> opq_args \<Rightarrow> 'r list list \<Rightarrow> 'r list \<Rightarrow> (pyfloat list \<times> int list) list result" where
  "batch_answers fa args dataQ data =
     bindE (fa_flat fa (flat_metric args) (oa_dim args) (use_float16 args) data) (\<lambda>index_search.
     bindE (mapE (\<lambda>query. index_search query (oa_k args)) dataQ) (\<lambda>found. Inr (concat found)))"

lemma name_neq: "truth_name a \<noteq> dist_name b" "truth_name a = truth_name b \<longleftrightarrow> a = b" "dist_name a = dist_name b \<longleftrightarrow> a = b"
  by (auto dest: arg_cong [of _ _ nat_of_digits])

lemma write_batch_ok:
  assumes "oa_k args = int k" and "k < 2147483648" and "RQ < 2147483648"
    and "batch_answers fa args dataQ data = Inr ans" and "length ans = RQ"
  shows "\<exists>fs'. write_batch fa args RQ dataQ data b fs = Inr fs' \<and> batch_written fa k ans b fs' \<and>
    (\<forall>n. n \<noteq> truth_name b \<longrightarrow> n \<noteq> dist_name b \<longrightarrow> fs' n = fs n)"
  using assms
  by (auto simp: write_batch_def pack_i_ok batch_written_def batch_answers_def bindE_eq_Inr name_neq)

lemma batch_written_frame:
  assumes "batch_written fa k ans a fs" and "a \<noteq> b" and "\<forall>n. n \<noteq> truth_name b \<longrightarrow> n \<noteq> dist_name b \<longrightarrow> fs' n = fs n"
  shows "batch_written fa k ans a fs'"
proof -
  have "fs' (truth_name a) = fs (truth_name a)" "fs' (dist_name a) = fs (dist_name a)"
    using assms(2,3) name_neq by metis+
  with assms(1) show ?thesis by (simp add: batch_written_def)
qed

context batch_source
begin

lemma gpu_batches_all:
  assumes cap: "0 < cap" and k: "oa_k args = int k" "k < 2147483648" "RQ < 2147483648"
    and RQ: "\<And>data. data \<in> set (chunks cap (pending s)) \<Longrightarrow> batch_answers fa args dataQ data = Inr (ans data) \<and> length (ans data) = RQ"
    and "ok s"
  shows "\<exists>fs'. gpu_batches get fa args RQ dataQ s b tot fs =
      Some (Inr (b + length (chunks cap (pending s)), tot + length (pending s), fs')) \<and>
    (\<forall>i<length (chunks cap (pending s)). batch_written fa k (ans (chunks cap (pending s) ! i)) (b + 1 + i) fs') \<and>
    (\<forall>n. (\<forall>i>b. n \<noteq> truth_name i \<and> n \<noteq> dist_name i) \<longrightarrow> fs' n = fs n)"
  using assms(5,6)
proof (induction "length (pending s)" arbitrary: s b tot fs rule: less_induct)
  case less
  from get_ok [OF less.prems(2)] obtain s' where
    get: "get s = Inr (s', min cap (length (pending s)), take cap (pending s))"
    and s': "ok s'" "pending s' = drop cap (pending s)" by blast
  show ?case
  proof (cases "pending s = []")
    case True
    with get show ?thesis by (subst gpu_batches.simps) simp
  next
    case False
    define c where "c = take cap (pending s)"
    have chunks: "chunks cap (pending s) = c # chunks cap (pending s')"
      using False cap by (simp add: chunks_step s' c_def)
    have len: "batch_answers fa args dataQ c = Inr (ans c)" "length (ans c) = RQ"
      using less.prems(1) [of c] by (simp_all add: chunks)
    from write_batch_ok [OF k len, of "Suc b" fs] obtain fs1 where
      w: "write_batch fa args RQ dataQ c (Suc b) fs = Inr fs1" "batch_written fa k (ans c) (Suc b) fs1"
        "\<forall>n. n \<noteq> truth_name (Suc b) \<longrightarrow> n \<noteq> dist_name (Suc b) \<longrightarrow> fs1 n = fs n" by blast
    have small: "length (pending s') < length (pending s)" using False cap s' by simp
    have RQ': "\<And>data. data \<in> set (chunks cap (pending s')) \<Longrightarrow> batch_answers fa args dataQ data = Inr (ans data) \<and> length (ans data) = RQ"
      by (rule less.prems(1)) (simp add: chunks)
    from less.hyps [OF small RQ' s'(1), of "Suc b" "tot + min cap (length (pending s))" fs1] obtain fs' where
      rec: "gpu_batches get fa args RQ dataQ s' (Suc b) (tot + min cap (length (pending s))) fs1 =
        Some (Inr (Suc b + length (chunks cap (pending s')), tot + min cap (length (pending s)) + length (pending s'), fs'))"
      and wr: "\<forall>i<length (chunks cap (pending s')). batch_written fa k (ans (chunks cap (pending s') ! i)) (Suc b + 1 + i) fs'"
      and fr: "\<forall>n. (\<forall>i>Suc b. n \<noteq> truth_name i \<and> n \<noteq> dist_name i) \<longrightarrow> fs' n = fs1 n" by blast
    have "gpu_batches get fa args RQ dataQ s b tot fs =
        Some (Inr (b + length (chunks cap (pending s)), tot + length (pending s), fs'))"
      using get w(1) rec False cap s' by (subst gpu_batches.simps) (auto simp: c_def [symmetric] chunks)
    moreover have "batch_written fa k (ans c) (Suc b) fs'"
    proof -
      have "fs' (truth_name (Suc b)) = fs1 (truth_name (Suc b))" "fs' (dist_name (Suc b)) = fs1 (dist_name (Suc b))"
        using fr name_neq by (metis less_irrefl)+
      with w(2) show ?thesis by (simp add: batch_written_def)
    qed
    moreover have "batch_written fa k (ans (chunks cap (pending s) ! i)) (b + 1 + i) fs'"
      if "i < length (chunks cap (pending s))" for i
      using that wr calculation(2) by (cases i) (auto simp: chunks)
    moreover have "fs' n = fs n" if "\<forall>i>b. n \<noteq> truth_name i \<and> n \<noteq> dist_name i" for n
      using that fr w(3) by (metis Suc_lessD lessI)
    ultimately show ?thesis by blast
  qed
qed

end

section \<open>Exactness\<close>

lemma nth_chunks: "0 < n \<Longrightarrow> i < length (chunks n xs) \<Longrightarrow> chunks n xs ! i = take n (drop (i * n) xs) \<and> i * n < length xs"
proof (induction n xs arbitrary: i rule: chunks.induct)
  case (1 n xs)
  show ?case
  proof (cases "xs = []")
    case False
    then have c: "chunks n xs = take n xs # chunks n (drop n xs)" using 1 by (simp add: chunks_step)
    show ?thesis
    proof (cases i)
      case (Suc j)
      with 1 c False have "chunks n (drop n xs) ! j = take n (drop (j * n) (drop n xs)) \<and> j * n < length (drop n xs)"
        by auto
      with Suc c show ?thesis by (auto simp: add.commute)
    qed (use c False in simp)
  qed (use 1 in simp)
qed

lemma length_chunks_cover: "0 < n \<Longrightarrow> length xs \<le> length (chunks n xs) * n"
proof (induction n xs rule: chunks.induct)
  case (1 n xs)
  then show ?case by (cases "xs = []") (auto simp: chunks_step)
qed

lemma is_knn_shift:
  assumes "is_knn (\<lambda>l. d (off + l)) {..<m} k R"
  shows "is_knn d {off..<off + m} k (map (\<lambda>(n, x). (n + int off, x)) R)"
proof -
  have ids: "map fst (map (\<lambda>(n, x). (n + int off, x)) R) = map (\<lambda>n. n + int off) (map fst R)"
    by (simp add: comp_def case_prod_beta)
  have "distinct (map fst (map (\<lambda>(n, x). (n + int off, x)) R))"
    unfolding ids using assms by (subst distinct_map) (auto simp: is_knn_def inj_on_def)
  moreover have "frank (snd a) \<le> frank (d g)"
    if g: "g \<in> {off..<off + m}" "int g \<notin> fst ` set (map (\<lambda>(n, x). (n + int off, x)) R)"
      and a: "a \<in> set (map (\<lambda>(n, x). (n + int off, x)) R)" for g a
  proof -
    from g(1) obtain l where l: "g = off + l" "l < m" by (metis atLeastLessThan_iff le_Suc_ex nat_add_left_cancel_less)
    have "int l \<notin> fst ` set R" using g(2) l by (force simp: image_iff)
    with assms l a show ?thesis by (fastforce simp: is_knn_def)
  qed
  moreover have "\<forall>a\<in>set (map (\<lambda>(n, x). (n + int off, x)) R). \<exists>g\<in>{off..<off + m}. a = (int g, d g)"
  proof
    fix a assume "a \<in> set (map (\<lambda>(n, x). (n + int off, x)) R)"
    then obtain b where b: "b \<in> set R" "a = (fst b + int off, snd b)" by (auto simp: case_prod_beta)
    with assms obtain l where "l < m" "b = (int l, d (off + l))" by (auto simp: is_knn_def)
    with b show "\<exists>g\<in>{off..<off + m}. a = (int g, d g)" by (intro bexI [of _ "off + l"]) auto
  qed
  ultimately show ?thesis using assms by (auto simp: is_knn_def)
qed

definition knn_answers ::
  "('r \<Rightarrow> 'r \<Rightarrow> pyfloat) \<Rightarrow> 'r list \<Rightarrow> nat \<Rightarrow> 'r list \<Rightarrow> (pyfloat list \<times> int list) list \<Rightarrow> bool" where
  "knn_answers ds data k qs ans \<longleftrightarrow>
     list_all2 (\<lambda>q a. length (fst a) = k \<and> length (snd a) = k \<and>
       is_knn (\<lambda>l. ds q (data ! l)) {..<length data} k (zip (snd a) (fst a))) qs ans"

text \<open>What the search relies on: faiss documents its flat L2 index as exact for vectors of its
  dimension, and numpy's bytes of a \<open>float32\<close> as reversible. \<open>ds\<close> is the distance that the index
  computes, with or without \<open>useFloat16\<close>.\<close>

definition lawful_flat :: "'v list faiss \<Rightarrow> int \<Rightarrow> bool \<Rightarrow> ('v list \<Rightarrow> 'v list \<Rightarrow> pyfloat) \<Rightarrow> bool" where
  "lawful_flat fa w f16 ds \<longleftrightarrow>
     (\<forall>data. (\<forall>v\<in>set data. int (length v) = w) \<longrightarrow>
        (\<exists>index_search. fa_flat fa ''L2'' w f16 data = Inr index_search \<and>
          (\<forall>qs k. (\<forall>q\<in>set qs. int (length q) = w) \<longrightarrow> 0 < k \<longrightarrow> k \<le> length data \<longrightarrow>
             (\<exists>ans. index_search qs (int k) = Inr ans \<and> knn_answers ds data k qs ans)))) \<and>
     (\<forall>q v. f32_ok fa (ds q v))"

lemma knn_answers_length: "knn_answers ds data k qs ans \<Longrightarrow> length ans = length qs"
  unfolding knn_answers_def by (drule list_all2_lengthD) simp

lemma knn_answers_append:
  "knn_answers ds data k qs ans \<Longrightarrow> knn_answers ds data k qs' ans' \<Longrightarrow>
   knn_answers ds data k (qs @ qs') (ans @ ans')"
  by (simp add: knn_answers_def list_all2_appendI)

lemma search_all_knn:
  assumes "\<forall>qs\<in>set dataQ. \<exists>ans. index_search qs (int k) = Inr ans \<and> knn_answers ds data k qs ans"
  shows "\<exists>found. mapE (\<lambda>query. index_search query (int k)) dataQ = Inr found \<and>
    knn_answers ds data k (concat dataQ) (concat found)"
  using assms
proof (induction dataQ)
  case (Cons qs dataQ)
  then obtain ans found where "index_search qs (int k) = Inr ans" "knn_answers ds data k qs ans"
    "mapE (\<lambda>query. index_search query (int k)) dataQ = Inr found" "knn_answers ds data k (concat dataQ) (concat found)"
    by auto
  then show ?case by (simp add: knn_answers_append)
qed (simp add: knn_answers_def)

lemma batch_answers_knn:
  assumes law: "lawful_flat fa (oa_dim args) (use_float16 args) ds"
    and "oa_D args \<noteq> ''Cosine''" and k: "oa_k args = int k" "0 < k" "k \<le> length data"
    and dims: "\<forall>v\<in>set data. int (length v) = oa_dim args" "\<forall>q\<in>set (concat dataQ). int (length q) = oa_dim args"
  shows "\<exists>ans. batch_answers fa args dataQ data = Inr ans \<and> knn_answers ds data k (concat dataQ) ans"
proof -
  from law dims(1) obtain index_search where
    i: "fa_flat fa ''L2'' (oa_dim args) (use_float16 args) data = Inr index_search"
      "\<forall>qs k. (\<forall>q\<in>set qs. int (length q) = oa_dim args) \<longrightarrow> 0 < k \<longrightarrow> k \<le> length data \<longrightarrow>
         (\<exists>ans. index_search qs (int k) = Inr ans \<and> knn_answers ds data k qs ans)"
    unfolding lawful_flat_def by blast
  have "\<forall>qs\<in>set dataQ. \<exists>ans. index_search qs (int k) = Inr ans \<and> knn_answers ds data k qs ans"
    using i(2) k(2,3) dims(2) by simp
  from search_all_knn [where index_search = index_search, OF this] i(1) assms(2) k(1) show ?thesis
    by (auto simp: batch_answers_def flat_metric_def)
qed

lemma answers_f32:
  assumes "lawful_flat fa w f16 ds" and "a \<in> set ans" and "knn_answers ds data k qs ans"
  shows "(\<forall>d\<in>set (fst a). f32_ok fa d) \<and> length (fst a) = k \<and> length (snd a) = k"
proof -
  from assms(2) obtain j where j: "j < length ans" "ans ! j = a" by (auto simp: in_set_conv_nth)
  from list_all2_nthD2 [OF assms(3) [unfolded knn_answers_def] j(1)] j(2) obtain q where
    q: "length (fst a) = k" "length (snd a) = k" "is_knn (\<lambda>l. ds q (data ! l)) {..<length data} k (zip (snd a) (fst a))"
    by auto
  have "f32_ok fa d" if "d \<in> set (fst a)" for d
  proof -
    from that have "d \<in> set (map snd (zip (snd a) (fst a)))" using q(1,2) by simp
    then obtain p where "p \<in> set (zip (snd a) (fst a))" "d = snd p" by auto
    with q(3) obtain l where "d = ds q (data ! l)" by (fastforce simp: is_knn_def)
    with assms(1) show ?thesis by (simp add: lawful_flat_def)
  qed
  with q show ?thesis by blast
qed

text \<open>One round of the merge loop.\<close>

lemma merge_round:
  fixes ds :: "'v list \<Rightarrow> 'v list \<Rightarrow> pyfloat" and rows :: "'v list list"
  assumes law: "lawful_flat fa w f16 ds" and k: "0 < k" "k < 2147483648"
    and RQ: "length qs < 2147483648" and i: "i < length (chunks B rows)" "0 < B"
    and knn: "knn_answers ds (chunks B rows ! i) k qs ans"
    and w: "batch_written fa k ans (Suc i) fs"
    and args1: "oa_k args1 = int k" "oa_B args1 * int i = int (i * B)"
    and truth: "length truth = length qs"
      "\<forall>j<length qs. if i = 0 then truth ! j = [] else is_knn (\<lambda>g. ds (qs ! j) (rows ! g)) {..<i * B} k (truth ! j)"
  shows "\<exists>truth'. merge_batch fa args1 (length qs) fs (Suc i) truth = Inr truth' \<and> length truth' = length qs \<and>
    (\<forall>j<length qs. is_knn (\<lambda>g. ds (qs ! j) (rows ! g)) {..<i * B + length (chunks B rows ! i)} k (truth' ! j))"
proof -
  define c where "c = chunks B rows ! i"
  note knn = knn [folded c_def]
  note all = knn [unfolded knn_answers_def]
  have len: "length ans = length qs" using knn by (rule knn_answers_length)
  have c: "c = take B (drop (i * B) rows)" "i * B < length rows" using nth_chunks [OF i(2,1)] by (simp_all add: c_def)
  let ?shift = "\<lambda>j. map (\<lambda>(n, d). (n + int (i * B), d)) (zip (snd (ans ! j)) (fst (ans ! j)))"
  have m: "merge_batch fa args1 (length ans) fs (Suc i) truth =
      Inr (map (\<lambda>j. truth_update (int k) (truth ! j) (?shift j)) [0..<length ans])"
    using merge_batch_read [OF w args1(1) k] len RQ answers_f32 [OF law _ knn] args1(2)
    by simp
  have "is_knn (\<lambda>g. ds (qs ! j) (rows ! g)) {..<i * B + length c} k (truth_update (int k) (truth ! j) (?shift j))"
    if j: "j < length qs" for j
  proof -
    have "is_knn (\<lambda>l. ds (qs ! j) (c ! l)) {..<length c} k (zip (snd (ans ! j)) (fst (ans ! j)))"
      using list_all2_nthD [OF all j] by simp
    moreover have "c ! l = rows ! (i * B + l)" if "l < length c" for l
      using that c(2) by (simp add: c(1))
    ultimately have "is_knn (\<lambda>l. ds (qs ! j) (rows ! (i * B + l))) {..<length c} k (zip (snd (ans ! j)) (fst (ans ! j)))"
      by (auto simp: is_knn_def)
    then have new: "is_knn (\<lambda>g. ds (qs ! j) (rows ! g)) {i * B..<i * B + length c} k (?shift j)"
      by (rule is_knn_shift)
    show ?thesis
    proof (cases "i = 0")
      case True
      with new is_knn_sort [OF new] truth(2) j show ?thesis
        by (simp add: truth_update_def lessThan_atLeast0)
    next
      case False
      then have "is_knn (\<lambda>g. ds (qs ! j) (rows ! g)) {..<i * B} k (truth ! j)" using truth(2) j by auto
      moreover have "{..<i * B} \<inter> {i * B..<i * B + length c} = {}" by auto
      ultimately have "is_knn (\<lambda>g. ds (qs ! j) (rows ! g)) ({..<i * B} \<union> {i * B..<i * B + length c}) k
          (take k (sort_key answer_key (truth ! j @ ?shift j)))" using new by (intro is_knn_merge)
      then show ?thesis by (simp add: truth_update_def ivl_disj_un)
    qed
  qed
  with m len show ?thesis by (simp add: c_def)
qed

lemma merge_rounds:
  fixes ds :: "'v list \<Rightarrow> 'v list \<Rightarrow> pyfloat" and rows :: "'v list list"
  assumes law: "lawful_flat fa w f16 ds" and k: "0 < k" "k < 2147483648"
    and RQ: "length qs < 2147483648" and B: "0 < B"
    and knn: "\<forall>c\<in>set (chunks B rows). knn_answers ds c k qs (ans c)"
    and w: "\<forall>i<length (chunks B rows). batch_written fa k (ans (chunks B rows ! i)) (Suc i) fs"
    and args1: "oa_k args1 = int k" "\<forall>i<length (chunks B rows). oa_B args1 * int i = int (i * B)"
  shows "m \<le> length (chunks B rows) \<Longrightarrow>
    \<exists>truth. forE [1..<m + 1] (merge_batch fa args1 (length qs) fs) (replicate (length qs) []) = Inr truth \<and>
      length truth = length qs \<and>
      (\<forall>j<length qs. if m = 0 then truth ! j = []
         else is_knn (\<lambda>g. ds (qs ! j) (rows ! g)) {..<min (m * B) (length rows)} k (truth ! j))"
proof (induction m)
  case (Suc i)
  then obtain truth where IH: "forE [1..<i + 1] (merge_batch fa args1 (length qs) fs) (replicate (length qs) []) = Inr truth"
    "length truth = length qs"
    "\<forall>j<length qs. if i = 0 then truth ! j = []
       else is_knn (\<lambda>g. ds (qs ! j) (rows ! g)) {..<min (i * B) (length rows)} k (truth ! j)" by auto
  have i: "i < length (chunks B rows)" using Suc.prems by simp
  from nth_chunks [OF B i] have c: "chunks B rows ! i = take B (drop (i * B) rows)" "i * B < length rows" by simp_all
  have knni: "knn_answers ds (chunks B rows ! i) k qs (ans (chunks B rows ! i))" using knn i by simp
  have old: "\<forall>j<length qs. if i = 0 then truth ! j = [] else is_knn (\<lambda>g. ds (qs ! j) (rows ! g)) {..<i * B} k (truth ! j)"
    using IH(3) unfolding min_absorb1 [OF less_imp_le [OF c(2)]] .
  have wi: "batch_written fa k (ans (chunks B rows ! i)) (Suc i) fs" using w i by blast
  have off: "oa_B args1 * int i = int (i * B)" using args1(2) i by blast
  from merge_round [OF law k RQ i B knni wi args1(1) off IH(2) old] obtain truth' where
    step: "merge_batch fa args1 (length qs) fs (Suc i) truth = Inr truth'" "length truth' = length qs"
      "\<forall>j<length qs. is_knn (\<lambda>g. ds (qs ! j) (rows ! g)) {..<i * B + length (chunks B rows ! i)} k (truth' ! j)" by blast
  have "i * B + length (chunks B rows ! i) = min (Suc i * B) (length rows)"
    using c by (simp add: min_def) linarith
  moreover have "[1..<Suc i + 1] = [1..<i + 1] @ [Suc i]" by simp
  ultimately show ?case using IH(1) step by (simp add: forE_append)
qed simp

lemma write_truth_ok:
  assumes "length truth = RQ" and "\<forall>row\<in>set truth. length row = k \<and> (\<forall>a\<in>set row. 0 \<le> fst a \<and> fst a < 2147483648)"
    and "oa_k args = int k" and "k < 2147483648" and "RQ < 2147483648"
  shows "\<exists>fs'. write_truth fa args RQ truth fs = Inr fs' \<and>
    fs' (oa_output_truth args) = Some (as_bytes (concat (map (\<lambda>row. id_line (map fst row)) truth)))"
proof -
  let ?enc = "\<lambda>a. (fst a, le_bytes 4 (fst a) @ fa_tobytes fa (snd a))"
  have row: "mapE (\<lambda>j. bindE (py_get row (int j)) (\<lambda>a. bindE (pack_i (fst a)) (\<lambda>b. Inr (fst a, b @ fa_tobytes fa (snd a))))) [0..<k] =
      Inr (map ?enc row)" if "row \<in> set truth" for row
  proof -
    have len: "length row = k" using that assms(2) by simp
    have "mapE (\<lambda>j. bindE (py_get row (int j)) (\<lambda>a. bindE (pack_i (fst a)) (\<lambda>b. Inr (fst a, b @ fa_tobytes fa (snd a))))) [0..<k] =
        Inr (map (\<lambda>j. ?enc (row ! j)) [0..<k])"
    proof (rule mapE_total)
      fix j assume "j \<in> set [0..<k]"
      then have "j < length row" using len by simp
      moreover from this that assms(2) have "0 \<le> fst (row ! j)" "fst (row ! j) < 2147483648" by auto
      ultimately show "bindE (py_get row (int j)) (\<lambda>a. bindE (pack_i (fst a)) (\<lambda>b. Inr (fst a, b @ fa_tobytes fa (snd a)))) = Inr (?enc (row ! j))"
        by (simp add: pack_i_ok)
    qed
    also have "map (\<lambda>j. ?enc (row ! j)) [0..<k] = map ?enc row"
      using len by (intro nth_equalityI) auto
    finally show ?thesis .
  qed
  have "mapE (\<lambda>i. mapE (\<lambda>j. bindE (py_get truth (int i)) (\<lambda>row. bindE (py_get row (int j)) (\<lambda>a.
      bindE (pack_i (fst a)) (\<lambda>b. Inr (fst a, b @ fa_tobytes fa (snd a)))))) [0..<k]) [0..<RQ] =
      Inr (map (\<lambda>i. map ?enc (truth ! i)) [0..<RQ])"
  proof (rule mapE_total)
    fix i assume "i \<in> set [0..<RQ]"
    then have i: "py_get truth (int i) = Inr (truth ! i)" "truth ! i \<in> set truth" using assms(1) by simp_all
    show "mapE (\<lambda>j. bindE (py_get truth (int i)) (\<lambda>row. bindE (py_get row (int j)) (\<lambda>a.
      bindE (pack_i (fst a)) (\<lambda>b. Inr (fst a, b @ fa_tobytes fa (snd a)))))) [0..<k] = Inr (map ?enc (truth ! i))"
      unfolding i(1) bindE_Inr by (rule row [OF i(2)])
  qed
  also have "map (\<lambda>i. map ?enc (truth ! i)) [0..<RQ] = map (map ?enc) truth"
    using assms(1) by (intro nth_equalityI) auto
  finally show ?thesis
    using assms(3-5) by (simp add: write_truth_def pack_i_ok comp_def)
qed

lemma chunks_single: "xs \<noteq> [] \<Longrightarrow> length xs \<le> n \<Longrightarrow> chunks n xs = [xs]"
proof -
  assume xs: "xs \<noteq> []" "length xs \<le> n"
  then have "0 < n" by (cases xs) auto
  with xs have "chunks n xs = take n xs # chunks n (drop n xs)" by (intro chunks_step)
  with xs show ?thesis by simp
qed

text \<open>C2: \<open>gpusearch\<close> finds the exact nearest neighbours. With the L2 metric, positive batch sizes,
  vectors of the dimension that the arguments name and at least \<open>k\<close> of them in every data batch, the run returns, and
  every query's merged answer is \<open>k\<close> distinct rows of the whole data file, under their numbers in
  that file, with their distances, such that no row left out is nearer; the truth file lists
  exactly these row numbers. How the data is cut into batches plays no part.\<close>

theorem gpusearch_exact:
  fixes ds :: "'v list \<Rightarrow> 'v list \<Rightarrow> pyfloat"
  assumes law: "lawful_flat fa (oa_dim args) (use_float16 args) ds" and D: "oa_D args \<noteq> ''Cosine''"
    and k: "oa_k args = int k" "0 < k" "k < 2147483648"
    and data: "DataReader_init np fs (oa_data_file args) (oa_dim args) (oa_B args) (oa_data_normalize args) (oa_data_type args) (oa_target_type args) = Inr dr"
      "bin_ok np (nat (oa_B args)) dr" "bin_pending np dr = rows"
    and query: "DataReader_init np fs (oa_query_file args) (oa_dim args) (oa_Q args) (oa_query_normalize args) (oa_data_type args) (oa_target_type args) = Inr qr"
      "bin_ok np (nat (oa_Q args)) qr" "bin_pending np qr = qs"
    and size: "0 < oa_B args" "0 < oa_Q args" "rows \<noteq> []" "length rows < 2147483648" "length qs < 2147483648"
    and dims: "\<forall>v\<in>set rows. int (length v) = oa_dim args" "\<forall>q\<in>set qs. int (length q) = oa_dim args"
    and big: "\<forall>c\<in>set (chunks (nat (oa_B args)) rows). k \<le> length c"
  shows "\<exists>args' truth fs'. gpusearch np fa args fs = Some (Inr (args', truth, fs')) \<and> length truth = length qs \<and>
    (\<forall>j<length qs. is_knn (\<lambda>g. ds (qs ! j) (rows ! g)) {..<length rows} k (truth ! j)) \<and>
    fs' (oa_output_truth args) = Some (as_bytes (concat (map (\<lambda>row. id_line (map fst row)) truth)))"
proof -
  let ?B = "nat (oa_B args)" and ?dataQ = "chunks (nat (oa_Q args)) qs"
  let ?cs = "chunks ?B rows"
  have B: "0 < ?B" and Q: "0 < nat (oa_Q args)" using size by simp_all
  have qcap: "length (r_query qr) = nat (oa_Q args)" using query(2) by (simp add: bin_ok_def)
  from bin_source.collect_all [OF Q query(2), of "[]" 0] obtain qr' where
    q: "readallbatches np qr = Some (Inr (qr', length qs, ?dataQ))"
    by (auto simp: readallbatches_def qcap query(3))
  have dataQ: "concat ?dataQ = qs" using Q by (rule concat_chunks)
  have sub: "set c \<subseteq> set rows" if "c \<in> set ?cs" for c
    using that concat_chunks [OF B, of rows] by (metis UN_upper set_concat)
  have "\<forall>c\<in>set ?cs. \<exists>ans. batch_answers fa args ?dataQ c = Inr ans \<and> knn_answers ds c k qs ans"
  proof
    fix c assume c: "c \<in> set ?cs"
    then have "\<forall>v\<in>set c. int (length v) = oa_dim args" "k \<le> length c" using sub dims(1) big by blast+
    with batch_answers_knn [OF law D k(1,2), of c ?dataQ] dims(2)
    show "\<exists>ans. batch_answers fa args ?dataQ c = Inr ans \<and> knn_answers ds c k qs ans" by (simp add: dataQ)
  qed
  then obtain ans where ans: "\<forall>c\<in>set ?cs. batch_answers fa args ?dataQ c = Inr (ans c) \<and> knn_answers ds c k qs (ans c)"
    by (rule bchoice [THEN exE])
  then have knn: "\<forall>c\<in>set ?cs. knn_answers ds c k qs (ans c)" by blast
  have "batch_answers fa args ?dataQ c = Inr (ans c) \<and> length (ans c) = length qs" if "c \<in> set ?cs" for c
    using ans that knn_answers_length by metis
  from bin_source.gpu_batches_all [OF B k(1,3) size(5), of np dr fa ?dataQ ans 0 0 fs, unfolded data(3), OF this data(2)]
  obtain fs1 where g: "gpu_batches (readbatch np) fa args (length qs) ?dataQ dr 0 0 fs =
      Some (Inr (length ?cs, length rows, fs1))"
    "\<forall>i<length ?cs. batch_written fa k (ans (?cs ! i)) (Suc i) fs1" by auto
  define args1 where "args1 = (if oa_B args \<le> 0 \<or> int (length rows) \<le> oa_B args then args\<lparr>oa_B := int (length rows)\<rparr> else args)"
  have off: "\<forall>i<length ?cs. oa_B args1 * int i = int (i * ?B)"
  proof (cases "int (length rows) \<le> oa_B args")
    case True
    then have "?cs = [rows]" using size(3) by (intro chunks_single) auto
    then show ?thesis by simp
  next
    case False
    then show ?thesis using size(1) by (simp add: args1_def)
  qed
  have k1: "oa_k args1 = int k" using k(1) by (simp add: args1_def)
  from merge_rounds [OF law k(2,3) size(5) B knn g(2) k1 off, of "length ?cs"] obtain truth where
    t: "forE [1..<length ?cs + 1] (merge_batch fa args1 (length qs) fs1) (replicate (length qs) []) = Inr truth"
      "length truth = length qs"
      "\<forall>j<length qs. if length ?cs = 0 then truth ! j = []
         else is_knn (\<lambda>g. ds (qs ! j) (rows ! g)) {..<min (length ?cs * ?B) (length rows)} k (truth ! j)" by blast
  have ne: "length ?cs \<noteq> 0" using size(3) B by (simp add: chunks_step)
  have near: "\<forall>j<length qs. is_knn (\<lambda>g. ds (qs ! j) (rows ! g)) {..<length rows} k (truth ! j)"
    using t(3) ne length_chunks_cover [OF B, of rows] by (simp add: min_absorb2)
  have "\<forall>row\<in>set truth. length row = k \<and> (\<forall>a\<in>set row. 0 \<le> fst a \<and> fst a < 2147483648)"
    using near t(2) size(4) by (fastforce simp: in_set_conv_nth [of _ truth] is_knn_def)
  from write_truth_ok [OF t(2) this k1 k(3) size(5), of fa fs1] obtain fs2 where
    "write_truth fa args1 (length qs) truth fs1 = Inr fs2"
    "fs2 (oa_output_truth args1) = Some (as_bytes (concat (map (\<lambda>row. id_line (map fst row)) truth)))" by blast
  moreover have "oa_output_truth args1 = oa_output_truth args" by (simp add: args1_def)
  ultimately show ?thesis
    using data(1) query(1) q g(1) t near by (simp add: gpusearch_def Let_def flip: args1_def)
qed

text \<open>An instance: a flat index for the discrete metric, by sorting.\<close>

definition discrete :: "'r \<Rightarrow> 'r \<Rightarrow> pyfloat" where
  "discrete q v = (if q = v then FFin 0 else FFin 1)"

definition flat_sort :: "'v list faiss" where
  "flat_sort =
     \<lparr>fa_flat = (\<lambda>metric w f16 data.
        if \<exists>v\<in>set data. int (length v) \<noteq> w then Inl AssertionError
        else Inr (\<lambda>qs k. if \<exists>q\<in>set qs. int (length q) \<noteq> w then Inl AssertionError
          else Inr (map (\<lambda>q. let ids = take (nat k) (argsort (map (discrete q) data))
                             in (map (\<lambda>i. discrete q (data ! i)) ids, map int ids)) qs))),
      fa_tobytes = (\<lambda>d. if d = FFin 0 then [0, 0, 0, 0] else [0, 0, 128, 63]),
      fa_frombuffer = (\<lambda>b. if b = [0, 0, 0, 0] then FFin 0 else FFin 1)\<rparr>"

lemma lawful_flat_sort: "lawful_flat flat_sort w f16 discrete"
proof -
  have knn: "is_knn (\<lambda>l. discrete q (data ! l)) {..<length data} k
      (zip (map int (take k (argsort (map (discrete q) data)))) (map (\<lambda>i. discrete q (data ! i)) (take k (argsort (map (discrete q) data)))))"
    if k: "k \<le> length data" for q :: "'a list" and data k
  proof -
    let ?ds = "map (discrete q) data"
    let ?ids = "take k (argsort ?ds)"
    have zip: "zip (map int ?ids) (map (\<lambda>i. discrete q (data ! i)) ?ids) = map (\<lambda>i. (int i, discrete q (data ! i))) ?ids"
      by (simp add: zip_map_map zip_same_conv_map comp_def)
    have sub: "i < length data" if "i \<in> set ?ids" for i
      using that set_take_subset [of k "argsort ?ds"] by auto
    have "frank (discrete q (data ! i)) \<le> frank (discrete q (data ! g))" if "g < length data" "g \<notin> set ?ids" "i \<in> set ?ids" for g i
    proof -
      have "g \<in> set (argsort ?ds)" using that(1) by simp
      then have "g \<in> set (drop k (argsort ?ds))"
        using that(2) by (metis append_take_drop_id set_append Un_iff)
      from argsort_splits [OF that(3) this] sub [OF that(3)] that(1)
      have "\<not> flt (discrete q (data ! g)) (discrete q (data ! i))" by simp
      then show ?thesis by (auto simp: discrete_def split: if_splits)
    qed
    with sub k show ?thesis
      unfolding zip is_knn_def by (auto simp: comp_def distinct_map inj_on_def image_iff)
  qed
  have "knn_answers discrete data k qs (map (\<lambda>q. let ids = take (nat (int k)) (argsort (map (discrete q) data))
      in (map (\<lambda>i. discrete q (data ! i)) ids, map int ids)) qs)" if "k \<le> length data" for qs data :: "'a list list" and k
    using knn [OF that] that by (simp add: knn_answers_def list_all2_map2 Let_def list_all2_same)
  then show ?thesis
    by (simp add: lawful_flat_def flat_sort_def f32_ok_def discrete_def)
qed

definition sample_opq :: opq_args where
  "sample_opq = opq_defaults\<lparr>oa_data_file := ''d.bin'', oa_query_file := ''q.bin'', oa_data_type := ''int8'',
     oa_target_type := ''int8'', oa_k := 1, oa_dim := 1, oa_B := 2\<rparr>"

definition sample_files :: filesys where
  "sample_files = [''d.bin'' \<mapsto> le_bytes 4 3 @ le_bytes 4 1 @ concat [[1], [2], [3]] @ [],
     ''q.bin'' \<mapsto> le_bytes 4 1 @ le_bytes 4 1 @ concat [[2]] @ []]"

theorem gpusearch_exact_witness:
  "\<exists>args' truth fs'. gpusearch np_int8 flat_sort sample_opq sample_files = Some (Inr (args', truth, fs')) \<and> length truth = 1 \<and>
    is_knn (\<lambda>g. discrete [2 :: int] ([[1], [2], [3]] ! g)) {..<3} 1 (truth ! 0)"
proof -
  let ?dr = "\<lparr>r_mytype = ''int8'', r_bin = concat [[1], [2], [3]] @ [], r_lines = [], r_featuredim = 1, r_isbinary = True,
    r_type = ''int8'', r_query = replicate 2 [0], r_normalize = 0\<rparr>"
  let ?qr = "\<lparr>r_mytype = ''int8'', r_bin = concat [[2]] @ [], r_lines = [], r_featuredim = 1, r_isbinary = True,
    r_type = ''int8'', r_query = replicate 10000 [0], r_normalize = 0\<rparr>"
  have names: "0 \<le> find_sub ''d.bin'' ''.bin''" "0 \<le> find_sub ''q.bin'' ''.bin''" by code_simp+
  have z: "np_zero np_int8 = 0" by (simp add: np_int8_def)
  have d: "DataReader_init np_int8 sample_files ''d.bin'' 1 2 0 ''int8'' ''int8'' = Inr ?dr"
    using DataReader_init_bin [of sample_files "''d.bin''" 3 1 "concat [[1], [2], [3]] @ []" np_int8 1 2 0 "''int8''" "''int8''"] names
    by (simp add: sample_files_def z)
  have q: "DataReader_init np_int8 sample_files ''q.bin'' 1 10000 0 ''int8'' ''int8'' = Inr ?qr"
    using DataReader_init_bin [of sample_files "''q.bin''" 1 1 "concat [[2]] @ []" np_int8 1 10000 0 "''int8''" "''int8''"] names
    by (simp add: sample_files_def z)
  have dp: "bin_pending np_int8 ?dr = [[1], [2], [3]]"
    by (subst bin_pending_file [of np_int8 "''int8''" 1 "[[1], [2], [3]]" "[]" _ "''int8''"]) simp_all
  have qp: "bin_pending np_int8 ?qr = [[2]]"
    by (subst bin_pending_file [of np_int8 "''int8''" 1 "[[2]]" "[]" _ "''int8''"]) simp_all
  have ok: "bin_ok np_int8 2 ?dr" "bin_ok np_int8 10000 ?qr"
    by (simp_all add: bin_ok_def bin_row_size_def)
  have cs: "chunks 2 [[1], [2], [3 :: int]] = [[[1], [2]], [[3]]]" by (simp add: chunks.simps)
  have a: "oa_D sample_opq \<noteq> ''Cosine''" "oa_k sample_opq = int 1" "oa_B sample_opq = 2" "oa_Q sample_opq = 10000"
    "oa_dim sample_opq = 1" "oa_data_normalize sample_opq = 0" "oa_query_normalize sample_opq = 0" "oa_data_type sample_opq = ''int8''"
    "oa_target_type sample_opq = ''int8''" "oa_data_file sample_opq = ''d.bin''" "oa_query_file sample_opq = ''q.bin''"
    by (simp_all add: sample_opq_def opq_defaults_def)
  have "\<exists>args' truth fs'. gpusearch np_int8 flat_sort sample_opq sample_files = Some (Inr (args', truth, fs')) \<and> length truth = length [[2 :: int]] \<and>
    (\<forall>j<length [[2 :: int]]. is_knn (\<lambda>g. discrete ([[2 :: int]] ! j) ([[1], [2], [3]] ! g)) {..<length [[1], [2], [3 :: int]]} 1 (truth ! j)) \<and>
    fs' (oa_output_truth sample_opq) = Some (as_bytes (concat (map (\<lambda>row. id_line (map fst row)) truth)))"
    by (rule gpusearch_exact [OF lawful_flat_sort a(1,2), where dr = ?dr and qr = ?qr])
      (simp_all add: a d q dp [simplified] qp [simplified] ok [simplified] cs)
  then show ?thesis by (auto simp: eval_nat_numeral)
qed

end
