(* ===== verification/Opq_Eval.thy ===== *)
theory Opq_Eval
  imports Opq_Truth
begin

text \<open>
  \<open>search\<close> and \<open>evaluate\<close> of \<open>Tools/OPQ/OPQ_gpu_train_infer.py\<close>. The index is a function from
  \<open>nprobe\<close> (which \<open>search\<close> sets on the index, or on the index inside a pre-transform, unless it is
  None), queries and \<open>topk\<close> to score and result rows. \<open>search\<close> wraps its range in \<open>tqdm\<close>; the script imports the module of that
  name, so what calling it does is the argument \<open>progress\<close>: \<open>tqdm_module\<close> for the code as it stands,
  \<open>Inr\<close> for an iterator that only shows progress.
\<close>

section \<open>Batched search\<close>

definition tqdm_module :: "nat list \<Rightarrow> nat list result" where
  "tqdm_module steps = Inl TypeError"

text \<open>\<open>math.ceil(n / b)\<close>: the quotient is rounded to a float first.\<close>

definition ceil_truediv :: "int \<Rightarrow> int \<Rightarrow> int result" where
  "ceil_truediv n b =
     bindE (int_truediv n b) (\<lambda>q. case q of FFin r \<Rightarrow> Inr \<lceil>r\<rceil> | FNan \<Rightarrow> Inl ValueError | _ \<Rightarrow> Inl OverflowError)"

definition opq_search ::
  "(nat list \<Rightarrow> nat list result) \<Rightarrow> (int option \<Rightarrow> 'q list \<Rightarrow> int \<Rightarrow> ('s list \<times> 'r list) result) \<Rightarrow>
     'q list \<Rightarrow> int \<Rightarrow> int option \<Rightarrow> int \<Rightarrow> ('s list \<times> 'r list) result" where
  "opq_search progress faiss_index query_embeddings topk nprobe batch_size =
     bindE
       (if batch_size \<noteq> 0 then
          bindE (ceil_truediv (int (length query_embeddings)) batch_size) (\<lambda>batch_num.
          bindE (progress [0..<nat batch_num]) (\<lambda>steps.
            forE steps (\<lambda>step (all_scores, all_results).
              let start = batch_size * int step;
                  stop = min (batch_size * (int step + 1)) (int (length query_embeddings))
              in bindE (faiss_index nprobe (py_slice query_embeddings start stop) topk) (\<lambda>(score, batch_results).
                   Inr (all_scores @ score, all_results @ batch_results))) ([], [])))
        else faiss_index nprobe query_embeddings topk)
       (\<lambda>res. if query_embeddings = [] then Inl ZeroDivisionError else Inr res)"

section \<open>Evaluation\<close>

text \<open>The first rank of a candidate in the target set, among the first \<open>n\<close>; fewer candidates than that
  raise IndexError unless a hit comes first.\<close>

fun first_hit :: "'p list \<Rightarrow> 'p set \<Rightarrow> nat \<Rightarrow> nat \<Rightarrow> nat option result" where
  "first_hit cand target i 0 = Inr None"
| "first_hit cand target i (Suc n) =
     bindE (py_get cand (int i)) (\<lambda>c. if c \<in> target then Inr (Some i) else first_hit cand target (Suc i) n)"

definition add_mrr :: "int list \<Rightarrow> nat \<Rightarrow> pyfloat list \<Rightarrow> pyfloat list result" where
  "add_mrr cutoffs i MRR =
     mapE (\<lambda>(cutoff, m). if int i \<le> cutoff - 1 then bindE (int_truediv 1 (int i + 1)) (\<lambda>x. Inr (fadd m x)) else Inr m)
       (zip cutoffs MRR)"

definition add_recall :: "int list \<Rightarrow> 'p set \<Rightarrow> 'p list \<Rightarrow> pyfloat list \<Rightarrow> pyfloat list result" where
  "add_recall cutoffs target cand Recall =
     mapE (\<lambda>(k, r). bindE (int_truediv (int (card (target \<inter> set (py_prefix cand k)))) (int (card target))) (\<lambda>x. Inr (fadd r x)))
       (zip cutoffs Recall)"

text \<open>The state of the loop: both sums and the ranking.\<close>

definition eval_step ::
  "int list \<Rightarrow> int list \<Rightarrow> (int \<rightharpoonup> 'p set) \<Rightarrow> int \<times> 'p list \<Rightarrow>
     pyfloat list \<times> pyfloat list \<times> int list \<Rightarrow> (pyfloat list \<times> pyfloat list \<times> int list) result" where
  "eval_step MRR_cutoffs Recall_cutoffs gts = (\<lambda>(qid, cand) (MRR, Recall, ranking).
     case gts qid of None \<Rightarrow> Inr (MRR, Recall, ranking)
     | Some target \<Rightarrow>
         bindE (if MRR_cutoffs = [] then Inl ValueError else first_hit cand target 0 (nat (Max (set MRR_cutoffs)))) (\<lambda>hit.
         bindE (case hit of None \<Rightarrow> Inr MRR | Some i \<Rightarrow> add_mrr MRR_cutoffs i MRR) (\<lambda>MRR'.
         bindE (add_recall Recall_cutoffs target cand Recall) (\<lambda>Recall'.
           Inr (MRR', Recall', ranking @ [case hit of None \<Rightarrow> - 1 | Some i \<Rightarrow> int i + 1])))))"

definition evaluate ::
  "'p list list \<Rightarrow> (int \<rightharpoonup> 'p set) \<Rightarrow> int list \<Rightarrow> int list \<Rightarrow> int list option \<Rightarrow> (pyfloat list \<times> pyfloat list) result" where
  "evaluate results gts MRR_cutoffs Recall_cutoffs qids =
     (let ids = (case qids of None \<Rightarrow> map int [0..<length results] | Some q \<Rightarrow> q)
      in bindE (forE (zip ids results) (eval_step MRR_cutoffs Recall_cutoffs gts)
            (replicate (length MRR_cutoffs) (FFin 0), replicate (length Recall_cutoffs) (FFin 0), [])) (\<lambda>(MRR, Recall, ranking).
         if ranking = [] then Inl IOErr
         else
           bindE (float_of_int (int (length ranking))) (\<lambda>n.
           bindE (mapE (\<lambda>x. fdiv x n) MRR) (\<lambda>mrr.
           bindE (mapE (\<lambda>x. fdiv x n) Recall) (\<lambda>rec. Inr (mrr, rec))))))"

section \<open>Properties of search\<close>

text \<open>What batching needs of an index: it answers each query of a call on its own.\<close>

definition rowwise :: "('q list \<Rightarrow> ('s list \<times> 'r list) result) \<Rightarrow> ('q \<Rightarrow> 's) \<Rightarrow> ('q \<Rightarrow> 'r) \<Rightarrow> bool" where
  "rowwise f sc rs \<longleftrightarrow> (\<forall>qs. f qs = Inr (map sc qs, map rs qs))"

lemma int_le_pow: "n \<le> 2 ^ k \<Longrightarrow> int n \<le> 2 ^ k"
  using of_nat_le_iff [of n "2 ^ k", where ?'a = int] by simp

lemma fl64_div64:
  assumes "0 \<le> n" and "n \<le> 2 ^ 53"
  shows "fl64 (of_int n / 64) = FFin (of_int n / 64)"
proof -
  have "(of_int n / 64 :: rat) = of_int n * 2 powi (- 6)" by (simp add: power_int_def eval_nat_numeral)
  then have "b64.representable (of_int n / 64)"
    unfolding b64.representable_def using assms by (intro exI [of _ n] exI [of _ "- 6"]) simp
  then have r: "rndf 53 (-1074) (of_int n / 64) = of_int n / 64" by (rule b64.rndf_representable)
  have "\<exists>r. fl64 (of_int n / 64) = FFin r \<and> of_int 0 \<le> r \<and> r \<le> of_int n"
    using assms by (intro fl64_between) simp_all
  with r show ?thesis by (auto simp: fl64_def Let_def split: if_splits)
qed

lemma ceil_truediv_64:
  assumes "n \<le> 2 ^ 53"
  shows "ceil_truediv (int n) 64 = Inr (int ((n + 63) div 64))"
proof -
  have "fl64 (of_int (int n) / 64) = FFin (of_int (int n) / 64)"
    using assms by (intro fl64_div64 int_le_pow) simp_all
  moreover have "\<lceil>(of_nat n / 64 :: rat)\<rceil> = int ((n + 63) div 64)"
  proof (rule ceiling_unique)
    have "int (64 * ((n + 63) div 64)) \<le> int (n + 63)" "int n \<le> int (64 * ((n + 63) div 64))"
      unfolding of_nat_le_iff by presburger+
    then have "(of_int (64 * int ((n + 63) div 64)) :: rat) \<le> of_int (int (n + 63))"
      "(of_int (int n) :: rat) \<le> of_int (64 * int ((n + 63) div 64))"
      unfolding of_int_le_iff by simp_all
    then show "(of_int (int ((n + 63) div 64)) - 1 :: rat) < of_nat n / 64" "(of_nat n / 64 :: rat) \<le> of_int (int ((n + 63) div 64))"
      by simp_all
  qed
  ultimately show ?thesis by (simp add: ceil_truediv_def int_truediv_def checked_float_def)
qed

lemma search_loop:
  assumes "rowwise f sc rs" and "n = length qs"
  shows "forE [0..<m] (\<lambda>step (all_scores, all_results).
      let start = 64 * int step; stop = min (64 * (int step + 1)) (int n)
      in bindE (f (py_slice qs start stop)) (\<lambda>(score, batch_results).
           Inr (all_scores @ score, all_results @ batch_results))) ([], []) =
    Inr (map sc (take (64 * m) qs), map rs (take (64 * m) qs))"
proof (induction m)
  case (Suc m)
  have "py_slice qs (64 * int m) (min (64 * (int m + 1)) (int n)) = py_slice qs (int (64 * m)) (int (min (64 * (m + 1)) n))"
    by (intro arg_cong2 [where f = "py_slice qs"]) auto
  also have "\<dots> = take (min (64 * (m + 1)) n - 64 * m) (drop (64 * m) qs)" by (rule py_slice_nat)
  also have "\<dots> = take 64 (drop (64 * m) qs)" using assms(2) by (auto simp: min_def)
  finally have sl: "py_slice qs (64 * int m) (min (64 * (int m + 1)) (int n)) = take 64 (drop (64 * m) qs)" .
  have "take (64 * Suc m) qs = take (64 * m) qs @ take 64 (drop (64 * m) qs)"
    by (simp add: take_add [symmetric] add.commute)
  with Suc assms(1) sl show ?case by (simp add: forE_append rowwise_def Let_def)
qed simp

text \<open>C13: searching in batches of 64, as both callers do, gives what one search of all queries gives,
  scores and results in query order, if the progress iterator passes its range on. The script as
  written imports the module \<open>tqdm\<close> instead of the function, and the same call raises TypeError
  before any batch is searched.\<close>

theorem search_batched:
  assumes "rowwise (\<lambda>qs. f nprobe qs topk) sc rs" and "qs \<noteq> []" and "length qs \<le> 2 ^ 53"
  shows "opq_search Inr f qs topk nprobe 64 = Inr (map sc qs, map rs qs) \<and> opq_search Inr f qs topk nprobe 64 = opq_search Inr f qs topk nprobe 0 \<and>
    opq_search tqdm_module f qs topk nprobe 64 = Inl TypeError"
proof -
  let ?m = "(length qs + 63) div 64"
  have "length qs \<le> 64 * ?m" by presburger
  then have "take (64 * ?m) qs = qs" by simp
  with search_loop [OF assms(1) refl, of ?m qs] have loop: "forE [0..<?m] (\<lambda>step (all_scores, all_results).
      let start = 64 * int step; stop = min (64 * (int step + 1)) (int (length qs))
      in bindE (f nprobe (py_slice qs start stop) topk) (\<lambda>(score, batch_results).
           Inr (all_scores @ score, all_results @ batch_results))) ([], []) = Inr (map sc qs, map rs qs)" by simp
  have "opq_search Inr f qs topk nprobe 64 = Inr (map sc qs, map rs qs)"
    unfolding opq_search_def ceil_truediv_64 [OF assms(3)] by (simp only: bindE_Inr nat_int loop) (simp add: assms(2))
  moreover have "opq_search tqdm_module f qs topk nprobe 64 = Inl TypeError"
    unfolding opq_search_def ceil_truediv_64 [OF assms(3)] by (simp add: tqdm_module_def)
  moreover have "opq_search Inr f qs topk nprobe 0 = Inr (map sc qs, map rs qs)"
    using assms(1,2) by (simp add: opq_search_def rowwise_def)
  ultimately show ?thesis by simp
qed

theorem search_batched_witness:
  "opq_search Inr (\<lambda>nprobe qs topk. Inr (map (\<lambda>q. q + 1) qs, map (\<lambda>q. q) qs)) [4, 5 :: int] 1 (Some 1) 64 = Inr ([5, 6], [4, 5]) \<and>
   opq_search tqdm_module (\<lambda>nprobe qs topk. Inr (map (\<lambda>q. q + 1) qs, map (\<lambda>q. q) qs)) [4, 5 :: int] 1 (Some 1) 64 = Inl TypeError"
proof -
  have "rowwise (\<lambda>qs. Inr (map (\<lambda>q. q + 1) qs, map (\<lambda>q. q) qs)) (\<lambda>q. q + 1) (\<lambda>q. q :: int)"
    by (simp add: rowwise_def)
  from search_batched [where f = "\<lambda>nprobe qs topk. Inr (map (\<lambda>q. q + 1) qs, map (\<lambda>q. q) qs)", OF this, of "[4, 5]" 1 "Some 1"] show ?thesis by simp
qed

section \<open>Properties of evaluate\<close>

definition in_unit :: "nat \<Rightarrow> pyfloat \<Rightarrow> bool" where
  "in_unit t x \<longleftrightarrow> (\<exists>r. x = FFin r \<and> 0 \<le> r \<and> r \<le> of_nat t)"

lemma in_unit_mono: "in_unit t x \<Longrightarrow> in_unit (Suc t) x"
  by (force simp: in_unit_def)

lemma in_unit_add:
  assumes "in_unit t x" and "in_unit 1 y" and "t < 2 ^ 53"
  shows "in_unit (Suc t) (fadd x y)"
proof -
  from assms(1,2) obtain a b where ab: "x = FFin a" "y = FFin b" "0 \<le> a" "a \<le> of_nat t" "0 \<le> b" "b \<le> 1"
    by (auto simp: in_unit_def)
  have "int (Suc t) \<le> 2 ^ 53" using assms(3) by (intro int_le_pow) simp
  with ab have "\<exists>r. fadd (FFin a) (FFin b) = FFin r \<and> of_int 0 \<le> r \<and> r \<le> of_int (int (Suc t))"
    by (intro fadd_between) simp_all
  with ab show ?thesis by (auto simp: in_unit_def)
qed

lemma truediv_unit:
  assumes "0 \<le> a" and "a \<le> b" and "0 < b"
  shows "\<exists>x. int_truediv a b = Inr x \<and> in_unit 1 x"
proof -
  have "\<exists>r. int_truediv a b = Inr (FFin r) \<and> of_int 0 \<le> r \<and> r \<le> of_int 1"
    using assms by (intro int_truediv_between) (simp_all add: pos_divide_le_eq)
  then show ?thesis by (auto simp: in_unit_def)
qed

lemma mapE_zip_total:
  assumes "length xs = length ys" and "\<And>x y. x \<in> set xs \<Longrightarrow> y \<in> set ys \<Longrightarrow> \<exists>z. f (x, y) = Inr z \<and> P z"
  shows "\<exists>zs. mapE f (zip xs ys) = Inr zs \<and> length zs = length xs \<and> (\<forall>z\<in>set zs. P z)"
  using assms
proof (induction xs ys rule: list_induct2)
  case (Cons x xs y ys)
  from Cons.prems [of x y] obtain z where z: "f (x, y) = Inr z" "P z" by auto
  moreover from Cons obtain zs where "mapE f (zip xs ys) = Inr zs" "length zs = length xs" "\<forall>z\<in>set zs. P z"
    by (metis list.set_intros(2))
  ultimately show ?case by auto
qed simp

lemma first_hit_total: "i + n \<le> length cand \<Longrightarrow> \<exists>h. first_hit cand target i n = Inr h"
  by (induction n arbitrary: i) auto

definition eval_inv :: "nat \<Rightarrow> nat \<Rightarrow> pyfloat list \<times> pyfloat list \<times> int list \<Rightarrow> bool" where
  "eval_inv a b = (\<lambda>(MRR, Recall, ranking). length MRR = a \<and> length Recall = b \<and>
     (\<forall>x\<in>set MRR \<union> set Recall. in_unit (length ranking) x))"

lemma eval_step_inv:
  assumes inv: "eval_inv (length mc) (length rc) st" and t: "length (snd (snd st)) < 2 ^ 53" and mc: "mc \<noteq> []"
    and cand: "nat (Max (set mc)) \<le> length cand" and gt: "\<forall>target. gts qid = Some target \<longrightarrow> finite target \<and> target \<noteq> {}"
  shows "\<exists>st'. eval_step mc rc gts (qid, cand) st = Inr st' \<and> eval_inv (length mc) (length rc) st' \<and>
    length (snd (snd st')) = length (snd (snd st)) + (if gts qid = None then 0 else 1)"
proof (cases "gts qid")
  case None
  with inv show ?thesis by (cases st) (auto simp: eval_step_def)
next
  case (Some target)
  obtain MRR Recall ranking where st: "st = (MRR, Recall, ranking)" by (cases st) auto
  have len: "length mc = length MRR" "length rc = length Recall"
    and unit: "\<And>x. x \<in> set MRR \<union> set Recall \<Longrightarrow> in_unit (length ranking) x"
    using inv by (auto simp: eval_inv_def st)
  have fin: "finite target" "0 < card target" using gt Some by (auto simp: card_gt_0_iff)
  from first_hit_total [of 0 "nat (Max (set mc))" cand target] cand
  obtain hit where hit: "first_hit cand target 0 (nat (Max (set mc))) = Inr hit" by auto
  have "\<exists>M. (case hit of None \<Rightarrow> Inr MRR | Some i \<Rightarrow> add_mrr mc i MRR) = Inr M \<and> length M = length mc \<and>
      (\<forall>x\<in>set M. in_unit (Suc (length ranking)) x)"
  proof (cases hit)
    case None
    with len unit show ?thesis by (auto intro: in_unit_mono)
  next
    case (Some i)
    from truediv_unit [of 1 "int i + 1"] obtain u where u: "int_truediv 1 (int i + 1) = Inr u" "in_unit 1 u" by auto
    have "\<exists>zs. add_mrr mc i MRR = Inr zs \<and> length zs = length mc \<and> (\<forall>z\<in>set zs. in_unit (Suc (length ranking)) z)"
      unfolding add_mrr_def using len(1) t
      by (intro mapE_zip_total) (auto simp: u st intro: in_unit_mono in_unit_add [OF _ u(2)] unit)
    with Some show ?thesis by simp
  qed
  then obtain M where M: "(case hit of None \<Rightarrow> Inr MRR | Some i \<Rightarrow> add_mrr mc i MRR) = Inr M" "length M = length mc"
    "\<forall>x\<in>set M. in_unit (Suc (length ranking)) x" by blast
  have "\<exists>zs. add_recall rc target cand Recall = Inr zs \<and> length zs = length rc \<and> (\<forall>z\<in>set zs. in_unit (Suc (length ranking)) z)"
    unfolding add_recall_def
  proof (rule mapE_zip_total [OF len(2)])
    fix k r assume r: "r \<in> set Recall"
    have "card (target \<inter> set (py_prefix cand k)) \<le> card target" using fin by (intro card_mono) auto
    with truediv_unit [of "int (card (target \<inter> set (py_prefix cand k)))" "int (card target)"] fin
    obtain x where x: "int_truediv (int (card (target \<inter> set (py_prefix cand k)))) (int (card target)) = Inr x" "in_unit 1 x"
      by auto
    then show "\<exists>z. (case (k, r) of (k, r) \<Rightarrow> bindE (int_truediv (int (card (target \<inter> set (py_prefix cand k)))) (int (card target)))
        (\<lambda>x. Inr (fadd r x))) = Inr z \<and> in_unit (Suc (length ranking)) z"
      using in_unit_add [OF unit x(2)] r t by (auto simp: st)
  qed
  then obtain R where R: "add_recall rc target cand Recall = Inr R" "length R = length rc"
    "\<forall>z\<in>set R. in_unit (Suc (length ranking)) z" by blast
  show ?thesis
    using Some mc hit M R by (auto simp: eval_step_def st eval_inv_def)
qed

lemma eval_loop:
  assumes mc: "mc \<noteq> []" and "\<forall>(qid, cand)\<in>set pairs. nat (Max (set mc)) \<le> length cand"
    and "\<forall>(qid, cand)\<in>set pairs. \<forall>target. gts qid = Some target \<longrightarrow> finite target \<and> target \<noteq> {}"
    and "eval_inv (length mc) (length rc) st" and "length (snd (snd st)) + length pairs \<le> 2 ^ 53"
  shows "\<exists>st'. forE pairs (eval_step mc rc gts) st = Inr st' \<and> eval_inv (length mc) (length rc) st' \<and>
    length (snd (snd st')) = length (snd (snd st)) + length (filter (\<lambda>p. gts (fst p) \<noteq> None) pairs)"
  using assms(2-)
proof (induction pairs arbitrary: st)
  case (Cons p pairs)
  obtain qid cand where p: "p = (qid, cand)" by (cases p) auto
  have "length (snd (snd st)) < 2 ^ 53" using Cons.prems(4) by simp
  with eval_step_inv [OF Cons.prems(3) _ mc, of cand gts qid] Cons.prems(1,2) obtain st1 where
    s1: "eval_step mc rc gts p st = Inr st1" "eval_inv (length mc) (length rc) st1"
      "length (snd (snd st1)) = length (snd (snd st)) + (if gts qid = None then 0 else 1)"
    by (auto simp: p)
  have "length (snd (snd st1)) + length pairs \<le> 2 ^ 53" using Cons.prems(4) s1(3) by (auto split: if_splits)
  with Cons.IH [OF _ _ s1(2)] Cons.prems(1,2) obtain st' where
    "forE pairs (eval_step mc rc gts) st1 = Inr st'" "eval_inv (length mc) (length rc) st'"
    "length (snd (snd st')) = length (snd (snd st1)) + length (filter (\<lambda>p. gts (fst p) \<noteq> None) pairs)" by auto
  with s1 show ?case by (auto simp: p)
qed simp

lemma fdiv_unit: "in_unit t x \<Longrightarrow> 0 < t \<Longrightarrow> \<exists>y. fdiv x (FFin (of_nat t)) = Inr y \<and> in_unit 1 y"
proof -
  assume "in_unit t x" and t: "0 < t"
  then obtain r where r: "x = FFin r" "0 \<le> r" "r \<le> of_nat t" by (auto simp: in_unit_def)
  have "\<exists>y. fdiv (FFin r) (FFin (of_nat t)) = Inr (FFin y) \<and> of_int 0 \<le> y \<and> y \<le> of_int 1"
    using r t by (intro fdiv_between) (simp_all add: pos_divide_le_eq)
  then obtain y where "fdiv x (FFin (of_nat t)) = Inr (FFin y)" "in_unit 1 (FFin y)"
    unfolding r(1) in_unit_def by (auto simp del: fdiv.simps)
  then show ?thesis by blast
qed

lemma mapE_all_total:
  "(\<And>x. x \<in> set xs \<Longrightarrow> \<exists>y. f x = Inr y \<and> P y) \<Longrightarrow> \<exists>ys. mapE f xs = Inr ys \<and> length ys = length xs \<and> (\<forall>y\<in>set ys. P y)"
proof (induction xs)
  case (Cons x xs)
  from Cons.prems [of x] obtain y where "f x = Inr y" "P y" by auto
  moreover from Cons obtain ys where "mapE f xs = Inr ys" "length ys = length xs" "\<forall>y\<in>set ys. P y" by auto
  ultimately show ?case by auto
qed simp

text \<open>C7: \<open>evaluate\<close> over queries that each have at least as many candidates as the largest MRR cutoff,
  and finite non-empty targets, returns as soon as one query has a target, and then every MRR
  and every recall is a finite number from 0 to 1, with all roundings of the running sums; when no
  query has a target it raises IOError.\<close>

theorem evaluate_bounds:
  assumes "mc \<noteq> []" and "\<forall>cand\<in>set results. nat (Max (set mc)) \<le> length cand"
    and "\<forall>qid target. gts qid = Some target \<longrightarrow> finite target \<and> target \<noteq> {}" and "length results \<le> 2 ^ 53"
  shows "if \<exists>i<length results. gts (int i) \<noteq> None then
      (\<exists>mrr rec. evaluate results gts mc rc None = Inr (mrr, rec) \<and> length mrr = length mc \<and> length rec = length rc \<and>
        (\<forall>x\<in>set mrr \<union> set rec. \<exists>r. x = FFin r \<and> 0 \<le> r \<and> r \<le> 1))
    else evaluate results gts mc rc None = Inl IOErr"
proof -
  let ?pairs = "zip (map int [0..<length results]) results"
  let ?st = "(replicate (length mc) (FFin 0), replicate (length rc) (FFin 0), [] :: int list)"
  have "eval_inv (length mc) (length rc) ?st" by (auto simp: eval_inv_def in_unit_def)
  with eval_loop [OF assms(1), of ?pairs gts rc ?st] assms(2-4) obtain M R ranking where
    loop: "forE ?pairs (eval_step mc rc gts) ?st = Inr (M, R, ranking)" "eval_inv (length mc) (length rc) (M, R, ranking)"
      "length ranking = length (filter (\<lambda>p. gts (fst p) \<noteq> None) ?pairs)"
    by (auto dest!: set_zip_rightD)
  have some: "ranking \<noteq> [] \<longleftrightarrow> (\<exists>i<length results. gts (int i) \<noteq> None)"
  proof -
    have "ranking \<noteq> [] \<longleftrightarrow> (\<exists>p\<in>set ?pairs. gts (fst p) \<noteq> None)"
      using arg_cong [OF loop(3), of "\<lambda>n. n = 0"] unfolding length_0_conv filter_empty_conv by blast
    also have "\<dots> \<longleftrightarrow> (\<exists>i<length results. gts (int i) \<noteq> None)"
      by (fastforce simp: set_zip)
    finally show ?thesis .
  qed
  show ?thesis
  proof (cases "ranking = []")
    case True
    with some loop(1) show ?thesis by (auto simp: evaluate_def Let_def)
  next
    case False
    have "length ranking \<le> length ?pairs" using loop(3) by (metis length_filter_le)
    then have small: "length ranking \<le> 2 ^ 53" using assms(4) by simp
    have n: "float_of_int (int (length ranking)) = Inr (FFin (of_nat (length ranking)))"
      using int_le_pow [OF small] by (subst float_of_int_exact) simp_all
    have unit: "\<exists>y. fdiv x (FFin (of_nat (length ranking))) = Inr y \<and> in_unit 1 y" if "x \<in> set M \<union> set R" for x
      using that loop(2) False by (intro fdiv_unit) (auto simp: eval_inv_def)
    from mapE_all_total [of M "\<lambda>x. fdiv x (FFin (of_nat (length ranking)))" "in_unit 1"] unit obtain mrr where
      mrr: "mapE (\<lambda>x. fdiv x (FFin (of_nat (length ranking)))) M = Inr mrr" "length mrr = length M" "\<forall>y\<in>set mrr. in_unit 1 y" by auto
    from mapE_all_total [of R "\<lambda>x. fdiv x (FFin (of_nat (length ranking)))" "in_unit 1"] unit obtain rec where
      rec: "mapE (\<lambda>x. fdiv x (FFin (of_nat (length ranking)))) R = Inr rec" "length rec = length R" "\<forall>y\<in>set rec. in_unit 1 y" by auto
    have "evaluate results gts mc rc None = Inr (mrr, rec)"
      using loop(1) False n mrr(1) rec(1) by (simp add: evaluate_def Let_def)
    moreover have "length mrr = length mc" "length rec = length rc" using mrr(2) rec(2) loop(2) by (auto simp: eval_inv_def)
    moreover have "\<forall>x\<in>set mrr \<union> set rec. \<exists>r. x = FFin r \<and> 0 \<le> r \<and> r \<le> 1"
      using mrr(3) rec(3) by (auto simp: in_unit_def)
    ultimately show ?thesis using some False by auto
  qed
qed

theorem evaluate_bounds_witness:
  "\<exists>mrr rec. evaluate [[7, 8, 9], [1, 2, 3]] [0 \<mapsto> {8, 9}, 1 \<mapsto> {4 :: int}] [2, 3] [1, 2] None = Inr (mrr, rec) \<and>
    length mrr = 2 \<and> (\<forall>x\<in>set mrr \<union> set rec. \<exists>r. x = FFin r \<and> 0 \<le> r \<and> r \<le> 1)"
proof -
  have gts: "\<forall>qid target. [0 \<mapsto> {8, 9}, 1 \<mapsto> {4 :: int}] (qid :: int) = Some target \<longrightarrow> finite target \<and> target \<noteq> {}"
    by auto
  have len: "\<forall>cand\<in>set [[7, 8, 9], [1, 2, 3 :: int]]. nat (Max (set [2, 3])) \<le> length cand" by simp
  have ex: "\<exists>i<length [[7, 8, 9], [1, 2, 3 :: int]]. [0 \<mapsto> {8, 9}, 1 \<mapsto> {4 :: int}] (int i) \<noteq> None"
    by (rule exI [of _ 0]) simp
  from evaluate_bounds [OF _ len gts, of "[1, 2]", unfolded if_P [OF ex]] show ?thesis by auto
qed

end
