(* ===== verification/Opq_Train.thy ===== *)
theory Opq_Train
  imports Opq_Eval
begin

text \<open>
  \<open>train_pq\<close>, \<open>train_opq\<close>, \<open>quan_reconstruct_vectors\<close> and the main program of
  \<open>Tools/OPQ/OPQ_gpu_train_infer.py\<close>. The state is the file system and the set of directories; files
  are written as the code writes them (a placeholder count that is patched by a seek at the end, a
  temporary name that is renamed). The trained quantizers of faiss are records of what the code
  asks of them: codebook and rotation bytes, codes and reconstructions of rows as bytes, search;
  training may raise. A file whose header cannot be packed stays as it was, where the code leaves
  it cut short before it raises.
\<close>

record opq_os =
  oo_files :: filesys
  oo_dirs :: "string set"

section \<open>Files\<close>

definition write_file :: "string \<Rightarrow> bytes \<Rightarrow> (opq_os, unit) act" where
  "write_file name c = modifyA (\<lambda>s. s\<lparr>oo_files := (oo_files s)(name \<mapsto> c)\<rparr>)"

definition file_of :: "opq_os \<Rightarrow> string \<Rightarrow> bytes" where
  "file_of s name = (case oo_files s name of None \<Rightarrow> [] | Some c \<Rightarrow> c)"

definition append_file :: "string \<Rightarrow> bytes \<Rightarrow> (opq_os, unit) act" where
  "append_file name c = modifyA (\<lambda>s. s\<lparr>oo_files := (oo_files s)(name \<mapsto> file_of s name @ c)\<rparr>)"

text \<open>\<open>seek(0); write(c)\<close> in a file that is at least as long.\<close>

definition patch_start :: "string \<Rightarrow> bytes \<Rightarrow> (opq_os, unit) act" where
  "patch_start name c = modifyA (\<lambda>s. s\<lparr>oo_files := (oo_files s)(name \<mapsto> c @ drop (length c) (file_of s name))\<rparr>)"

definition os_rename :: "string \<Rightarrow> string \<Rightarrow> (opq_os, unit) act" where
  "os_rename src dst s =
     (case oo_files s src of None \<Rightarrow> Some (s, Inl FileNotFoundError)
      | Some c \<Rightarrow> Some (s\<lparr>oo_files := ((oo_files s)(src := None))(dst \<mapsto> c)\<rparr>, Inr ()))"

definition remove_if_exists :: "string \<Rightarrow> (opq_os, unit) act" where
  "remove_if_exists name = modifyA (\<lambda>s. s\<lparr>oo_files := (oo_files s)(name := None)\<rparr>)"

section \<open>Names\<close>

definition out_name :: "opq_args \<Rightarrow> string \<Rightarrow> string" where
  "out_name args base = path_join (oa_output_dir args) (base @ ''.'' @ str_int (oa_task args))"

definition tmp_name :: "opq_args \<Rightarrow> string \<Rightarrow> string" where
  "tmp_name args base = path_join (oa_output_dir args) (base @ ''.'' @ str_int (oa_task args) @ ''.tmp'')"

section \<open>The quantizer file\<close>

definition rtype_of :: "string \<Rightarrow> int" where
  "rtype_of data_type =
     (if data_type = ''uint8'' then 1 else if data_type = ''int16'' then 2 else if data_type = ''float32'' then 3 else 0)"

record codebook =
  cb_kind :: int
  cb_rtype :: int
  cb_shape :: "int \<times> int \<times> int"
  cb_codebooks :: bytes
  cb_rotate :: bytes

definition quantizer_bytes :: "codebook \<Rightarrow> bytes result" where
  "quantizer_bytes q =
     bindE (pack_B (cb_kind q)) (\<lambda>a.
     bindE (pack_B (cb_rtype q)) (\<lambda>b.
     bindE (pack_i (fst (cb_shape q))) (\<lambda>c.
     bindE (pack_i (fst (snd (cb_shape q)))) (\<lambda>d.
     bindE (pack_i (snd (snd (cb_shape q)))) (\<lambda>e.
       Inr (a @ b @ c @ d @ e @ cb_codebooks q @ (if cb_kind q = 2 then cb_rotate q else [])))))))"

text \<open>Reading it back, for vectors of \<open>vdim\<close> coordinates; numpy's \<open>reshape\<close> refuses a buffer of another size.\<close>

definition parse_quantizer :: "nat \<Rightarrow> bytes \<Rightarrow> codebook result" where
  "parse_quantizer vdim f0 =
     (let (b1, f1) = fread 1 f0
      in bindE (unpack_B b1) (\<lambda>pqtype. let (b2, f2) = fread 1 f1
      in bindE (unpack_B b2) (\<lambda>rectype. let (b3, f3) = fread 4 f2
      in bindE (unpack_i b3) (\<lambda>d0. let (b4, f4) = fread 4 f3
      in bindE (unpack_i b4) (\<lambda>d1. let (b5, f5) = fread 4 f4
      in bindE (unpack_i b5) (\<lambda>d2. let (cb, f6) = fread (d0 * d1 * d2 * 4) f5
      in if int (length cb) \<noteq> d0 * d1 * d2 * 4 \<or> d0 < 0 \<or> d1 < 0 \<or> d2 < 0 then Inl ValueError
         else if pqtype = 2 then
           (let rot = fst (fread (int (vdim * vdim * 4)) f6)
            in if length rot \<noteq> vdim * vdim * 4 then Inl ValueError
               else Inr \<lparr>cb_kind = pqtype, cb_rtype = rectype, cb_shape = (d0, d1, d2), cb_codebooks = cb, cb_rotate = rot\<rparr>)
         else Inr \<lparr>cb_kind = pqtype, cb_rtype = rectype, cb_shape = (d0, d1, d2), cb_codebooks = cb, cb_rotate = []\<rparr>))))))"

section \<open>Trained quantizers\<close>

record 'v pq_index =
  pi_shape :: "int \<times> int \<times> int"
  pi_codebooks :: bytes
  pi_rotate :: bytes
  pi_codes :: "'v list list \<Rightarrow> bytes"
  pi_recon :: "string \<Rightarrow> 'v list list \<Rightarrow> bytes"
  pi_search :: "'v list list \<Rightarrow> int option \<Rightarrow> 'v list list \<Rightarrow> int \<Rightarrow> (pyfloat list list \<times> int list list) result"

text \<open>Opening the two output files with a count of zero; the width is the second number.\<close>

definition open_outputs :: "opq_args \<Rightarrow> int \<Rightarrow> (opq_os, unit) act" where
  "open_outputs args width =
     seqA (whenA (oa_output_quan_vector_file args \<noteq> [])
        (bindA (liftE (pack_i (oa_quan_dim args))) (\<lambda>w.
           write_file (tmp_name args (oa_output_quan_vector_file args)) (le_bytes 4 0 @ w))))
     (whenA (oa_output_rec_vector_file args \<noteq> [])
        (bindA (liftE (pack_i width)) (\<lambda>w.
           write_file (tmp_name args (oa_output_rec_vector_file args)) (le_bytes 4 0 @ w))))"

definition write_rows :: "opq_args \<Rightarrow> bytes \<Rightarrow> bytes \<Rightarrow> (opq_os, unit) act" where
  "write_rows args codes recon =
     seqA (whenA (oa_output_quan_vector_file args \<noteq> [])
        (append_file (tmp_name args (oa_output_quan_vector_file args)) codes))
     (whenA (oa_output_rec_vector_file args \<noteq> [])
        (append_file (tmp_name args (oa_output_rec_vector_file args)) recon))"

text \<open>The loop over the batches: \<open>emit\<close> writes a batch, \<open>get\<close> reads the next one. The value is the number
  of rows written and the rows added to the index.\<close>

partial_function (option) quan_loop ::
  "('r \<Rightarrow> ('r \<times> nat \<times> 'v list) result) \<Rightarrow> ('v list \<Rightarrow> (opq_os, unit) act) \<Rightarrow> 'r \<Rightarrow> nat \<Rightarrow> 'v list \<Rightarrow> nat \<Rightarrow> 'v list \<Rightarrow> opq_os \<Rightarrow>
     (opq_os \<times> (nat \<times> 'v list) result) option" where
  "quan_loop get emit rd numData data writeitems added s =
     (if numData = 0 then Some (s, Inr (writeitems, added))
      else (case emit data s of None \<Rightarrow> None
            | Some (s1, Inl e) \<Rightarrow> Some (s1, Inl e)
            | Some (s1, Inr _) \<Rightarrow>
                (case get rd of Inl e \<Rightarrow> Some (s1, Inl e)
                 | Inr (rd', n', data') \<Rightarrow> quan_loop get emit rd' n' data' (writeitems + numData) (added @ data) s1)))"

definition finish_output :: "opq_args \<Rightarrow> string \<Rightarrow> nat \<Rightarrow> (opq_os, unit) act" where
  "finish_output args base writeitems =
     whenA (base \<noteq> [])
       (bindA (liftE (pack_i (int writeitems))) (\<lambda>c.
        seqA (patch_start (tmp_name args base) c)
        (seqA (remove_if_exists (out_name args base))
         (os_rename (tmp_name args base) (out_name args base)))))"

section \<open>Testing a quantizer\<close>

definition truth_set :: "string \<Rightarrow> int set result" where
  "truth_set line = bindE (mapE py_int (split_on (CHR '' '') (strip_ws (butlast line)))) (\<lambda>ids. Inr (set ids))"

definition read_truths :: "string list \<Rightarrow> nat \<Rightarrow> (int \<rightharpoonup> int set) result" where
  "read_truths lns numQuery =
     bindE (mapE (\<lambda>i. truth_set (nth_line lns i)) [0..<numQuery]) (\<lambda>ts.
       Inr (\<lambda>q. if 0 \<le> q \<and> q < int numQuery then Some (ts ! nat q) else None))"

definition quan_test ::
  "'v numpy \<Rightarrow> (nat list \<Rightarrow> nat list result) \<Rightarrow> 'v pq_index \<Rightarrow> opq_args \<Rightarrow> 'v list list \<Rightarrow> (opq_os, unit) act" where
  "quan_test np progress ix args added =
     bindA (getsA oo_files) (\<lambda>fs.
     bindA (liftE (DataReader_init np fs (oa_query_file args) (oa_dim args) (- 1) (oa_query_normalize args) (oa_data_type args) (oa_target_type args))) (\<lambda>qr.
     bindA (liftE (readbatch np qr)) (\<lambda>(qr', numQuery, query).
     bindA (liftE (open_file fs (out_name args ''truth.txt''))) (\<lambda>f.
     bindA (liftE (read_truths (lines_of (as_text f)) numQuery)) (\<lambda>gts.
     bindA (liftE (opq_search progress (pi_search ix added) query (oa_k args) (Some 1) 64)) (\<lambda>(scores, results).
     bindA (liftE (evaluate results gts [5, 10] [5, 10, 20, 40] None)) (\<lambda>_. ret ())))))))"

section \<open>Training\<close>

definition no_outputs :: "opq_args \<Rightarrow> bool" where
  "no_outputs args \<longleftrightarrow>
     oa_quan_test args = 0 \<and> oa_output_quan_vector_file args = [] \<and> oa_output_rec_vector_file args = []"

definition move_truth :: "opq_args \<Rightarrow> (opq_os, unit) act" where
  "move_truth args = os_rename (oa_output_truth args) (out_name args ''truth.txt'')"

text \<open>The part \<open>train_pq\<close> and \<open>train_opq\<close> share after the index is trained: the quantizer file, then either
  only the truth file is moved or all batches are coded, the files finished and the test run.\<close>

definition after_training ::
  "'v numpy \<Rightarrow> (nat list \<Rightarrow> nat list result) \<Rightarrow> 'v pq_index \<Rightarrow> opq_args \<Rightarrow> int \<Rightarrow> ('v list list \<Rightarrow> 'v list list) \<Rightarrow>
     'v reader \<Rightarrow> nat \<Rightarrow> 'v list list \<Rightarrow> (opq_os, unit) act" where
  "after_training np progress ix args kind cast rd numData data =
     bindA (liftE (quantizer_bytes \<lparr>cb_kind = kind, cb_rtype = rtype_of (oa_data_type args), cb_shape = pi_shape ix,
                                      cb_codebooks = pi_codebooks ix, cb_rotate = pi_rotate ix\<rparr>)) (\<lambda>qb.
     seqA (write_file (out_name args (oa_output_quantizer args)) qb)
     (if no_outputs args then move_truth args
      else
        bindA (liftE (bindE (py_get data 0) (\<lambda>row. Inr (int (length row))))) (\<lambda>width.
        seqA (open_outputs args width)
        (bindA (quan_loop (\<lambda>r. bindE (readbatch np r) (\<lambda>(r', n, d). Inr (r', n, cast d)))
                 (\<lambda>d. write_rows args (pi_codes ix d) (pi_recon ix (oa_data_type args) d)) rd numData data 0 []) (\<lambda>(writeitems, added).
         seqA (finish_output args (oa_output_quan_vector_file args) writeitems)
         (seqA (finish_output args (oa_output_rec_vector_file args) writeitems)
         (seqA (move_truth args)
         (whenA (0 < oa_quan_test args) (quan_test np progress ix args added)))))))))"

definition train_pq ::
  "'v numpy \<Rightarrow> (nat list \<Rightarrow> nat list result) \<Rightarrow> (string \<Rightarrow> int \<Rightarrow> 'v list list \<Rightarrow> 'v pq_index result) \<Rightarrow> opq_args \<Rightarrow> (opq_os, unit) act" where
  "train_pq np progress fa_train args =
     bindA (getsA oo_files) (\<lambda>fs.
     bindA (liftE (DataReader_init np fs (oa_data_file args) (oa_dim args) (oa_train_samples args) (oa_data_normalize args) (oa_data_type args) (oa_target_type args))) (\<lambda>rd0.
     bindA (liftE (readbatch np rd0)) (\<lambda>(rd, numData, data).
     bindA (liftE (py_get data 0)) (\<lambda>row.
     bindA (liftE (fa_train (''PQ'' @ str_int (oa_quan_dim args) @ ''x8'') (int (length row)) data)) (\<lambda>ix.
       after_training np progress ix args 1 id rd numData data)))))"

definition train_opq ::
  "'v numpy \<Rightarrow> (nat list \<Rightarrow> nat list result) \<Rightarrow> (string \<Rightarrow> int \<Rightarrow> 'v list list \<Rightarrow> 'v pq_index result) \<Rightarrow> ('v \<Rightarrow> 'v) \<Rightarrow> opq_args \<Rightarrow> (opq_os, unit) act" where
  "train_opq np progress fa_train as_float32 args0 =
     bindA (getsA oo_files) (\<lambda>fs.
     bindA (liftE (DataReader_init np fs (oa_data_file args0) (oa_dim args0) (oa_train_samples args0) (oa_data_normalize args0) (oa_data_type args0) (oa_target_type args0))) (\<lambda>rd0.
     bindA (liftE (readbatch np rd0)) (\<lambda>(rd, numData, data0).
       let data = map (map as_float32) data0; args = args0\<lparr>oa_data_type := ''float32''\<rparr>
       in bindA (liftE (py_get data 0)) (\<lambda>row.
          bindA (liftE (fa_train (''OPQ'' @ str_int (oa_quan_dim args) @ '',PQ'' @ str_int (oa_quan_dim args) @ ''x8'') (int (length row)) data)) (\<lambda>ix.
            after_training np progress ix args 2 (map (map as_float32)) rd numData data)))))"

section \<open>Quantizing with an existing quantizer\<close>

unbundle bit_operations_syntax

definition fourcc :: "string \<Rightarrow> int result" where
  "fourcc x =
     bindE (py_get x 0) (\<lambda>a. bindE (py_get x 1) (\<lambda>b. bindE (py_get x 2) (\<lambda>c. bindE (py_get x 3) (\<lambda>d.
       Inr (int (code a) OR push_bit 8 (int (code b)) OR push_bit 16 (int (code c)) OR push_bit 24 (int (code d)))))))"

text \<open>\<open>np.uint64(math.log2(n))\<close>: the logarithm, cut off.\<close>

fun floor_log2 :: "nat \<Rightarrow> nat" where
  "floor_log2 n = (if n < 2 then 0 else Suc (floor_log2 (n div 2)))"

declare floor_log2.simps [simp del]

definition nbits_of :: "int \<Rightarrow> int result" where
  "nbits_of n = (if n \<le> 0 then Inl ValueError else Inr (int (floor_log2 (nat n))))"

definition faiss_index_bytes :: "codebook \<Rightarrow> nat \<Rightarrow> bytes result" where
  "faiss_index_bytes q vdim =
     (case cb_shape q of (d0, d1, d2) \<Rightarrow>
       bindE (fourcc ''IxPq'') (\<lambda>h.
       bindE (nbits_of d1) (\<lambda>nbits.
       bindE (mapE id [pack_I h, pack_i (int vdim), pack_q 0, pack_q 1048576, pack_q 1048576, pack_B 1, pack_i 1,
                       pack_Q (int vdim), pack_Q d0, pack_Q nbits, pack_Q (d0 * d1 * d2)]) (\<lambda>pre.
       bindE (mapE id [pack_Q 0, pack_i 0, pack_B 0, pack_i (nbits * d0 + 1)]) (\<lambda>post.
         Inr (concat pre @ cb_codebooks q @ concat post))))))"

record 'v pq_codec =
  pc_encode :: "bytes option \<Rightarrow> 'v list list \<Rightarrow> bytes"
  pc_decode :: "bytes option \<Rightarrow> string \<Rightarrow> 'v list list \<Rightarrow> bytes"

definition dirname :: "string \<Rightarrow> string" where
  "dirname p =
     (let head = take (nat (rfind_char (CHR ''/'') p + 1)) p
      in if \<forall>c\<in>set head. c = CHR ''/'' then head else rstrip_chars ''/'' head)"

definition quan_reconstruct_vectors ::
  "'v numpy \<Rightarrow> (bytes \<Rightarrow> 'v pq_codec option) \<Rightarrow> (opq_args \<Rightarrow> (opq_os, unit) act) \<Rightarrow> opq_args \<Rightarrow> (opq_os, unit) act" where
  "quan_reconstruct_vectors np read_index zip_tool args =
     bindA (getsA oo_files) (\<lambda>fs.
     bindA (liftE (DataReader_init np fs (oa_data_file args) (oa_dim args) (oa_train_samples args) (oa_data_normalize args) (oa_data_type args) (oa_target_type args))) (\<lambda>rd0.
     bindA (liftE (readbatch np rd0)) (\<lambda>(rd, numData, data).
     let vdim = nat (r_featuredim rd) in
     bindA (liftE (open_file fs (path_join (dirname (oa_query_file args)) (oa_output_quantizer args)))) (\<lambda>qf.
     bindA (liftE (parse_quantizer vdim qf)) (\<lambda>q.
     bindA (liftE (quantizer_bytes q)) (\<lambda>qb.
     seqA (write_file (out_name args (oa_output_quantizer args)) qb)
     (if oa_output_quan_vector_file args = [] \<and> oa_output_rec_vector_file args = [] then
        seqA (move_truth args) (zip_tool args)
      else
        seqA (open_outputs args (int vdim))
        (bindA (liftE (faiss_index_bytes q vdim)) (\<lambda>ib.
         seqA (write_file ''tmp_faiss_index'' ib)
         (case read_index ib of None \<Rightarrow> raiseA (SystemExit ''1'')
          | Some ix \<Rightarrow>
              let rot = (if cb_kind q = 2 then Some (cb_rotate q) else None)
              in bindA (quan_loop (readbatch np)
                   (\<lambda>d. write_rows args (pc_encode ix rot d) (pc_decode ix rot (oa_data_type args) d)) rd numData data 0 []) (\<lambda>(writeitems, added).
                 seqA (finish_output args (oa_output_quan_vector_file args) writeitems)
                 (seqA (finish_output args (oa_output_rec_vector_file args) writeitems)
                 (seqA (remove_if_exists (out_name args ''truth.txt''))
                 (move_truth args))))))))))))))"

text \<open>The main program. \<open>gpusearch\<close> is commented out in it.\<close>

definition opq_main ::
  "'v numpy \<Rightarrow> (nat list \<Rightarrow> nat list result) \<Rightarrow> (string \<Rightarrow> int \<Rightarrow> 'v list list \<Rightarrow> 'v pq_index result) \<Rightarrow> ('v \<Rightarrow> 'v) \<Rightarrow>
     (bytes \<Rightarrow> 'v pq_codec option) \<Rightarrow> (opq_args \<Rightarrow> (opq_os, unit) act) \<Rightarrow> opq_args \<Rightarrow> (opq_os, unit) act" where
  "opq_main np progress fa_train as_float32 read_index zip_tool args =
     seqA (modifyA (\<lambda>s. s\<lparr>oo_dirs := insert (oa_output_dir args) (oo_dirs s)\<rparr>))
       (if oa_quan_type args = ''pq'' then train_pq np progress fa_train args
        else if oa_quan_type args = ''opq'' then train_opq np progress fa_train as_float32 args
        else if oa_quan_type args = ''quan_reconstruct'' then quan_reconstruct_vectors np read_index zip_tool args
        else ret ())"

section \<open>Properties\<close>

lemma fourcc_bytes: "bindE (fourcc ''IxPq'') (\<lambda>h. pack_I h) = Inr (as_bytes ''IxPq'')"
  by code_simp

text \<open>C9: the quantizer file round trip. For a product quantizer (kind 1) or one with a rotation (kind
  2, whose rotation is a square matrix of \<open>vdim\<close> rows of 4-byte entries), the bytes that training
  writes are read back by \<open>quan_reconstruct_vectors\<close> as the same kind, type, shape, codebooks and
  rotation, and writing them again gives the same bytes.\<close>

theorem quantizer_roundtrip:
  assumes "cb_kind q \<in> {1, 2}" and "0 \<le> cb_rtype q" and "cb_rtype q < 256" and "cb_shape q = (d0, d1, d2)"
    and "0 \<le> d0" "d0 < 2147483648" "0 \<le> d1" "d1 < 2147483648" "0 \<le> d2" "d2 < 2147483648"
    and "int (length (cb_codebooks q)) = d0 * d1 * d2 * 4"
    and "length (cb_rotate q) = (if cb_kind q = 2 then vdim * vdim * 4 else 0)"
  shows "\<exists>bs. quantizer_bytes q = Inr bs \<and> parse_quantizer vdim bs = Inr q \<and>
    bindE (parse_quantizer vdim bs) quantizer_bytes = Inr bs"
proof -
  have B: "pack_B n = Inr (le_bytes 1 n) \<and> unpack_B (le_bytes 1 n) = Inr n" if "0 \<le> n" "n < 256" for n
  proof -
    have "pack_B n = Inr (le_bytes 1 n)" using that by (simp add: pack_B_def pack_int_def int_lo_def int_hi_def)
    with fmt_B.dec_enc [OF this] show ?thesis by simp
  qed
  have k: "0 \<le> cb_kind q" "cb_kind q < 256" using assms(1) by auto
  let ?tail = "cb_codebooks q @ (if cb_kind q = 2 then cb_rotate q else [])"
  let ?bs = "le_bytes 1 (cb_kind q) @ le_bytes 1 (cb_rtype q) @ le_bytes 4 d0 @ le_bytes 4 d1 @ le_bytes 4 d2 @ ?tail"
  have bs: "quantizer_bytes q = Inr ?bs"
    using assms B [OF k] B [OF assms(2,3)] by (simp add: quantizer_bytes_def pack_i_ok)
  have one: "fread 1 f = (take 1 f, drop 1 f)" for f using fread_nat [of 1 f] by simp
  have cb: "fread (d0 * d1 * d2 * 4) (cb_codebooks q @ t) = (cb_codebooks q, t)"
    "fread (d0 * d1 * d2 * 4) (cb_codebooks q) = (cb_codebooks q, [])" for t
    unfolding assms(11) [symmetric] by simp_all
  have eq: "\<lparr>cb_kind = cb_kind q, cb_rtype = cb_rtype q, cb_shape = (d0, d1, d2), cb_codebooks = cb_codebooks q, cb_rotate = cb_rotate q\<rparr> = q"
    using assms(4) by (cases q) simp
  have rot: "fst (fread (int (vdim * vdim * 4)) (cb_rotate q)) = cb_rotate q" if "cb_kind q = 2"
    using assms(12) that by (simp add: fread_nat del: of_nat_mult)
  have u: "unpack_B (le_bytes 1 (cb_kind q)) = Inr (cb_kind q)" "unpack_B (le_bytes 1 (cb_rtype q)) = Inr (cb_rtype q)"
    using B [OF k] B [OF assms(2,3)] by simp_all
  have nonrot: "cb_rotate q = []" if "cb_kind q \<noteq> 2" using assms(12) that by simp
  have "parse_quantizer vdim ?bs = Inr q"
    using assms(5-12) u rot nonrot eq
    by (cases "cb_kind q = 2") (simp_all add: parse_quantizer_def one cb Let_def del: of_nat_mult)
  with bs show ?thesis by simp
qed

theorem quantizer_roundtrip_witness:
  "\<exists>bs. quantizer_bytes \<lparr>cb_kind = 2, cb_rtype = 3, cb_shape = (1, 1, 1), cb_codebooks = [1, 2, 3, 4], cb_rotate = [5, 6, 7, 8]\<rparr> = Inr bs \<and>
    parse_quantizer 1 bs = Inr \<lparr>cb_kind = 2, cb_rtype = 3, cb_shape = (1, 1, 1), cb_codebooks = [1, 2, 3, 4], cb_rotate = [5, 6, 7, 8]\<rparr>"
  using quantizer_roundtrip [of
      "\<lparr>cb_kind = 2, cb_rtype = 3, cb_shape = (1, 1, 1), cb_codebooks = [1, 2, 3, 4], cb_rotate = [5, 6, 7, 8]\<rparr>" 1 1 1 1]
  by auto

context batch_source
begin

lemma quan_loop_all:
  assumes cap: "0 < cap" and emit: "\<And>d s. emit d s = Some (E d s, Inr ())" and "ok rd" and "data \<noteq> []"
  shows "\<exists>added'. quan_loop get emit rd (length data) data w added s =
    Some (fold E (data # chunks cap (pending rd)) s, Inr (w + length data + length (pending rd), added'))"
  using assms(3,4)
proof (induction "length (pending rd)" arbitrary: rd data w added s rule: less_induct)
  case less
  from get_ok [OF less.prems(1)] obtain rd' where
    g: "get rd = Inr (rd', min cap (length (pending rd)), take cap (pending rd))" "ok rd'" "pending rd' = drop cap (pending rd)"
    by blast
  let ?d = "take cap (pending rd)"
  have step: "quan_loop get emit rd (length data) data w added s =
      quan_loop get emit rd' (length ?d) ?d (w + length data) (added @ data) (E data s)"
    using less.prems(2) g(1) by (subst quan_loop.simps) (simp add: emit min.commute)
  show ?case
  proof (cases "pending rd = []")
    case True
    then show ?thesis unfolding step by (subst quan_loop.simps) simp
  next
    case False
    have "length (pending rd') < length (pending rd)" using False cap g(3) by simp
    from less.hyps [OF this g(2), of ?d "w + length data" "added @ data" "E data s"] False cap obtain added' where
      "quan_loop get emit rd' (length ?d) ?d (w + length data) (added @ data) (E data s) =
        Some (fold E (?d # chunks cap (pending rd')) (E data s), Inr (w + length data + length ?d + length (pending rd'), added'))"
      by auto
    moreover have "chunks cap (pending rd) = ?d # chunks cap (pending rd')" using False cap g(3) by (simp add: chunks_step)
    moreover have "length ?d + length (pending rd') = length (pending rd)" using g(3) by simp
    ultimately show ?thesis unfolding step by (auto simp: add.assoc)
  qed
qed

end

definition append_codes :: "string \<Rightarrow> ('v \<Rightarrow> bytes) \<Rightarrow> 'v list \<Rightarrow> opq_os \<Rightarrow> opq_os" where
  "append_codes name enc d s = s\<lparr>oo_files := (oo_files s)(name \<mapsto> file_of s name @ concat (map enc d))\<rparr>"

lemma fold_append_codes:
  "oo_files s name = Some c \<Longrightarrow>
   fold (append_codes name enc) ds s = s\<lparr>oo_files := (oo_files s)(name \<mapsto> c @ concat (map enc (concat ds)))\<rparr>"
proof (induction ds arbitrary: s c)
  case (Cons d ds)
  let ?s = "s\<lparr>oo_files := (oo_files s)(name \<mapsto> c @ concat (map enc d))\<rparr>"
  have eq: "append_codes name enc d s = ?s" using Cons.prems by (simp add: append_codes_def file_of_def)
  have "oo_files ?s name = Some (c @ concat (map enc d))" by simp
  note IH = Cons.IH [OF this]
  have F: "(oo_files ?s)(name \<mapsto> z) = (oo_files s)(name \<mapsto> z)" and U: "?s\<lparr>oo_files := f\<rparr> = s\<lparr>oo_files := f\<rparr>" for z f
    by (auto intro: ext)
  show ?case unfolding fold_simps eq IH F U by (simp only: concat.simps map_append concat_append append_assoc)
qed (simp add: fun_upd_idem)

lemma path_join_inj: "path_join d a = path_join d b \<Longrightarrow> hd a \<noteq> CHR ''/'' \<Longrightarrow> hd b \<noteq> CHR ''/'' \<Longrightarrow> a \<noteq> [] \<Longrightarrow> b \<noteq> [] \<Longrightarrow> a = b"
  by (cases a; cases b) (auto simp: path_join_def starts_with_def split: if_splits)

text \<open>File names that are plain: non-empty and not absolute.\<close>

definition plain :: "string \<Rightarrow> bool" where
  "plain n \<longleftrightarrow> n \<noteq> [] \<and> hd n \<noteq> CHR ''/''"

lemma out_tmp_names:
  assumes "plain a" and "plain b"
  shows "out_name args a = out_name args b \<longleftrightarrow> a = b" and "tmp_name args a \<noteq> out_name args a"
proof -
  have h: "hd (n @ m) = hd n" if "plain n" for n m using that by (simp add: plain_def)
  show "out_name args a = out_name args b \<longleftrightarrow> a = b"
    using assms by (auto simp: out_name_def plain_def dest!: path_join_inj)
  show "tmp_name args a \<noteq> out_name args a"
    using assms by (auto simp: out_name_def tmp_name_def plain_def dest!: path_join_inj)
qed

text \<open>What training relies on: the codes of a batch are the codes of its rows, and the codebook's shape
  fits the header.\<close>

definition lawful_pq :: "'v pq_index \<Rightarrow> ('v list \<Rightarrow> bytes) \<Rightarrow> bool" where
  "lawful_pq ix enc \<longleftrightarrow>
     (\<forall>d. pi_codes ix d = concat (map enc d)) \<and>
     (case pi_shape ix of (a, b, c) \<Rightarrow> \<forall>x\<in>{a, b, c}. 0 \<le> x \<and> x < 2147483648)"

lemma quantizer_bytes_ok:
  assumes "lawful_pq ix enc" and "kind \<in> {1, 2}"
  shows "\<exists>qb. quantizer_bytes \<lparr>cb_kind = kind, cb_rtype = rtype_of t, cb_shape = pi_shape ix, cb_codebooks = cbs, cb_rotate = rot\<rparr> = Inr qb"
proof -
  have B: "\<exists>b. pack_B n = Inr b" if "0 \<le> n" "n < 256" for n
    using that by (simp add: pack_B_def pack_int_def int_lo_def int_hi_def)
  have "0 \<le> kind" "kind < 256" "0 \<le> rtype_of t" "rtype_of t < 256" using assms(2) by (auto simp: rtype_of_def)
  then obtain k r where kr: "pack_B kind = Inr k" "pack_B (rtype_of t) = Inr r" using B by blast
  obtain a b c where abc: "pi_shape ix = (a, b, c)" by (cases "pi_shape ix")
  with assms(1) have "\<forall>x\<in>{a, b, c}. 0 \<le> x \<and> x < 2147483648" by (simp add: lawful_pq_def)
  then have "pack_i a = Inr (le_bytes 4 a)" "pack_i b = Inr (le_bytes 4 b)" "pack_i c = Inr (le_bytes 4 c)"
    by (auto intro!: pack_i_ok)
  with kr abc show ?thesis by (simp add: quantizer_bytes_def)
qed

lemma finish_output_ok:
  assumes "oo_files s (tmp_name args base) = Some (le_bytes 4 0 @ body)" and "plain base" and "n < 2147483648"
  shows "\<exists>s'. finish_output args base n s = Some (s', Inr ()) \<and> oo_files s' (out_name args base) = Some (le_bytes 4 (int n) @ body) \<and>
    oo_files s' (tmp_name args base) = None \<and>
    (\<forall>f. f \<noteq> out_name args base \<longrightarrow> f \<noteq> tmp_name args base \<longrightarrow> oo_files s' f = oo_files s f)"
proof -
  have ne: "tmp_name args base \<noteq> out_name args base" using out_tmp_names(2) assms(2) by blast
  have b: "base \<noteq> []" using assms(2) by (simp add: plain_def)
  show ?thesis
    using assms(1,3) b ne
    by (simp add: finish_output_def pack_i_ok patch_start_def remove_if_exists_def os_rename_def file_of_def)
qed

lemma move_truth_ok:
  assumes "oo_files s (oa_output_truth args) = Some t"
  shows "\<exists>s'. move_truth args s = Some (s', Inr ()) \<and> oo_files s' (out_name args ''truth.txt'') = Some t \<and>
    (\<forall>f. f \<noteq> out_name args ''truth.txt'' \<longrightarrow> oo_files s' f = (if f = oa_output_truth args then None else oo_files s f))"
  using assms by (simp add: move_truth_def os_rename_def)

text \<open>C3: the file of quantized vectors. When \<open>train_pq\<close> is asked for quantized vectors only and the truth
  file is there, it ends, and the file under its final name is a complete vector file: the true
  number of rows of the data file in the header (patched over the placeholder), the code width,
  and the codes of every row in order, however many batches the data took; the temporary file is
  gone and the truth file has been moved.\<close>

theorem train_pq_vector_file:
  fixes np :: "'v numpy"
  assumes data: "DataReader_init np (oo_files s) (oa_data_file args) (oa_dim args) (oa_train_samples args) (oa_data_normalize args)
        (oa_data_type args) (oa_target_type args) = Inr rd0"
      "bin_ok np (nat (oa_train_samples args)) rd0" "bin_pending np rd0 = rows"
    and size: "rows \<noteq> []" "0 < oa_train_samples args" "length rows < 2147483648" "0 \<le> oa_quan_dim args" "oa_quan_dim args < 2147483648"
    and ix: "fa_train (''PQ'' @ str_int (oa_quan_dim args) @ ''x8'') (int (length (hd rows))) (take (nat (oa_train_samples args)) rows) = Inr ix"
      "lawful_pq ix enc"
    and out: "plain (oa_output_quan_vector_file args)" "oa_output_rec_vector_file args = []" "oa_quan_test args = 0"
      "oa_output_quan_vector_file args \<noteq> ''truth.txt''"
    and truth: "oo_files s (oa_output_truth args) = Some t" "oa_output_truth args \<noteq> out_name args (oa_output_quantizer args)"
      "oa_output_truth args \<noteq> out_name args (oa_output_quan_vector_file args)"
      "oa_output_truth args \<noteq> tmp_name args (oa_output_quan_vector_file args)"
      "tmp_name args (oa_output_quan_vector_file args) \<noteq> out_name args ''truth.txt''"
  shows "\<exists>s'. train_pq np progress fa_train args s = Some (s', Inr ()) \<and>
    oo_files s' (out_name args (oa_output_quan_vector_file args)) =
      Some (le_bytes 4 (int (length rows)) @ le_bytes 4 (oa_quan_dim args) @ concat (map enc rows)) \<and>
    oo_files s' (tmp_name args (oa_output_quan_vector_file args)) = None \<and>
    oo_files s' (out_name args ''truth.txt'') = Some t"
proof -
  let ?cap = "nat (oa_train_samples args)" and ?base = "oa_output_quan_vector_file args"
  let ?tmp = "tmp_name args ?base"
  define D where "D = take (nat (oa_train_samples args)) rows"
  have cap: "0 < ?cap" using size by simp
  have base: "?base \<noteq> []" using out(1) by (simp add: plain_def)
  from bin_source.get_ok [OF data(2)] obtain rd where rd: "readbatch np rd0 = Inr (rd, length D, D)"
    "bin_ok np ?cap rd" "bin_pending np rd = drop ?cap rows" unfolding data(3) D_def by (auto simp: min.commute)
  have dne: "D \<noteq> []" using size cap by (simp add: D_def)
  define row where "row = hd rows"
  have row: "py_get D 0 = Inr row" using dne cap by (simp add: row_def D_def hd_conv_nth)
  note law = ix(2) and ix = ix(1) [folded row_def D_def]
  from quantizer_bytes_ok [OF law, of 1] obtain qb where qb:
    "quantizer_bytes \<lparr>cb_kind = 1, cb_rtype = rtype_of (oa_data_type args), cb_shape = pi_shape ix, cb_codebooks = pi_codebooks ix, cb_rotate = pi_rotate ix\<rparr> = Inr qb"
    by blast
  define s1 where "s1 = s\<lparr>oo_files := (oo_files s)(out_name args (oa_output_quantizer args) \<mapsto> qb)\<rparr>"
  define s2 where "s2 = s1\<lparr>oo_files := (oo_files s1)(?tmp \<mapsto> le_bytes 4 0 @ le_bytes 4 (oa_quan_dim args))\<rparr>"
  have emit: "write_rows args (pi_codes ix d) (pi_recon ix (oa_data_type args) d) st = Some (append_codes ?tmp enc d st, Inr ())" for d st
    using base out(2) law by (simp add: write_rows_def append_file_def append_codes_def lawful_pq_def)
  have get: "bindE m Inr = m" for m :: "'x result" by (cases m) simp_all
  from bin_source.quan_loop_all [OF cap, of "\<lambda>d. write_rows args (pi_codes ix d) (pi_recon ix (oa_data_type args) d)", OF emit rd(2) dne, of 0 "[]" s2]
  obtain added where loop: "quan_loop (readbatch np) (\<lambda>d. write_rows args (pi_codes ix d) (pi_recon ix (oa_data_type args) d)) rd (length D) D 0 [] s2 =
      Some (fold (append_codes ?tmp enc) (D # chunks ?cap (drop ?cap rows)) s2, Inr (length rows, added))"
    unfolding rd(3) by (auto simp: D_def)
  define s3 where "s3 = fold (append_codes ?tmp enc) (D # chunks ?cap (drop ?cap rows)) s2"
  have "concat (D # chunks ?cap (drop ?cap rows)) = rows" using cap by (simp add: concat_chunks D_def)
  moreover have tmp2: "oo_files s2 ?tmp = Some (le_bytes 4 0 @ le_bytes 4 (oa_quan_dim args))" by (simp add: s2_def)
  ultimately have s3: "s3 = s2\<lparr>oo_files := (oo_files s2)(?tmp \<mapsto> (le_bytes 4 0 @ le_bytes 4 (oa_quan_dim args)) @ concat (map enc rows))\<rparr>"
    unfolding s3_def using fold_append_codes [OF tmp2, of enc "D # chunks ?cap (drop ?cap rows)"] by (simp only:)
  have tmp3: "oo_files s3 ?tmp = Some (le_bytes 4 0 @ le_bytes 4 (oa_quan_dim args) @ concat (map enc rows))" by (simp add: s3)
  from finish_output_ok [OF tmp3 out(1) size(3)] obtain s4 where s4: "finish_output args ?base (length rows) s3 = Some (s4, Inr ())"
    "oo_files s4 (out_name args ?base) = Some (le_bytes 4 (int (length rows)) @ le_bytes 4 (oa_quan_dim args) @ concat (map enc rows))"
    "oo_files s4 ?tmp = None" "\<forall>f. f \<noteq> out_name args ?base \<longrightarrow> f \<noteq> ?tmp \<longrightarrow> oo_files s4 f = oo_files s3 f" by auto
  have "oo_files s4 (oa_output_truth args) = Some t"
    using s4(4) truth by (simp add: s3 s2_def s1_def)
  from move_truth_ok [OF this] obtain s5 where s5: "move_truth args s4 = Some (s5, Inr ())" "oo_files s5 (out_name args ''truth.txt'') = Some t"
    "\<forall>f. f \<noteq> out_name args ''truth.txt'' \<longrightarrow> oo_files s5 f = (if f = oa_output_truth args then None else oo_files s4 f)" by blast
  have "plain ''truth.txt''" by (simp add: plain_def)
  then have "out_name args ?base \<noteq> out_name args ''truth.txt''" using out_tmp_names(1) out(1,4) by blast
  then have files: "oo_files s5 (out_name args ?base) = oo_files s4 (out_name args ?base)" "oo_files s5 ?tmp = None"
    using s5(3) truth s4(3) by auto
  have "open_outputs args (int (length row)) s1 = Some (s2, Inr ())"
    using base out(2) size(4,5) by (simp add: open_outputs_def write_file_def pack_i_ok s2_def bindA_def)
  moreover have "finish_output args [] (length rows) s4 = Some (s4, Inr ())" by (simp add: finish_output_def)
  moreover have "write_file (out_name args (oa_output_quantizer args)) qb s = Some (s1, Inr ())"
    by (simp add: write_file_def s1_def)
  ultimately have "after_training np progress ix args 1 id rd (length D) D s = Some (s5, Inr ())"
    using qb row loop [folded s3_def] s4(1) s5(1) out(2,3) base
    by (simp add: after_training_def get no_outputs_def bindA_def del: py_get_0_1)
  moreover have "train_pq np progress fa_train args s = after_training np progress ix args 1 id rd (length D) D s"
    by (simp only: train_pq_def bindA_act data(1) rd(1) prod.case row ix)
  ultimately have "train_pq np progress fa_train args s = Some (s5, Inr ())" by simp
  with s4(2) s5(2) files show ?thesis by simp
qed

definition byte_pq :: "int pq_index" where
  "byte_pq = \<lparr>pi_shape = (1, 1, 1), pi_codebooks = [0, 0, 0, 0], pi_rotate = [], pi_codes = (\<lambda>d. concat (map (map word_of_int) d)),
     pi_recon = (\<lambda>_ d. concat (map (map word_of_int) d)), pi_search = (\<lambda>_ _ _ _. Inr ([], []))\<rparr>"

definition sample_train :: opq_args where
  "sample_train = sample_opq\<lparr>oa_train_samples := 2, oa_output_quan_vector_file := ''v'', oa_quan_dim := 1\<rparr>"

definition sample_os :: opq_os where
  "sample_os = \<lparr>oo_files = sample_files(''truth.txt'' \<mapsto> [7]), oo_dirs = {}\<rparr>"

theorem train_pq_vector_file_witness:
  "\<exists>s'. train_pq np_int8 tqdm_module (\<lambda>_ _ _. Inr byte_pq) sample_train sample_os = Some (s', Inr ()) \<and>
    oo_files s' ''quan_tmp/v.0'' = Some (le_bytes 4 3 @ le_bytes 4 1 @ [1, 2, 3]) \<and> oo_files s' ''quan_tmp/v.0.tmp'' = None \<and>
    oo_files s' ''quan_tmp/truth.txt.0'' = Some [7]"
proof -
  let ?rd = "\<lparr>r_mytype = ''int8'', r_bin = concat [[1], [2], [3]] @ [], r_lines = [], r_featuredim = 1, r_isbinary = True,
    r_type = ''int8'', r_query = replicate 2 [0], r_normalize = 0\<rparr>"
  have bin: "0 \<le> find_sub ''d.bin'' ''.bin''" by code_simp
  have z: "np_zero np_int8 = 0" by (simp add: np_int8_def)
  have a: "oa_data_file sample_train = ''d.bin''" "oa_dim sample_train = 1" "oa_train_samples sample_train = 2" "oa_data_normalize sample_train = 0"
    "oa_data_type sample_train = ''int8''" "oa_target_type sample_train = ''int8''" "oa_quan_dim sample_train = 1"
    "oa_output_quan_vector_file sample_train = ''v''" "oa_output_rec_vector_file sample_train = []" "oa_quan_test sample_train = 0"
    "oa_output_truth sample_train = ''truth.txt''" "oa_output_quantizer sample_train = ''quantizer.bin''" "oa_output_dir sample_train = ''quan_tmp''"
    "oa_task sample_train = 0"
    by (simp_all add: sample_train_def sample_opq_def opq_defaults_def)
  have n0: "str_int 0 = ''0''" by code_simp
  have names: "out_name sample_train b = ''quan_tmp/'' @ b @ ''.0''" "tmp_name sample_train b = ''quan_tmp/'' @ b @ ''.0.tmp''" if "plain b" for b
    using that by (cases b; simp add: out_name_def tmp_name_def path_join_def a n0 starts_with_def ends_with_def plain_def)+
  have pl: "plain ''v''" "plain ''truth.txt''" "plain ''quantizer.bin''" by (simp_all add: plain_def)
  have init: "DataReader_init np_int8 (oo_files sample_os) ''d.bin'' 1 2 0 ''int8'' ''int8'' = Inr ?rd"
    using DataReader_init_bin [of "oo_files sample_os" "''d.bin''" 3 1 "concat [[1], [2], [3]] @ []" np_int8 1 2 0 "''int8''" "''int8''"] bin
    by (simp add: sample_os_def sample_files_def z)
  have pend: "bin_pending np_int8 ?rd = [[1], [2], [3]]"
    by (subst bin_pending_file [of np_int8 "''int8''" 1 "[[1], [2], [3]]" "[]" _ "''int8''"]) simp_all
  have ok: "bin_ok np_int8 2 ?rd" by (simp add: bin_ok_def bin_row_size_def)
  have law: "lawful_pq byte_pq (map word_of_int)" by (simp add: lawful_pq_def byte_pq_def)
  have t: "oo_files sample_os ''truth.txt'' = Some [7]" by (simp add: sample_os_def)
  have "\<exists>s'. train_pq np_int8 tqdm_module (\<lambda>_ _ _. Inr byte_pq) sample_train sample_os = Some (s', Inr ()) \<and>
    oo_files s' (out_name sample_train (oa_output_quan_vector_file sample_train)) =
      Some (le_bytes 4 (int (length [[1], [2], [3 :: int]])) @ le_bytes 4 (oa_quan_dim sample_train) @ concat (map (map word_of_int) [[1], [2], [3]])) \<and>
    oo_files s' (tmp_name sample_train (oa_output_quan_vector_file sample_train)) = None \<and>
    oo_files s' (out_name sample_train ''truth.txt'') = Some [7]"
    by (rule train_pq_vector_file [where np = np_int8 and ?rd0.0 = ?rd and ix = byte_pq])
      (simp_all add: a init pend [simplified] ok [simplified] law t names pl)
  then show ?thesis by (simp add: a names pl)
qed

text \<open>C16: the truth file that both training functions move at their end is not written by the program
  itself (the call of \<open>gpusearch\<close> is commented out): with no output asked for and no truth file in
  place, training a product quantizer from any readable data file with at least one row writes the
  quantizer and then ends in FileNotFoundError.\<close>

theorem train_pq_needs_truth:
  assumes "DataReader_init np (oo_files s) (oa_data_file args) (oa_dim args) (oa_train_samples args) (oa_data_normalize args)
        (oa_data_type args) (oa_target_type args) = Inr rd0"
    and "readbatch np rd0 = Inr (rd, n, data)" and "data \<noteq> []" 
    and "fa_train (''PQ'' @ str_int (oa_quan_dim args) @ ''x8'') (int (length (hd data))) data = Inr ix" and "lawful_pq ix enc"
    and "no_outputs args" and "oo_files s (oa_output_truth args) = None"
    and "oa_output_truth args \<noteq> out_name args (oa_output_quantizer args)" and "oa_quan_type args = ''pq''"
  shows "\<exists>s' qb. opq_main np progress fa_train f32 ri zt args s = Some (s', Inl FileNotFoundError) \<and>
    oo_files s' (out_name args (oa_output_quantizer args)) = Some qb"
proof -
  define s0 where "s0 = s\<lparr>oo_dirs := insert (oa_output_dir args) (oo_dirs s)\<rparr>"
  have files: "oo_files s0 = oo_files s" by (simp add: s0_def)
  have row: "py_get data 0 = Inr (hd data)" using assms(3) by (simp add: hd_conv_nth)
  from quantizer_bytes_ok [OF assms(5), of 1] obtain qb where qb:
    "quantizer_bytes \<lparr>cb_kind = 1, cb_rtype = rtype_of (oa_data_type args), cb_shape = pi_shape ix, cb_codebooks = pi_codebooks ix, cb_rotate = pi_rotate ix\<rparr> = Inr qb"
    by blast
  have "opq_main np progress fa_train f32 ri zt args s = train_pq np progress fa_train args s0"
    using assms(9) by (simp add: opq_main_def s0_def)
  also have "\<dots> = after_training np progress ix args 1 id rd n data s0"
    unfolding train_pq_def
    by (simp only: files bindA_act assms(1,2,4) prod.case row)
  also have "\<dots> = Some (s0\<lparr>oo_files := (oo_files s0)(out_name args (oa_output_quantizer args) \<mapsto> qb)\<rparr>, Inl FileNotFoundError)"
    using qb assms(6-8) by (simp add: after_training_def write_file_def move_truth_def os_rename_def s0_def)
  finally show ?thesis by simp
qed

theorem train_pq_needs_truth_witness:
  "\<exists>s' qb. opq_main np_int8 tqdm_module (\<lambda>_ _ _. Inr byte_pq) id (\<lambda>_. None) (\<lambda>_. ret ()) (sample_opq\<lparr>oa_quan_type := ''pq'', oa_train_samples := 2\<rparr>)
      \<lparr>oo_files = sample_files, oo_dirs = {}\<rparr> = Some (s', Inl FileNotFoundError) \<and>
    oo_files s' (out_name (sample_opq\<lparr>oa_quan_type := ''pq'', oa_train_samples := 2\<rparr>) ''quantizer.bin'') = Some qb"
proof -
  let ?args = "sample_opq\<lparr>oa_quan_type := ''pq'', oa_train_samples := 2\<rparr>" and ?s = "\<lparr>oo_files = sample_files, oo_dirs = {}\<rparr>"
  let ?rd = "\<lparr>r_mytype = ''int8'', r_bin = [1, 2, 3], r_lines = [], r_featuredim = 1, r_isbinary = True,
    r_type = ''int8'', r_query = replicate 2 [0 :: int], r_normalize = 0\<rparr>"
  have bin: "0 \<le> find_sub ''d.bin'' ''.bin''" by code_simp
  have z: "np_zero np_int8 = 0" by (simp add: np_int8_def)
  have a: "oa_data_file ?args = ''d.bin''" "oa_dim ?args = 1" "oa_train_samples ?args = 2" "oa_data_normalize ?args = 0"
    "oa_data_type ?args = ''int8''" "oa_target_type ?args = ''int8''" "oa_output_truth ?args = ''truth.txt''"
    "oa_output_quantizer ?args = ''quantizer.bin''" "oa_quan_type ?args = ''pq''" "no_outputs ?args"
    by (simp_all add: sample_opq_def opq_defaults_def no_outputs_def)
  have init: "DataReader_init np_int8 (oo_files ?s) ''d.bin'' 1 2 0 ''int8'' ''int8'' = Inr ?rd"
    using DataReader_init_bin [of sample_files "''d.bin''" 3 1 "[1, 2, 3]" np_int8 1 2 0 "''int8''" "''int8''"] bin
    by (simp add: sample_files_def z)
  have pend: "bin_pending np_int8 ?rd = [[1], [2], [3]]"
    by (subst bin_pending_file [of np_int8 "''int8''" 1 "[[1], [2], [3]]" "[]" _ "''int8''"]) simp_all
  have ok: "bin_ok np_int8 2 ?rd" by (simp add: bin_ok_def bin_row_size_def)
  from bin_source.get_ok [OF ok] obtain rd where rd: "readbatch np_int8 ?rd = Inr (rd, 2, [[1], [2]])"
    unfolding pend by (auto simp: eval_nat_numeral)
  have law: "lawful_pq byte_pq (map word_of_int)" by (simp add: lawful_pq_def byte_pq_def)
  have n: "''truth.txt'' \<noteq> out_name ?args ''quantizer.bin''" by code_simp
  have none: "oo_files ?s ''truth.txt'' = None" by (simp add: sample_files_def)
  from train_pq_needs_truth [of np_int8 ?s ?args ?rd rd 2 "[[1], [2]]" "\<lambda>_ _ _. Inr byte_pq" byte_pq "map word_of_int" tqdm_module id "\<lambda>_. None" "\<lambda>_. ret ()"]
  show ?thesis unfolding a using init rd law n none a(10) by blast
qed

end
