(* ===== verification/Ae_Logs.thy ===== *)
theory Ae_Logs
  imports Data_Reader
begin

text \<open>
  What the log scripts of \<open>Script_AE\<close> share: reading a log line by line, cells and rows of the csv
  tables they write, and the loops of \<open>Figure1\<close>, \<open>Figure9\<close> and \<open>Figure10\<close> that skip to a marker and
  collect latencies and recalls. The state of a script is the record \<open>log\<close> extended by its lists: the
  unread lines, the current line and its words, and the line count. \<open>csv.writer\<close> is modelled up to
  the text of a cell: a table is a list of rows of cells.
\<close>

datatype cell = CStr string | CFloat pyfloat | CInt int

type_synonym table = "cell list list"

text \<open>\<open>zip\<close> of several columns: as many rows as the shortest column has cells.\<close>

definition zip_columns :: "'a list list \<Rightarrow> 'a list list" where
  "zip_columns cols =
     (if cols = [] then [] else map (\<lambda>i. map (\<lambda>c. c ! i) cols) [0..<Min (set (map length cols))])"

record log =
  lg_lines :: "string list"
  lg_line :: string
  lg_group :: "string list"
  lg_count :: nat

section \<open>Reading\<close>

text \<open>\<open>line = log_f.readline(); line_count += 1\<close>: at the end of the file the line is empty.\<close>

definition readline :: "('d log_scheme, string) act" where
  "readline = bindA (getsA lg_lines) (\<lambda>ls.
     let l = (case ls of [] \<Rightarrow> '''' | x # _ \<Rightarrow> x)
     in bindA (modifyA (\<lambda>s. s\<lparr>lg_lines := tl ls, lg_line := l, lg_count := Suc (lg_count s)\<rparr>)) (\<lambda>_. ret l))"

text \<open>\<open>result_group = line.split()\<close>.\<close>

definition regroup :: "('d log_scheme, string list) act" where
  "regroup = bindA (getsA lg_line) (\<lambda>l.
     bindA (modifyA (\<lambda>s. s\<lparr>lg_group := split_ws l\<rparr>)) (\<lambda>_. ret (split_ws l)))"

definition read_group :: "('d log_scheme, string list) act" where
  "read_group = bindA readline (\<lambda>_. regroup)"

text \<open>\<open>result_group[i]\<close> for a test that also asks for enough words.\<close>

definition word_is :: "string list \<Rightarrow> nat \<Rightarrow> string \<Rightarrow> bool" where
  "word_is g i w \<longleftrightarrow> i < length g \<and> g ! i = w"

definition float_at :: "string list \<Rightarrow> nat \<Rightarrow> pyfloat result" where
  "float_at g i = bindE (py_get g (int i)) py_float"

text \<open>\<open>rstrip\<close> of one character, and \<open>log_f = open(name)\<close>.\<close>

definition rstrip_ch :: "char \<Rightarrow> string \<Rightarrow> string" where
  "rstrip_ch c s = rev (dropWhile (\<lambda>x. x = c) (rev s))"

definition open_log :: "filesys \<Rightarrow> string \<Rightarrow> ('d log_scheme, unit) act" where
  "open_log fs name = bindA (liftE (open_file fs name)) (\<lambda>c. modifyA (\<lambda>s. s\<lparr>lg_lines := lines_of (as_text c)\<rparr>))"

section \<open>Figures 1, 9 and 10\<close>

record latency_log = log +
  ll_latency :: "cell list"
  ll_accuracy :: "cell list"
  ll_last :: "string list"

text \<open>The first loop looks for the line \<open>_ Total Vector\<close>. It does not test for the end of the file.\<close>

definition is_vector_line :: "string list \<Rightarrow> bool" where
  "is_vector_line g \<longleftrightarrow> 2 < length g \<and> g ! 1 = ''Total'' \<and> g ! 2 = ''Vector''"

definition skip_body :: "('d log_scheme, bool) act" where
  "skip_body = bindA read_group (\<lambda>g. ret (\<not> is_vector_line g))"

definition skip_to_vector :: "('d log_scheme, unit) act" where
  "skip_to_vector = loopA skip_body"

text \<open>The second loop collects; its variant for static logs also stops at \<open>_ Updating numThread:\<close>.\<close>

definition is_latency_line :: "string list \<Rightarrow> bool" where
  "is_latency_line g \<longleftrightarrow> 1 < length g \<and> g ! 0 = ''Total'' \<and> g ! 1 = ''Latency''"

definition is_updating_line :: "string list \<Rightarrow> bool" where
  "is_updating_line g \<longleftrightarrow> 3 < length g \<and> g ! 1 = ''Updating'' \<and> g ! 2 = ''numThread:''"

definition take_latency :: "(latency_log, string list) act" where
  "take_latency =
     bindA readline (\<lambda>_. bindA read_group (\<lambda>g.
     bindA (liftE (float_at g 1)) (\<lambda>x.
     bindA (modifyA (\<lambda>s. s\<lparr>ll_latency := ll_latency s @ [CFloat x], ll_last := g\<rparr>)) (\<lambda>_. ret g))))"

definition take_recall :: "string list \<Rightarrow> (latency_log, unit) act" where
  "take_recall g =
     whenA (2 < length g \<and> g ! 1 = ''Recall10@10:'')
       (bindA (liftE (float_at g 2)) (\<lambda>x. modifyA (\<lambda>s. s\<lparr>ll_accuracy := ll_accuracy s @ [CFloat x]\<rparr>)))"

definition collect_body :: "bool \<Rightarrow> (latency_log, bool) act" where
  "collect_body static =
     bindA readline (\<lambda>l.
       if l = '''' then ret False
       else bindA regroup (\<lambda>g.
         if static \<and> is_updating_line g then ret False
         else bindA (if is_latency_line g then take_latency else ret g) (\<lambda>g'.
              bindA (take_recall g') (\<lambda>_. ret True))))"

definition collect_log :: "bool \<Rightarrow> (latency_log, unit) act" where
  "collect_log static = loopA (collect_body static)"

text \<open>One log file: both lists start with an empty cell.\<close>

definition latency_file :: "filesys \<Rightarrow> string \<Rightarrow> bool \<Rightarrow> (latency_log, unit) act" where
  "latency_file fs name static =
     bindA (liftE (open_file fs name)) (\<lambda>c.
     seqA (modifyA (\<lambda>s. s\<lparr>lg_lines := lines_of (as_text c), lg_count := 0, ll_latency := [CStr ''''], ll_accuracy := [CStr '''']\<rparr>))
       (if static then collect_log True else seqA skip_to_vector (collect_log False)))"

definition latency_start :: latency_log where
  "latency_start = \<lparr>lg_lines = [], lg_line = '''', lg_group = [], lg_count = 0, ll_latency = [], ll_accuracy = [], ll_last = []\<rparr>"

text \<open>The loop over the files, which keeps the two columns of every file; \<open>last_data_group\<close> stays from
  file to file. \<open>after\<close> is what the script does with it after each file.\<close>

fun latency_files ::
  "filesys \<Rightarrow> (string \<times> bool) list \<Rightarrow> (string list \<Rightarrow> 'b result) \<Rightarrow> latency_log \<Rightarrow>
     (cell list \<times> cell list \<times> 'b) list result option" where
  "latency_files fs [] after s = Some (Inr [])"
| "latency_files fs ((name, static) # files) after s =
     (case latency_file fs name static s of None \<Rightarrow> None
      | Some (s', Inl e) \<Rightarrow> Some (Inl e)
      | Some (s', Inr _) \<Rightarrow>
          (case after (ll_last s') of Inl e \<Rightarrow> Some (Inl e)
           | Inr b \<Rightarrow>
               (case latency_files fs files after s' of None \<Rightarrow> None
                | Some (Inl e) \<Rightarrow> Some (Inl e)
                | Some (Inr rest) \<Rightarrow> Some (Inr ((ll_latency s', ll_accuracy s', b) # rest)))))"

section \<open>The scripts\<close>

text \<open>\<open>Figure1/process_motivation.py\<close>: the columns of both logs, and the percentiles of the last latency
  line of each.\<close>

definition percentile :: "cell list" where
  "percentile = [CStr '''', CFloat (fl64 (5 / 10)), CFloat (fl64 (9 / 10)), CFloat (fl64 (95 / 100)),
     CFloat (fl64 (99 / 100)), CFloat (fl64 (999 / 1000)), CInt 1]"

definition percentile_row :: "string list \<Rightarrow> cell list result" where
  "percentile_row last_data_group =
     bindE (mapE (\<lambda>i. bindE (float_at last_data_group i) (\<lambda>x. Inr (CFloat x))) [2..<8]) (\<lambda>xs. Inr (CStr '''' # xs))"

definition process_motivation :: "filesys \<Rightarrow> (table \<times> table) result option" where
  "process_motivation fs =
     (case latency_files fs [(''log_static.log'', True), (''log_nolimit.log'', False)] percentile_row latency_start of
        None \<Rightarrow> None
      | Some r \<Rightarrow> Some (bindE r (\<lambda>cols.
          let lat = map fst cols; acc = map (fst \<circ> snd) cols; base = map (snd \<circ> snd) cols
          in Inr (zip_columns [lat ! 0, acc ! 0, lat ! 1, acc ! 1],
                  zip_columns [base ! 0, percentile, base ! 1, percentile]))))"

text \<open>\<open>Figure9/process_shifting.py\<close> and \<open>Figure10/process_para_range.py\<close>: eight columns of four logs.\<close>

definition eight_columns :: "(cell list \<times> cell list \<times> unit) list \<Rightarrow> table" where
  "eight_columns cols = zip_columns (concat (map (\<lambda>(lat, acc, u). [lat, acc]) cols))"

definition process_shifting :: "filesys \<Rightarrow> table result option" where
  "process_shifting fs =
     (case latency_files fs [(''log_inplace.log'', False), (''log_static.log'', True), (''log_noreassign.log'', False),
          (''log_split+reassign.log'', False)] (\<lambda>_. Inr ()) latency_start of
        None \<Rightarrow> None | Some r \<Rightarrow> Some (bindE r (\<lambda>cols. Inr (eight_columns cols))))"

definition process_para_range :: "filesys \<Rightarrow> string \<Rightarrow> table result option" where
  "process_para_range fs argv1 =
     (case latency_files fs (map (\<lambda>i. (argv1 @ str_int i, False)) [0, 8, 64, 128]) (\<lambda>_. Inr ()) latency_start of
        None \<Rightarrow> None | Some r \<Rightarrow> Some (bindE r (\<lambda>cols. Inr (eight_columns cols))))"

section \<open>Loops over a log\<close>

lemma readline_run [simp]:
  "readline s = Some (s\<lparr>lg_lines := tl (lg_lines s), lg_line := (case lg_lines s of [] \<Rightarrow> '''' | x # _ \<Rightarrow> x), lg_count := Suc (lg_count s)\<rparr>,
     Inr (case lg_lines s of [] \<Rightarrow> '''' | x # _ \<Rightarrow> x))"
  by (simp add: readline_def Let_def)

lemma regroup_run [simp]:
  "regroup s = Some (s\<lparr>lg_group := split_ws (lg_line s)\<rparr>, Inr (split_ws (lg_line s)))"
  by (simp add: regroup_def)

lemma read_group_run [simp]:
  "read_group s = Some (s\<lparr>lg_lines := tl (lg_lines s), lg_line := (case lg_lines s of [] \<Rightarrow> '''' | x # _ \<Rightarrow> x),
       lg_count := Suc (lg_count s), lg_group := split_ws (case lg_lines s of [] \<Rightarrow> '''' | x # _ \<Rightarrow> x)\<rparr>,
     Inr (split_ws (case lg_lines s of [] \<Rightarrow> '''' | x # _ \<Rightarrow> x)))"
  by (simp add: read_group_def bindA_def)

lemma loopA_returns:
  fixes m :: "'s \<Rightarrow> nat"
  assumes "I s" and step: "\<And>s. I s \<Longrightarrow> \<exists>s' r. body s = Some (s', r) \<and> (r = Inr True \<longrightarrow> I s' \<and> m s' < m s)"
  shows "\<exists>s' r. loopA body s = Some (s', r)"
  using assms(1)
proof (induction "m s" arbitrary: s rule: less_induct)
  case less
  from step [OF less.prems] obtain s' r where b: "body s = Some (s', r)" and d: "r = Inr True \<longrightarrow> I s' \<and> m s' < m s" by blast
  show ?case
  proof (cases "r = Inr True")
    case True
    with d less.hyps [of s'] b show ?thesis by (simp add: loopA_unfold)
  next
    case False
    with b show ?thesis by (cases r) (auto simp: loopA_raise loopA_unfold)
  qed
qed

text \<open>The contract of a loop over a log: every round returns, and one that goes on has consumed a
  line. Then the loop returns, with a value or an exception.\<close>

locale log_loop =
  fixes body :: "('s, bool) act" and todo :: "'s \<Rightarrow> nat"
  assumes round: "\<exists>s' r. body s = Some (s', r) \<and> (r = Inr True \<longrightarrow> todo s' < todo s)"
begin

lemma loop_returns: "\<exists>s' r. loopA body s = Some (s', r)"
  using round by (intro loopA_returns [where I = "\<lambda>_. True" and m = todo]) auto

end

text \<open>The contract of a loop that collects from a log: the lines of a well-formed entry are consumed by some
  rounds, which add what the entry holds to what was collected, and at the end of the log the loop
  breaks. Then a log of entries is collected entry by entry.\<close>

locale entry_loop =
  fixes body :: "('d log_scheme, bool) act" and elines :: "'e \<Rightarrow> string list" and wf :: "'e \<Rightarrow> bool"
    and acc :: "'d log_scheme \<Rightarrow> 'a" and add :: "'e \<Rightarrow> 'a \<Rightarrow> 'a"
  assumes entry: "wf e \<Longrightarrow> lg_lines s = elines e @ rest \<Longrightarrow>
      \<exists>s'. loopA body s = loopA body s' \<and> lg_lines s' = rest \<and> acc s' = add e (acc s)"
    and at_end: "lg_lines s = [] \<Longrightarrow> \<exists>s'. body s = Some (s', Inr False) \<and> acc s' = acc s"
begin

lemma entries_before:
  assumes "\<forall>e\<in>set es. wf e" and "lg_lines s = concat (map elines es) @ rest"
  shows "\<exists>s'. loopA body s = loopA body s' \<and> lg_lines s' = rest \<and> acc s' = fold add es (acc s)"
  using assms
proof (induction es arbitrary: s)
  case (Cons e es)
  from entry [of e s "concat (map elines es) @ rest"] Cons.prems obtain s1 where
    "loopA body s = loopA body s1" "lg_lines s1 = concat (map elines es) @ rest" "acc s1 = add e (acc s)" by auto
  with Cons.IH [of s1] Cons.prems show ?case by auto
qed auto

lemma entries:
  assumes "\<forall>e\<in>set es. wf e" and "lg_lines s = concat (map elines es)"
  shows "\<exists>s'. loopA body s = Some (s', Inr ()) \<and> acc s' = fold add es (acc s)"
proof -
  from entries_before [OF assms(1), of s "[]"] assms(2) obtain s1 where
    s1: "loopA body s = loopA body s1" "lg_lines s1 = []" "acc s1 = fold add es (acc s)" by auto
  from at_end [OF s1(2)] obtain s' where b: "body s1 = Some (s', Inr False)" "acc s' = acc s1" by blast
  with s1 show ?thesis by (simp add: loopA_unfold [of body, OF b(1)])
qed

end

text \<open>Lines that a round just skips.\<close>

lemma loopA_skip_lines:
  assumes skip: "\<And>t l ls. P l \<Longrightarrow> lg_lines t = l # ls \<Longrightarrow>
      \<exists>t'. body t = Some (t', Inr True) \<and> lg_lines t' = ls \<and> acc t' = acc t"
    and "\<forall>l\<in>set xs. P l" and "lg_lines s = xs @ rest"
  shows "\<exists>s'. loopA body s = loopA body s' \<and> lg_lines s' = rest \<and> acc s' = acc s"
  using assms(2,3)
proof (induction xs arbitrary: s)
  case Nil
  then show ?case by auto
next
  case (Cons l xs)
  then obtain t where t: "body s = Some (t, Inr True)" "lg_lines t = xs @ rest" "acc t = acc s"
    using skip [of l s "xs @ rest"] by auto
  with Cons.IH [of t] Cons.prems show ?case by (auto simp: loopA_unfold [of body, OF t(1)])
qed

lemma collect_round:
  "\<exists>s' r. collect_body static s = Some (s', r) \<and> (r = Inr True \<longrightarrow> length (lg_lines s') < length (lg_lines s))"
proof (cases "lg_lines s")
  case Nil
  then show ?thesis by (simp add: collect_body_def bindA_def)
next
  case (Cons l ls)
  have "length (tl (tl ls)) \<le> length ls" by simp
  then show ?thesis
    using Cons
    by (auto simp: collect_body_def bindA_def take_latency_def take_recall_def whenA_def less_Suc_eq_le split: sum.splits)
qed

interpretation collect: log_loop "collect_body static" "\<lambda>s. length (lg_lines s)" for static
  by unfold_locales (rule collect_round)

lemma skip_body_run [simp]:
  "skip_body s = Some (s\<lparr>lg_lines := tl (lg_lines s), lg_line := (case lg_lines s of [] \<Rightarrow> '''' | x # _ \<Rightarrow> x),
       lg_count := Suc (lg_count s), lg_group := split_ws (case lg_lines s of [] \<Rightarrow> '''' | x # _ \<Rightarrow> x)\<rparr>,
     Inr (\<not> is_vector_line (split_ws (case lg_lines s of [] \<Rightarrow> '''' | x # _ \<Rightarrow> x))))"
  by (simp add: skip_body_def bindA_def)

lemma split_ws_Nil [simp]: "split_ws [] = []"
  by (simp add: split_ws_def)

lemma not_vector_empty [simp]: "\<not> is_vector_line []"
  by (simp add: is_vector_line_def)

lemma skip_at_end:
  assumes "lg_lines s = []"
  shows "skip_to_vector s = None"
  unfolding skip_to_vector_def
proof (rule loopA_diverges [where P = "\<lambda>s. lg_lines s = []"])
  fix t :: "'a log_scheme" assume "lg_lines t = []"
  then show "\<exists>s'. skip_body t = Some (s', Inr True) \<and> lg_lines s' = []" by simp
qed (rule assms)

definition has_vector_line :: "string list \<Rightarrow> bool" where
  "has_vector_line ls \<longleftrightarrow> (\<exists>l\<in>set ls. is_vector_line (split_ws l))"

lemma skip_to_vector_iff:
  "if has_vector_line (lg_lines s) then
     (\<exists>s'. skip_to_vector s = Some (s', Inr ()) \<and> lg_lines s' = tl (dropWhile (\<lambda>l. \<not> is_vector_line (split_ws l)) (lg_lines s)) \<and>
        log.more s' = log.more s)
   else skip_to_vector s = None"
proof (induction "lg_lines s" arbitrary: s)
  case Nil
  then show ?case using skip_at_end [of s] by (simp add: has_vector_line_def)
next
  case (Cons l ls)
  define t where "t = s\<lparr>lg_lines := ls, lg_line := l, lg_count := Suc (lg_count s), lg_group := split_ws l\<rparr>"
  have body: "skip_body s = Some (t, Inr (\<not> is_vector_line (split_ws l)))"
    by (simp add: t_def flip: Cons.hyps(2))
  have t: "lg_lines t = ls" "log.more t = log.more s" by (simp_all add: t_def)
  show ?case
  proof (cases "is_vector_line (split_ws l)")
    case True
    then have "skip_to_vector s = Some (t, Inr ())" by (simp add: skip_to_vector_def loopA_unfold [of skip_body, OF body])
    with True t show ?thesis by (auto simp: has_vector_line_def simp flip: Cons.hyps(2))
  next
    case False
    then have "skip_to_vector s = skip_to_vector t" by (simp add: skip_to_vector_def loopA_unfold [of skip_body, OF body])
    with Cons.hyps(1) [of t] False t show ?thesis by (simp add: has_vector_line_def cong: if_cong flip: Cons.hyps(2))
  qed
qed

section \<open>What is collected\<close>

text \<open>A log of latency blocks (a line \<open>Total Latency\<close>, any line, a line whose second word is the latency),
  recall lines and other lines.\<close>

datatype log_entry = Latency_Block string string string pyfloat | Recall_Line string pyfloat | Other_Line string

fun entry_lines :: "log_entry \<Rightarrow> string list" where
  "entry_lines (Latency_Block a b c x) = [a, b, c]"
| "entry_lines (Recall_Line a x) = [a]"
| "entry_lines (Other_Line a) = [a]"

definition is_recall_line :: "string list \<Rightarrow> bool" where
  "is_recall_line g \<longleftrightarrow> 2 < length g \<and> g ! 1 = ''Recall10@10:''"

text \<open>In a static log a line \<open>Updating numThread:\<close> ends the part that is read, so it is no other line.\<close>

fun wf_entry :: "bool \<Rightarrow> log_entry \<Rightarrow> bool" where
  "wf_entry static (Latency_Block a b c x) \<longleftrightarrow> is_latency_line (split_ws a) \<and> float_at (split_ws c) 1 = Inr x \<and> \<not> is_recall_line (split_ws c)"
| "wf_entry static (Recall_Line a x) \<longleftrightarrow> is_recall_line (split_ws a) \<and> float_at (split_ws a) 2 = Inr x \<and> \<not> is_latency_line (split_ws a)"
| "wf_entry static (Other_Line a) \<longleftrightarrow> a \<noteq> '''' \<and> \<not> is_latency_line (split_ws a) \<and> \<not> is_recall_line (split_ws a) \<and>
     \<not> (static \<and> is_updating_line (split_ws a))"

fun entry_latency :: "log_entry \<Rightarrow> cell list" where
  "entry_latency (Latency_Block a b c x) = [CFloat x]"
| "entry_latency _ = []"

fun entry_recall :: "log_entry \<Rightarrow> cell list" where
  "entry_recall (Recall_Line a x) = [CFloat x]"
| "entry_recall _ = []"

lemma nonempty_of_group: "is_latency_line (split_ws a) \<or> is_recall_line (split_ws a) \<Longrightarrow> a \<noteq> ''''"
  by (auto simp: is_latency_line_def is_recall_line_def split_ws_def)

lemma not_updating: "is_latency_line g \<or> is_recall_line g \<Longrightarrow> \<not> is_updating_line g"
  by (auto simp: is_latency_line_def is_recall_line_def is_updating_line_def)

lemma collect_entry:
  assumes "wf_entry static e" and "lg_lines s = entry_lines e @ rest"
  shows "\<exists>s'. collect_body static s = Some (s', Inr True) \<and> lg_lines s' = rest \<and>
    ll_latency s' = ll_latency s @ entry_latency e \<and> ll_accuracy s' = ll_accuracy s @ entry_recall e"
  using assms nonempty_of_group not_updating
  by (cases e)
     (auto simp: collect_body_def bindA_def take_latency_def take_recall_def is_recall_line_def whenA_def)

lemma collect_at_end:
  "lg_lines s = [] \<Longrightarrow> \<exists>s'. collect_body static s = Some (s', Inr False) \<and> ll_latency s' = ll_latency s \<and> ll_accuracy s' = ll_accuracy s"
  by (simp add: collect_body_def bindA_def)

lemma collect_at_updating:
  assumes "lg_lines s = u # rest" and "is_updating_line (split_ws u)"
  shows "\<exists>s'. collect_body True s = Some (s', Inr False) \<and> ll_latency s' = ll_latency s \<and> ll_accuracy s' = ll_accuracy s"
  using assms by (auto simp: collect_body_def bindA_def is_updating_line_def)

fun entry_add :: "log_entry \<Rightarrow> cell list \<times> cell list \<Rightarrow> cell list \<times> cell list" where
  "entry_add e (lat, acc) = (lat @ entry_latency e, acc @ entry_recall e)"

lemma fold_entry_add:
  "fold entry_add es (lat, acc) = (lat @ concat (map entry_latency es), acc @ concat (map entry_recall es))"
  by (induction es arbitrary: lat acc) auto

interpretation latency_entries: entry_loop "collect_body static" entry_lines "wf_entry static"
    "\<lambda>s. (ll_latency s, ll_accuracy s)" entry_add for static
proof
  fix e rest and s :: latency_log
  assume "wf_entry static e" and "lg_lines s = entry_lines e @ rest"
  from collect_entry [OF this] obtain s' where b: "collect_body static s = Some (s', Inr True)"
    and s': "lg_lines s' = rest" "ll_latency s' = ll_latency s @ entry_latency e" "ll_accuracy s' = ll_accuracy s @ entry_recall e" by blast
  then show "\<exists>s'. loopA (collect_body static) s = loopA (collect_body static) s' \<and> lg_lines s' = rest \<and>
      (ll_latency s', ll_accuracy s') = entry_add e (ll_latency s, ll_accuracy s)"
    by (auto simp: loopA_unfold [of "collect_body static", OF b])
qed (use collect_at_end in fastforce)

text \<open>The loop ends at the end of the log and, in a static log, at an updating line.\<close>

definition log_stops :: "bool \<Rightarrow> string list \<Rightarrow> bool" where
  "log_stops static rest \<longleftrightarrow> rest = [] \<or> static \<and> is_updating_line (split_ws (hd rest))"

lemma collect_entries:
  assumes "\<forall>e\<in>set es. wf_entry static e" and "lg_lines s = concat (map entry_lines es) @ rest" and "log_stops static rest"
  shows "\<exists>s'. collect_log static s = Some (s', Inr ()) \<and>
    ll_latency s' = ll_latency s @ concat (map entry_latency es) \<and> ll_accuracy s' = ll_accuracy s @ concat (map entry_recall es)"
proof -
  from latency_entries.entries_before [OF assms(1,2)] obtain s1 where
    s1: "loopA (collect_body static) s = loopA (collect_body static) s1" "lg_lines s1 = rest"
      "ll_latency s1 = ll_latency s @ concat (map entry_latency es)" "ll_accuracy s1 = ll_accuracy s @ concat (map entry_recall es)"
    by (auto simp: fold_entry_add)
  have "\<exists>s'. collect_body static s1 = Some (s', Inr False) \<and> ll_latency s' = ll_latency s1 \<and> ll_accuracy s' = ll_accuracy s1"
    using assms(3) s1(2) collect_at_end [of s1 static] collect_at_updating [of s1]
    by (cases rest) (auto simp: log_stops_def)
  then obtain s' where b: "collect_body static s1 = Some (s', Inr False)" and s': "ll_latency s' = ll_latency s1" "ll_accuracy s' = ll_accuracy s1"
    by blast
  with s1 show ?thesis by (simp add: collect_log_def loopA_unfold [of "collect_body static", OF b])
qed

text \<open>What is left to collect from: a static log is read from its first line, of the others the lines up to
  the first \<open>Total Vector\<close> line are skipped.\<close>

definition log_preamble :: "bool \<Rightarrow> string list \<Rightarrow> bool" where
  "log_preamble static pre \<longleftrightarrow>
     (if static then pre = []
      else pre \<noteq> [] \<and> is_vector_line (split_ws (last pre)) \<and> \<not> has_vector_line (butlast pre))"

lemma skip_pre:
  assumes "lg_lines s = pre @ rest" and "log_preamble False pre"
  shows "\<exists>s'. skip_to_vector s = Some (s', Inr ()) \<and> lg_lines s' = rest \<and> log.more s' = log.more s"
proof -
  obtain p v where pre: "pre = p @ [v]" "is_vector_line (split_ws v)" "\<not> has_vector_line p"
    using assms(2) by (metis append_butlast_last_id log_preamble_def)
  have "has_vector_line (lg_lines s)" using assms(1) pre by (simp add: has_vector_line_def)
  moreover have "dropWhile (\<lambda>l. \<not> is_vector_line (split_ws l)) (p @ v # rest) = v # rest"
    using pre(2,3) by (subst dropWhile_append2) (auto simp: has_vector_line_def)
  ultimately show ?thesis using skip_to_vector_iff [of s] assms(1) pre(1) by simp
qed

text \<open>C18: one log file of Figures 1, 9 and 10. The static log (\<open>log_static.log\<close> of Figures 1 and 9) is
  read from its first line to its end or to its first \<open>Updating numThread:\<close> line; every other log is read from
  the line after its first \<open>Total Vector\<close> line to its end. Of a log whose lines there are latency blocks,
  recall lines and other lines, the script keeps an empty cell and exactly the latencies, and an empty
  cell and exactly the recalls, in the order of the log. A log that is not static and has no
  \<open>Total Vector\<close> line is never finished: the script does not return.\<close>

theorem latency_file_values:
  assumes "fs name = Some c"
  shows "(lines_of (as_text c) = pre @ concat (map entry_lines es) @ rest \<longrightarrow> log_preamble static pre \<longrightarrow>
      (\<forall>e\<in>set es. wf_entry static e) \<longrightarrow> log_stops static rest \<longrightarrow>
      (\<exists>s'. latency_file fs name static s = Some (s', Inr ()) \<and>
        ll_latency s' = CStr '''' # concat (map entry_latency es) \<and> ll_accuracy s' = CStr '''' # concat (map entry_recall es))) \<and>
    (\<not> has_vector_line (lines_of (as_text c)) \<longrightarrow> latency_file fs name False s = None)"
proof (intro conjI impI)
  define s0 where "s0 = s\<lparr>lg_lines := lines_of (as_text c), lg_count := 0, ll_latency := [CStr ''''], ll_accuracy := [CStr '''']\<rparr>"
  have run: "latency_file fs name st s = (if st then collect_log True else seqA skip_to_vector (collect_log False)) s0" for st
    using assms by (simp add: latency_file_def open_file_def bindA_def flip: s0_def)
  have start: "ll_latency s0 = [CStr '''']" "ll_accuracy s0 = [CStr '''']" by (simp_all add: s0_def)
  show "latency_file fs name False s = None" if "\<not> has_vector_line (lines_of (as_text c))"
    using skip_to_vector_iff [of s0] that run [of False] by (simp add: s0_def bindA_def)
  assume lines: "lines_of (as_text c) = pre @ concat (map entry_lines es) @ rest" and pre: "log_preamble static pre"
    and wf: "\<forall>e\<in>set es. wf_entry static e" and stop: "log_stops static rest"
  have "\<exists>s1. latency_file fs name static s = collect_log static s1 \<and> lg_lines s1 = concat (map entry_lines es) @ rest \<and>
      log.more s1 = log.more s0"
  proof (cases static)
    case True
    with pre lines run [of True] show ?thesis by (intro exI [of _ s0]) (simp add: log_preamble_def s0_def)
  next
    case False
    with lines pre skip_pre [of s0 pre "concat (map entry_lines es) @ rest"] run [of False] show ?thesis
      by (auto simp: s0_def bindA_def)
  qed
  then obtain s1 where s1: "latency_file fs name static s = collect_log static s1"
    "lg_lines s1 = concat (map entry_lines es) @ rest" "log.more s1 = log.more s0" by blast
  have "ll_latency s1 = ll_latency s0 \<and> ll_accuracy s1 = ll_accuracy s0"
    using s1(3) by (cases s1; cases s0) simp
  with collect_entries [OF wf s1(2) stop] s1(1) start
  show "\<exists>s'. latency_file fs name static s = Some (s', Inr ()) \<and>
      ll_latency s' = CStr '''' # concat (map entry_latency es) \<and> ll_accuracy s' = CStr '''' # concat (map entry_recall es)"
    by auto
qed

definition sample_log :: "byte list" where
  "sample_log = as_bytes (''a'' @ [nl] @ ''1 Total Vector'' @ [nl] @ ''Total Latency'' @ [nl] @ ''x'' @ [nl] @ ''y 4'' @ [nl] @ ''r Recall10@10: 3'' @ [nl])"

definition sample_entries :: "log_entry list" where
  "sample_entries = [Latency_Block (''Total Latency'' @ [nl]) (''x'' @ [nl]) (''y 4'' @ [nl]) (FFin 4), Recall_Line (''r Recall10@10: 3'' @ [nl]) (FFin 3)]"

lemma sample_log_lines:
  "lines_of (as_text sample_log) = [''a'' @ [nl], ''1 Total Vector'' @ [nl]] @ concat (map entry_lines sample_entries) @ []"
  by code_simp

definition static_log :: "byte list" where
  "static_log = as_bytes (''Total Latency'' @ [nl] @ ''x'' @ [nl] @ ''y 4'' @ [nl] @ ''r Recall10@10: 3'' @ [nl] @
     ''1 Updating numThread: 2'' @ [nl] @ ''r Recall10@10: 9'' @ [nl])"

lemma static_log_lines:
  "lines_of (as_text static_log) =
     [] @ concat (map entry_lines sample_entries) @ [''1 Updating numThread: 2'' @ [nl], ''r Recall10@10: 9'' @ [nl]]"
  by code_simp

theorem latency_file_values_witness:
  "(\<exists>s'. latency_file [''l'' \<mapsto> sample_log, ''t'' \<mapsto> static_log] ''l'' False latency_start = Some (s', Inr ()) \<and>
      ll_latency s' = [CStr '''', CFloat (FFin 4)] \<and> ll_accuracy s' = [CStr '''', CFloat (FFin 3)]) \<and>
   (\<exists>s'. latency_file [''l'' \<mapsto> sample_log, ''t'' \<mapsto> static_log] ''t'' True latency_start = Some (s', Inr ()) \<and>
      ll_latency s' = [CStr '''', CFloat (FFin 4)] \<and> ll_accuracy s' = [CStr '''', CFloat (FFin 3)]) \<and>
   latency_file [''l'' \<mapsto> sample_log, ''t'' \<mapsto> static_log] ''t'' False latency_start = None"
proof -
  let ?fs = "[''l'' \<mapsto> sample_log, ''t'' \<mapsto> static_log]"
  have f: "?fs ''l'' = Some sample_log" and t: "?fs ''t'' = Some static_log" by simp_all
  have wf: "\<forall>e\<in>set sample_entries. wf_entry False e" "\<forall>e\<in>set sample_entries. wf_entry True e" by code_simp+
  have pre: "log_preamble False [''a'' @ [nl], ''1 Total Vector'' @ [nl]]" "log_preamble True []" by code_simp+
  have stop: "log_stops False []" "log_stops True [''1 Updating numThread: 2'' @ [nl], ''r Recall10@10: 9'' @ [nl]]" by code_simp+
  have bad: "\<not> has_vector_line (lines_of (as_text static_log))" by code_simp
  have e: "concat (map entry_latency sample_entries) = [CFloat (FFin 4)]" "concat (map entry_recall sample_entries) = [CFloat (FFin 3)]"
    by (simp_all add: sample_entries_def)
  show ?thesis
    using latency_file_values [where fs = ?fs and s = latency_start and pre = "[''a'' @ [nl], ''1 Total Vector'' @ [nl]]"
        and es = sample_entries and rest = "[]" and static = False, OF f] sample_log_lines pre(1) wf(1) stop(1)
      latency_file_values [where fs = ?fs and s = latency_start and pre = "[]" and es = sample_entries
        and rest = "[''1 Updating numThread: 2'' @ [nl], ''r Recall10@10: 9'' @ [nl]]" and static = True, OF t]
      static_log_lines pre(2) wf(2) stop(2) bad unfolding e by blast
qed

end
