(* ===== verification/Ae_Throughput.thy ===== *)
theory Ae_Throughput
  imports Ae_Logs
begin

text \<open>
  \<open>Figure7/process_iopslimit.py\<close> and \<open>Figure11/process_balance.py\<close>: throughputs of one log per number of
  processes or threads. The state is the log with the lists the script fills; a script gives the
  rows it writes, or the exception that ends it.
\<close>

section \<open>IOPS limit\<close>

record iops_log = log +
  io_throughput :: "cell list"
  io_kiops :: "cell list"

text \<open>\<open>while result_group[0] != 'IOPS:'\<close>: a blank line, and the end of the file, raise IndexError.\<close>

definition seek_iops_body :: "('d log_scheme, bool) act" where
  "seek_iops_body = bindA (getsA lg_group) (\<lambda>g. bindA (liftE (py_get g 0)) (\<lambda>w.
     if w = ''IOPS:'' then ret False else bindA read_group (\<lambda>_. ret True)))"

definition qps_value :: "string list \<Rightarrow> pyfloat result" where
  "qps_value g = bindE (py_get g 8) (\<lambda>w. py_float (rstrip_ch (CHR ''.'') w))"

definition kiops_value :: "string list \<Rightarrow> pyfloat result" where
  "kiops_value g = bindE (py_get g 1) (\<lambda>w. py_float (rstrip_ch (CHR ''k'') w))"

definition add_throughput :: "string list \<Rightarrow> (iops_log, unit) act" where
  "add_throughput g = bindA (liftE (qps_value g)) (\<lambda>x.
     modifyA (\<lambda>s. s\<lparr>io_throughput := io_throughput s @ [CFloat x]\<rparr>))"

definition add_kiops :: "string list \<Rightarrow> (iops_log, unit) act" where
  "add_kiops g = bindA (liftE (kiops_value g)) (\<lambda>x.
     modifyA (\<lambda>s. s\<lparr>io_kiops := io_kiops s @ [CFloat (fmul x (FFin 1000))]\<rparr>))"

definition is_qps_line :: "string list \<Rightarrow> bool" where
  "is_qps_line g \<longleftrightarrow> 7 < length g \<and> g ! 7 = ''AvgQPS:''"

definition iops_body :: "(iops_log, bool) act" where
  "iops_body = bindA readline (\<lambda>l.
     if l = '''' then ret False
     else bindA regroup (\<lambda>g.
       if is_qps_line g then
         seqA (add_throughput g) (seqA (loopA seek_iops_body)
           (bindA (getsA lg_group) (\<lambda>g'. seqA (add_kiops g') (ret False))))
       else ret True))"

definition iops_file :: "filesys \<Rightarrow> string \<Rightarrow> int \<Rightarrow> (iops_log, unit) act" where
  "iops_file fs argv1 i = seqA (open_log fs (argv1 @ str_int i)) (loopA iops_body)"

definition iops_process_list :: "int list" where
  "iops_process_list = [1, 2, 4, 8, 10, 12]"

definition iops_start :: iops_log where
  "iops_start = \<lparr>lg_lines = [], lg_line = '''', lg_group = [], lg_count = 0, io_throughput = [CStr ''''], io_kiops = [CStr '''']\<rparr>"

definition iops_table :: "iops_log \<Rightarrow> table" where
  "iops_table s = zip_columns [CStr '''' # map CInt [0..5], io_throughput s, io_kiops s, CStr '''' # map CInt iops_process_list]"

definition process_iopslimit :: "filesys \<Rightarrow> string \<Rightarrow> table result option" where
  "process_iopslimit fs argv1 =
     (case forA iops_process_list (iops_file fs argv1) iops_start of
        None \<Rightarrow> None | Some (s, Inl e) \<Rightarrow> Some (Inl e) | Some (s, Inr _) \<Rightarrow> Some (Inr (iops_table s)))"

section \<open>Foreground and background\<close>

record balance_log = log +
  bl_fore :: "pyfloat list"
  bl_back :: "pyfloat list"

definition is_insert_line :: "string \<Rightarrow> string list \<Rightarrow> bool" where
  "is_insert_line w g \<longleftrightarrow> 11 < length g \<and> g ! 1 = ''Insert:'' \<and> g ! 7 = w"

definition back_value :: "string list \<Rightarrow> pyfloat result" where
  "back_value g = bindE (py_get g 10) (\<lambda>w. py_float (rstrip_ch (CHR '','') w))"

definition balance_body :: "(balance_log, bool) act" where
  "balance_body = bindA readline (\<lambda>l.
     if l = '''' then ret False
     else bindA regroup (\<lambda>g.
       seqA (whenA (is_insert_line ''sending'' g)
               (bindA (liftE (float_at g 10)) (\<lambda>x. modifyA (\<lambda>s. s\<lparr>bl_fore := bl_fore s @ [x]\<rparr>))))
      (seqA (whenA (is_insert_line ''actuall'' g)
               (bindA (liftE (back_value g)) (\<lambda>x. modifyA (\<lambda>s. s\<lparr>bl_back := bl_back s @ [x]\<rparr>))))
      (ret True))))"

definition balance_file :: "filesys \<Rightarrow> string \<Rightarrow> int \<Rightarrow> (balance_log, unit) act" where
  "balance_file fs argv1 i = seqA (open_log fs (argv1 @ str_int i)) (loopA balance_body)"

definition balance_threads :: "int list" where
  "balance_threads = [11, 21, 41, 81, 82, 84]"

definition balance_start :: balance_log where
  "balance_start = \<lparr>lg_lines = [], lg_line = '''', lg_group = [], lg_count = 0, bl_fore = [], bl_back = []\<rparr>"

definition pair_cells :: "pyfloat list \<Rightarrow> pyfloat list \<Rightarrow> int \<Rightarrow> cell list result" where
  "pair_cells fore back j = bindE (py_get fore j) (\<lambda>x. bindE (py_get back j) (\<lambda>y. Inr [CFloat x, CFloat y]))"

definition balance_row :: "pyfloat list \<Rightarrow> pyfloat list \<Rightarrow> int \<Rightarrow> cell list result" where
  "balance_row fore back i =
     bindE (py_get [1, 2, 4, 8] i) (\<lambda>ins.
       if ins \<noteq> 8 then
         bindE (pair_cells fore back i) (\<lambda>p. bindE (pair_cells fore back (i + 3)) (\<lambda>q.
           Inr ([CStr '''', CInt ins] @ p @ replicate 4 (CStr '''') @ [CInt ins] @ q)))
       else
         bindE (mapE (\<lambda>j. pair_cells fore back (j + 3)) [0, 1, 2]) (\<lambda>ps.
           Inr ([CStr '''', CInt ins] @ concat ps @ replicate 3 (CStr ''''))))"

definition balance_table :: "pyfloat list \<Rightarrow> pyfloat list \<Rightarrow> table result" where
  "balance_table fore back =
     bindE (mapE (balance_row fore back) [0, 1, 2, 3]) (\<lambda>rows. Inr (replicate 11 (CStr '''') # rows))"

definition process_balance :: "filesys \<Rightarrow> string \<Rightarrow> table result option" where
  "process_balance fs argv1 =
     (case forA balance_threads (balance_file fs argv1) balance_start of
        None \<Rightarrow> None | Some (s, Inl e) \<Rightarrow> Some (Inl e) | Some (s, Inr _) \<Rightarrow> Some (balance_table (bl_fore s) (bl_back s)))"

section \<open>The IOPS table\<close>

lemma open_log_returns: "\<exists>s' r. open_log fs name s = Some (s', r)"
  by (cases "open_file fs name") (auto simp: open_log_def)

lemma seek_iops_round:
  "\<exists>s' r. seek_iops_body s = Some (s', r) \<and> (r = Inr True \<longrightarrow>
     length (lg_lines s') + (if lg_group s' = [] then 0 else 1) < length (lg_lines s) + (if lg_group s = [] then 0 else 1))"
  by (cases "lg_lines s") (auto simp: seek_iops_body_def bindA_def)

interpretation seek_iops: log_loop seek_iops_body "\<lambda>s. length (lg_lines s) + (if lg_group s = [] then 0 else 1)"
  by unfold_locales (rule seek_iops_round)

lemma add_returns: "\<exists>s' r. add_throughput g s = Some (s', r)" "\<exists>s' r. add_kiops g s = Some (s', r)"
  by (auto simp: add_throughput_def add_kiops_def bindA_def bindE_def split: sum.splits)

lemma iops_round:
  "\<exists>s' r. iops_body s = Some (s', r) \<and> (r = Inr True \<longrightarrow> length (lg_lines s') < length (lg_lines s))"
proof (cases "lg_lines s")
  case Nil
  then show ?thesis by (simp add: iops_body_def bindA_def)
next
  case (Cons l ls)
  define t where "t = s\<lparr>lg_lines := ls, lg_line := l, lg_count := Suc (lg_count s), lg_group := split_ws l\<rparr>"
  define act where "act = seqA (add_throughput (split_ws l)) (seqA (loopA seek_iops_body)
           (bindA (getsA lg_group) (\<lambda>g'. seqA (add_kiops g') (ret False))))"
  have run: "iops_body s = (if l = '''' then Some (t\<lparr>lg_group := lg_group s\<rparr>, Inr False)
      else if is_qps_line (split_ws l) then act t else Some (t, Inr True))"
    using Cons by (simp add: iops_body_def bindA_def t_def act_def)
  have "\<exists>s' r. act t = Some (s', r)"
    by (auto simp: act_def intro!: bindA_returns add_returns seek_iops.loop_returns)
  moreover have "r \<noteq> Inr True" if "act t = Some (s', r)" for s' r
    using that by (auto simp: act_def elim!: bindA_Inr)
  ultimately show ?thesis using run Cons by (auto simp: t_def)
qed

interpretation iops: log_loop iops_body "\<lambda>s. length (lg_lines s)"
  by unfold_locales (rule iops_round)

text \<open>Both lists grow together, by at most one cell per log.\<close>

definition aligned :: "nat \<Rightarrow> iops_log \<Rightarrow> bool" where
  "aligned n s \<longleftrightarrow> length (io_throughput s) = length (io_kiops s) \<and> 0 < length (io_kiops s) \<and> length (io_kiops s) \<le> n"

lemma seek_iops_keeps:
  assumes "loopA seek_iops_body s = Some (t, Inr ())"
  shows "io_throughput t = io_throughput s \<and> io_kiops t = io_kiops s"
  by (rule loopA_partial [OF assms, where I = "\<lambda>u. io_throughput u = io_throughput s \<and> io_kiops u = io_kiops s"])
     (auto simp: seek_iops_body_def bindA_def split: sum.splits if_splits)

lemma iops_body_aligned:
  assumes "aligned n s" and "iops_body s = Some (t, Inr go)"
  shows "if go then aligned n t else aligned (Suc n) t"
proof (cases "go")
  case True
  then show ?thesis
    using assms by (auto simp: iops_body_def aligned_def split: if_splits list.splits elim!: bindA_Inr)
next
  case False
  then show ?thesis
    using assms by (auto simp: iops_body_def aligned_def add_throughput_def add_kiops_def
        split: if_splits list.splits elim!: bindA_Inr dest!: seek_iops_keeps)
qed

lemma iops_file_aligned:
  assumes "aligned n s" and "iops_file fs a i s = Some (t, Inr ())"
  shows "aligned (Suc n) t"
proof -
  from assms(2) obtain c where "loopA iops_body (s\<lparr>lg_lines := c\<rparr>) = Some (t, Inr ())"
    by (auto simp: iops_file_def open_log_def elim!: bindA_Inr)
  then show ?thesis
  proof (rule loopA_partial [where I = "aligned n"])
    show "aligned n (s\<lparr>lg_lines := c\<rparr>)" using assms(1) by (simp add: aligned_def)
  qed (rule iops_body_aligned)
qed

lemma iops_files_return: "\<exists>s' r. forA iops_process_list (iops_file fs a) iops_start = Some (s', r)"
  by (intro forA_returns) (auto simp: iops_file_def intro!: bindA_returns open_log_returns iops.loop_returns)

lemma zip_columns_nth:
  "i < length (zip_columns cols) \<Longrightarrow> zip_columns cols ! i = map (\<lambda>c. c ! i) cols"
  by (auto simp: zip_columns_def split: if_splits)

lemma length_zip_columns: "cols \<noteq> [] \<Longrightarrow> length (zip_columns cols) = Min (length ` set cols)"
  by (simp add: zip_columns_def)

text \<open>C26: the script of Figure 7 always returns, whatever the six logs hold, and unless it raises it
  writes a table of one heading row and at most six rows of four cells each. Throughput and KIOPS of
  a row come from the same log: the two lists are extended together, so that the zipped table has
  as many rows as each of them.\<close>

theorem process_iopslimit_returns:
  "\<exists>r. process_iopslimit fs argv1 = Some r \<and>
     (case r of Inl e \<Rightarrow> True | Inr t \<Rightarrow> 1 \<le> length t \<and> length t \<le> 7 \<and> list_all (\<lambda>row. length row = 4) t \<and>
        (\<exists>s. forA iops_process_list (iops_file fs argv1) iops_start = Some (s, Inr ()) \<and>
           length (io_throughput s) = length t \<and> length (io_kiops s) = length t))"
proof -
  from iops_files_return [of fs argv1] obtain s r where run: "forA iops_process_list (iops_file fs argv1) iops_start = Some (s, r)" by blast
  show ?thesis
  proof (cases r)
    case (Inl e)
    with run show ?thesis by (simp add: process_iopslimit_def)
  next
    case (Inr u)
    with run have "forA iops_process_list (iops_file fs argv1) iops_start = Some (s, Inr ())" by simp
    then have "aligned (Suc (length iops_process_list)) s"
      by (rule forA_invariant [where P = "\<lambda>i. aligned (Suc i)"]) (simp add: aligned_def iops_start_def, erule (1) iops_file_aligned)
    then have "aligned 7 s" by (simp add: iops_process_list_def eval_nat_numeral)
    then have "length (iops_table s) = length (io_kiops s)" "length (io_throughput s) = length (io_kiops s)" "1 \<le> length (io_kiops s)" "length (io_kiops s) \<le> 7"
      by (auto simp: iops_table_def length_zip_columns aligned_def iops_process_list_def upto.simps Suc_le_eq)
    moreover have "length row = 4" if "row \<in> set (iops_table s)" for row
      using that by (auto simp: iops_table_def zip_columns_def)
    ultimately show ?thesis using run Inr by (auto simp: process_iopslimit_def list_all_iff)
  qed
qed

text \<open>A log the script is meant for: lines before the first \<open>AvgQPS:\<close> line, that line with its value, lines that
  are neither blank nor \<open>IOPS:\<close> lines, and an \<open>IOPS:\<close> line with its value.\<close>

definition no_iops :: "string list \<Rightarrow> bool" where
  "no_iops g \<longleftrightarrow> g \<noteq> [] \<and> g ! 0 \<noteq> ''IOPS:''"

definition iops_log_lines :: "string list \<Rightarrow> string \<Rightarrow> string list \<Rightarrow> string \<Rightarrow> pyfloat \<Rightarrow> pyfloat \<Rightarrow> bool" where
  "iops_log_lines pre q mid v x y \<longleftrightarrow>
     (\<forall>l\<in>set pre. l \<noteq> '''' \<and> \<not> is_qps_line (split_ws l)) \<and>
     is_qps_line (split_ws q) \<and> no_iops (split_ws q) \<and> qps_value (split_ws q) = Inr x \<and>
     (\<forall>l\<in>set mid. no_iops (split_ws l)) \<and>
     word_is (split_ws v) 0 ''IOPS:'' \<and> kiops_value (split_ws v) = Inr y"

lemma seek_iops_finds:
  assumes "\<forall>l\<in>set mid. no_iops (split_ws l)" and "word_is (split_ws v) 0 ''IOPS:''"
    and "lg_lines s = mid @ v # post" and "no_iops (lg_group s)"
  shows "\<exists>t. loopA seek_iops_body s = Some (t, Inr ()) \<and> lg_group t = split_ws v"
  using assms
proof (induction mid arbitrary: s)
  case Nil
  define t where "t = s\<lparr>lg_lines := post, lg_line := v, lg_count := Suc (lg_count s), lg_group := split_ws v\<rparr>"
  have b: "seek_iops_body s = Some (t, Inr True)"
    using Nil by (auto simp: seek_iops_body_def bindA_def no_iops_def t_def)
  have b': "seek_iops_body t = Some (t, Inr False)"
    using Nil by (auto simp: seek_iops_body_def bindA_def word_is_def t_def)
  show ?case
    by (simp add: loopA_unfold [of seek_iops_body, OF b] loopA_unfold [of seek_iops_body, OF b']) (simp add: t_def)
next
  case (Cons l mid)
  define t where "t = s\<lparr>lg_lines := mid @ v # post, lg_line := l, lg_count := Suc (lg_count s), lg_group := split_ws l\<rparr>"
  have b: "seek_iops_body s = Some (t, Inr True)"
    using Cons.prems by (auto simp: seek_iops_body_def bindA_def no_iops_def t_def)
  have "\<exists>u. loopA seek_iops_body t = Some (u, Inr ()) \<and> lg_group u = split_ws v"
    by (rule Cons.IH) (use Cons.prems in \<open>auto simp: t_def\<close>)
  then show ?case by (simp add: loopA_unfold [of seek_iops_body, OF b])
qed

lemma iops_loop_values:
  assumes ok: "iops_log_lines pre q mid v x y" and lines: "lg_lines s = pre @ q # mid @ v # post"
  shows "\<exists>t. loopA iops_body s = Some (t, Inr ()) \<and> io_throughput t = io_throughput s @ [CFloat x] \<and>
    io_kiops t = io_kiops s @ [CFloat (fmul y (FFin 1000))]"
proof -
  let ?acc = "\<lambda>s. (io_throughput s, io_kiops s)"
  have "\<exists>s'. loopA iops_body s = loopA iops_body s' \<and> lg_lines s' = q # mid @ v # post \<and> ?acc s' = ?acc s"
    by (rule loopA_skip_lines [where P = "\<lambda>l. l \<noteq> '''' \<and> \<not> is_qps_line (split_ws l)" and acc = ?acc, OF _ _ lines])
       (use ok in \<open>auto simp: iops_body_def bindA_def iops_log_lines_def\<close>)
  then obtain s0 where s0: "loopA iops_body s = loopA iops_body s0" "lg_lines s0 = q # mid @ v # post" "?acc s0 = ?acc s" by blast
  define t where "t = s0\<lparr>lg_lines := mid @ v # post, lg_line := q, lg_count := Suc (lg_count s0), lg_group := split_ws q,
    io_throughput := io_throughput s0 @ [CFloat x]\<rparr>"
  have seek: "\<exists>u. loopA seek_iops_body t = Some (u, Inr ()) \<and> lg_group u = split_ws v"
    by (rule seek_iops_finds [where post = post]) (use ok in \<open>auto simp: iops_log_lines_def t_def\<close>)
  then obtain u where u: "loopA seek_iops_body t = Some (u, Inr ())" "lg_group u = split_ws v" by blast
  have "q \<noteq> ''''" using ok by (auto simp: iops_log_lines_def is_qps_line_def)
  then have b: "iops_body s0 = Some (u\<lparr>io_kiops := io_kiops u @ [CFloat (fmul y (FFin 1000))]\<rparr>, Inr False)"
    using s0(2) ok u
    by (simp add: iops_body_def bindA_def iops_log_lines_def add_throughput_def add_kiops_def flip: t_def)
  from seek_iops_keeps [OF u(1)] s0(3) show ?thesis
    by (simp add: s0(1) loopA_unfold [of iops_body, OF b] t_def)
qed

text \<open>C24: the table of Figure 7. When each of the six logs has an \<open>AvgQPS:\<close> line and after it, before any blank
  line, an \<open>IOPS:\<close> line, the table has a row of empty cells and for the k-th number of processes the
  row of k, its throughput, a thousand times its KIOPS, and that number.\<close>

theorem process_iopslimit_rows:
  assumes "\<forall>p\<in>set iops_process_list. \<exists>c pre q mid v post. fs (argv1 @ str_int p) = Some c \<and>
    lines_of (as_text c) = pre @ q # mid @ v # post \<and> iops_log_lines pre q mid v (x p) (y p)"
  shows "process_iopslimit fs argv1 = Some (Inr (replicate 4 (CStr '''') #
    map (\<lambda>(k, p). [CInt k, CFloat (x p), CFloat (fmul (y p) (FFin 1000)), CInt p]) (zip [0..5] iops_process_list)))"
proof -
  define P where "P i s \<longleftrightarrow> io_throughput s = CStr '''' # map (CFloat \<circ> x) (take i iops_process_list) \<and>
    io_kiops s = CStr '''' # map (\<lambda>p. CFloat (fmul (y p) (FFin 1000))) (take i iops_process_list)" for i and s :: iops_log
  have "\<exists>t. forA iops_process_list (iops_file fs argv1) iops_start = Some (t, Inr ()) \<and> P (length iops_process_list) t"
  proof (rule forA_steps)
    show "P 0 iops_start" by (simp add: P_def iops_start_def)
  next
    fix i s assume i: "i < length iops_process_list" and P: "P i s"
    let ?p = "iops_process_list ! i"
    from assms i obtain c pre q mid v post where c: "fs (argv1 @ str_int ?p) = Some c"
      "lines_of (as_text c) = pre @ q # mid @ v # post" and ok: "iops_log_lines pre q mid v (x ?p) (y ?p)" by (meson nth_mem)
    define s0 where "s0 = s\<lparr>lg_lines := pre @ q # mid @ v # post\<rparr>"
    have s0: "lg_lines s0 = pre @ q # mid @ v # post" by (simp add: s0_def)
    from iops_loop_values [OF ok s0] obtain t where t: "loopA iops_body s0 = Some (t, Inr ())"
      "io_throughput t = io_throughput s0 @ [CFloat (x ?p)]" "io_kiops t = io_kiops s0 @ [CFloat (fmul (y ?p) (FFin 1000))]" by blast
    have "iops_file fs argv1 ?p s = Some (t, Inr ())"
      using c t(1) by (simp add: iops_file_def open_log_def open_file_def bindA_def s0_def)
    moreover have "P (Suc i) t" using P t(2,3) i by (simp add: P_def s0_def take_Suc_conv_app_nth)
    ultimately show "\<exists>s'. iops_file fs argv1 ?p s = Some (s', Inr ()) \<and> P (Suc i) s'" by blast
  qed
  then obtain t where t: "forA iops_process_list (iops_file fs argv1) iops_start = Some (t, Inr ())"
    "io_throughput t = CStr '''' # map (CFloat \<circ> x) iops_process_list"
    "io_kiops t = CStr '''' # map (\<lambda>p. CFloat (fmul (y p) (FFin 1000))) iops_process_list" by (auto simp: P_def)
  have "iops_table t = replicate 4 (CStr '''') #
      map (\<lambda>(k, p). [CInt k, CFloat (x p), CFloat (fmul (y p) (FFin 1000)), CInt p]) (zip [0..5] iops_process_list)"
    by (simp add: iops_table_def t zip_columns_def iops_process_list_def upto.simps upt_rec numeral_eq_Suc)
  with t(1) show ?thesis by (simp add: process_iopslimit_def)
qed

definition sample_iops_log :: "byte list" where
  "sample_iops_log = as_bytes (''start'' @ [nl] @ ''a b c d e f g AvgQPS: 8.'' @ [nl] @ ''io: x'' @ [nl] @ ''IOPS: 2k'' @ [nl])"

theorem process_iopslimit_rows_witness:
  "process_iopslimit (\<lambda>_. Some sample_iops_log) ''l'' = Some (Inr (replicate 4 (CStr '''') #
    map (\<lambda>(k, p). [CInt k, CFloat (FFin 8), CFloat (fmul (FFin 2) (FFin 1000)), CInt p]) (zip [0..5] iops_process_list)))"
proof (rule process_iopslimit_rows, intro ballI exI conjI)
  show "lines_of (as_text sample_iops_log) = [''start'' @ [nl]] @ (''a b c d e f g AvgQPS: 8.'' @ [nl]) # [''io: x'' @ [nl]] @ (''IOPS: 2k'' @ [nl]) # []"
    by code_simp
  show "iops_log_lines [''start'' @ [nl]] (''a b c d e f g AvgQPS: 8.'' @ [nl]) [''io: x'' @ [nl]] (''IOPS: 2k'' @ [nl]) (FFin 8) (FFin 2)"
    by code_simp
qed simp

section \<open>The foreground and background table\<close>

datatype balance_entry = Sending string pyfloat | Actual string pyfloat | Plain_Line string

fun balance_lines :: "balance_entry \<Rightarrow> string list" where
  "balance_lines (Sending l x) = [l]"
| "balance_lines (Actual l x) = [l]"
| "balance_lines (Plain_Line l) = [l]"

fun wf_balance :: "balance_entry \<Rightarrow> bool" where
  "wf_balance (Sending l x) \<longleftrightarrow> is_insert_line ''sending'' (split_ws l) \<and> float_at (split_ws l) 10 = Inr x"
| "wf_balance (Actual l x) \<longleftrightarrow> is_insert_line ''actuall'' (split_ws l) \<and> back_value (split_ws l) = Inr x"
| "wf_balance (Plain_Line l) \<longleftrightarrow> l \<noteq> '''' \<and> \<not> is_insert_line ''sending'' (split_ws l) \<and> \<not> is_insert_line ''actuall'' (split_ws l)"

fun fore_of :: "balance_entry \<Rightarrow> pyfloat list" where
  "fore_of (Sending l x) = [x]"
| "fore_of _ = []"

fun back_of :: "balance_entry \<Rightarrow> pyfloat list" where
  "back_of (Actual l x) = [x]"
| "back_of _ = []"

fun balance_add :: "balance_entry \<Rightarrow> pyfloat list \<times> pyfloat list \<Rightarrow> pyfloat list \<times> pyfloat list" where
  "balance_add e (f, b) = (f @ fore_of e, b @ back_of e)"

lemma fold_balance_add: "fold balance_add es (f, b) = (f @ concat (map fore_of es), b @ concat (map back_of es))"
  by (induction es arbitrary: f b) auto

lemma is_insert_line_excl:
  "is_insert_line ''sending'' g \<Longrightarrow> \<not> is_insert_line ''actuall'' g"
  "is_insert_line ''actuall'' g \<Longrightarrow> \<not> is_insert_line ''sending'' g"
  by (simp_all add: is_insert_line_def)

lemma insert_line_nonempty: "is_insert_line w (split_ws l) \<Longrightarrow> l \<noteq> ''''"
  by (auto simp: is_insert_line_def)

lemma balance_entry:
  assumes "wf_balance e" and "lg_lines s = balance_lines e @ rest"
  shows "\<exists>s'. balance_body s = Some (s', Inr True) \<and> lg_lines s' = rest \<and> (bl_fore s', bl_back s') = balance_add e (bl_fore s, bl_back s)"
  using assms is_insert_line_excl insert_line_nonempty
  by (cases e) (auto simp: balance_body_def bindA_def)

interpretation balance_entries: entry_loop balance_body balance_lines wf_balance "\<lambda>s. (bl_fore s, bl_back s)" balance_add
proof
  fix e rest and s :: balance_log
  assume "wf_balance e" and "lg_lines s = balance_lines e @ rest"
  from balance_entry [OF this] obtain s' where b: "balance_body s = Some (s', Inr True)"
    and s': "lg_lines s' = rest" "(bl_fore s', bl_back s') = balance_add e (bl_fore s, bl_back s)" by blast
  then show "\<exists>s'. loopA balance_body s = loopA balance_body s' \<and> lg_lines s' = rest \<and>
      (bl_fore s', bl_back s') = balance_add e (bl_fore s, bl_back s)"
    by (auto simp: loopA_unfold [of balance_body, OF b])
next
  fix s :: balance_log
  assume "lg_lines s = []"
  then show "\<exists>s'. balance_body s = Some (s', Inr False) \<and> (bl_fore s', bl_back s') = (bl_fore s, bl_back s)"
    by (simp add: balance_body_def bindA_def)
qed

lemma balance_table_values:
  assumes "6 \<le> length f" and "6 \<le> length b"
  shows "balance_table f b = Inr (replicate 11 (CStr '''') #
    map (\<lambda>(i, n). [CStr '''', CInt n, CFloat (f ! i), CFloat (b ! i)] @ replicate 4 (CStr '''') @
        [CInt n, CFloat (f ! (i + 3)), CFloat (b ! (i + 3))]) [(0, 1), (1, 2), (2, 4)] @
    [[CStr '''', CInt 8, CFloat (f ! 3), CFloat (b ! 3), CFloat (f ! 4), CFloat (b ! 4), CFloat (f ! 5), CFloat (b ! 5)] @ replicate 3 (CStr '''')])"
proof -
  have "f \<noteq> []" "b \<noteq> []" using assms by auto
  then show ?thesis using assms by (simp add: balance_table_def balance_row_def pair_cells_def)
qed

lemma balance_table_short:
  assumes "length f < 6 \<or> length b < 6"
  shows "balance_table f b = Inl IndexError"
  using assms by (auto simp: balance_table_def balance_row_def pair_cells_def)

text \<open>C25: the table of Figure 11. The script collects the sending rates of the six logs into one list and
  the actual rates into another, in the order of the logs. With at least six of each the four data
  rows hold the first six of both, at fixed places; with fewer of either the script raises
  IndexError.\<close>

theorem process_balance_table:
  fixes es :: "int \<Rightarrow> balance_entry list"
  assumes "\<forall>p\<in>set balance_threads. \<exists>c. fs (argv1 @ str_int p) = Some c \<and>
      lines_of (as_text c) = concat (map balance_lines (es p)) \<and> (\<forall>e\<in>set (es p). wf_balance e)"
    and "f = concat (map fore_of (concat (map es balance_threads)))" and "b = concat (map back_of (concat (map es balance_threads)))"
  shows "process_balance fs argv1 = Some (if 6 \<le> length f \<and> 6 \<le> length b then
      Inr (replicate 11 (CStr '''') #
        map (\<lambda>(i, n). [CStr '''', CInt n, CFloat (f ! i), CFloat (b ! i)] @ replicate 4 (CStr '''') @
            [CInt n, CFloat (f ! (i + 3)), CFloat (b ! (i + 3))]) [(0, 1), (1, 2), (2, 4)] @
        [[CStr '''', CInt 8, CFloat (f ! 3), CFloat (b ! 3), CFloat (f ! 4), CFloat (b ! 4), CFloat (f ! 5), CFloat (b ! 5)] @ replicate 3 (CStr '''')])
    else Inl IndexError)"
proof -
  define P where "P i s \<longleftrightarrow> bl_fore s = concat (map fore_of (concat (map es (take i balance_threads)))) \<and>
    bl_back s = concat (map back_of (concat (map es (take i balance_threads))))" for i and s :: balance_log
  have "\<exists>t. forA balance_threads (balance_file fs argv1) balance_start = Some (t, Inr ()) \<and> P (length balance_threads) t"
  proof (rule forA_steps)
    show "P 0 balance_start" by (simp add: P_def balance_start_def)
  next
    fix i s assume i: "i < length balance_threads" and P: "P i s"
    let ?p = "balance_threads ! i"
    from assms(1) i obtain c where c: "fs (argv1 @ str_int ?p) = Some c"
      "lines_of (as_text c) = concat (map balance_lines (es ?p))" and wf: "\<forall>e\<in>set (es ?p). wf_balance e" by (meson nth_mem)
    have "lg_lines (s\<lparr>lg_lines := concat (map balance_lines (es ?p))\<rparr>) = concat (map balance_lines (es ?p))" by simp
    from balance_entries.entries [OF wf this] obtain t where
      t: "loopA balance_body (s\<lparr>lg_lines := concat (map balance_lines (es ?p))\<rparr>) = Some (t, Inr ())"
        "bl_fore t = bl_fore s @ concat (map fore_of (es ?p))" "bl_back t = bl_back s @ concat (map back_of (es ?p))"
      by (auto simp: fold_balance_add)
    have "balance_file fs argv1 ?p s = Some (t, Inr ())"
      using c t(1) by (simp add: balance_file_def open_log_def open_file_def bindA_def)
    moreover have "P (Suc i) t" using P t(2,3) i by (simp add: P_def take_Suc_conv_app_nth)
    ultimately show "\<exists>s'. balance_file fs argv1 ?p s = Some (s', Inr ()) \<and> P (Suc i) s'" by blast
  qed
  then obtain t where "forA balance_threads (balance_file fs argv1) balance_start = Some (t, Inr ())" "bl_fore t = f" "bl_back t = b"
    using assms(2,3) by (auto simp: P_def)
  then show ?thesis
    using balance_table_values [of f b] balance_table_short [of f b] by (auto simp: process_balance_def)
qed

definition sample_balance_log :: "byte list" where
  "sample_balance_log = as_bytes (''a Insert: 2 3 4 5 6 sending 8 9 4 x'' @ [nl] @ ''ready'' @ [nl] @ ''a Insert: 2 3 4 5 6 actuall 8 9 2, x'' @ [nl])"

theorem process_balance_table_witness:
  "process_balance (\<lambda>_. Some sample_balance_log) ''l'' = Some (Inr (replicate 11 (CStr '''') #
      map (\<lambda>(i, n). [CStr '''', CInt n, CFloat (FFin 4), CFloat (FFin 2)] @ replicate 4 (CStr '''') @
            [CInt n, CFloat (FFin 4), CFloat (FFin 2)]) [(0 :: nat, 1), (1, 2), (2, 4)] @
        [[CStr '''', CInt 8, CFloat (FFin 4), CFloat (FFin 2), CFloat (FFin 4), CFloat (FFin 2), CFloat (FFin 4), CFloat (FFin 2)] @ replicate 3 (CStr '''')]))"
proof -
  let ?es = "[Sending (''a Insert: 2 3 4 5 6 sending 8 9 4 x'' @ [nl]) (FFin 4), Plain_Line (''ready'' @ [nl]),
    Actual (''a Insert: 2 3 4 5 6 actuall 8 9 2, x'' @ [nl]) (FFin 2)]"
  have lines: "lines_of (as_text sample_balance_log) = concat (map balance_lines ?es)" and wf: "\<forall>e\<in>set ?es. wf_balance e"
    by code_simp+
  have "\<forall>p\<in>set balance_threads. \<exists>c. (\<lambda>_. Some sample_balance_log) (''l'' @ str_int p) = Some c \<and>
      lines_of (as_text c) = concat (map balance_lines ?es) \<and> (\<forall>e\<in>set ?es. wf_balance e)"
    using lines wf by blast
  from process_balance_table [of "\<lambda>_. Some sample_balance_log" "''l''" "\<lambda>_. ?es", OF this refl refl] show ?thesis
    by (simp add: balance_threads_def)
qed

end
