(* ===== verification/Ae_Spann.thy ===== *)
theory Ae_Spann
  imports Ae_Throughput
begin

text \<open>
  \<open>Figure6/process_spann.py\<close> and \<open>Figure6/process_spfresh.py\<close>, which have the same text up to blank lines:
  one pass over the log for the sampling blocks, a second pass for the insert latencies, and the
  table of five columns. The inner loops have no test for the end of the log.
\<close>

record spann_log = log +
  sp_avg :: "pyfloat list"
  sp_tail :: "pyfloat list"
  sp_throughput :: "pyfloat list"
  sp_insert :: "pyfloat list"
  sp_rss :: "int list"

text \<open>\<open>line = log_f.readline()\<close> with no count of the line.\<close>

definition rawline :: "('d log_scheme, string) act" where
  "rawline = bindA (getsA lg_lines) (\<lambda>ls.
     let l = (case ls of [] \<Rightarrow> '''' | x # _ \<Rightarrow> x)
     in bindA (modifyA (\<lambda>s. s\<lparr>lg_lines := tl ls, lg_line := l\<rparr>)) (\<lambda>_. ret l))"

definition raw_group :: "('d log_scheme, string list) act" where
  "raw_group = bindA rawline (\<lambda>_. regroup)"

section \<open>Sampling blocks\<close>

definition is_rss_line :: "string list \<Rightarrow> bool" where
  "is_rss_line g \<longleftrightarrow> word_is g 4 ''RSS''"

definition int_at :: "string list \<Rightarrow> nat \<Rightarrow> int result" where
  "int_at g i = bindE (py_get g (int i)) py_int"

definition sample_body :: "(spann_log, bool) act" where
  "sample_body = bindA raw_group (\<lambda>g.
     if is_rss_line g then
       bindA (liftE (int_at g 16)) (\<lambda>n. seqA (modifyA (\<lambda>s. s\<lparr>sp_rss := sp_rss s @ [n]\<rparr>)) (ret True))
     else if is_qps_line g then
       bindA (liftE (qps_value g)) (\<lambda>x. seqA (modifyA (\<lambda>s. s\<lparr>sp_throughput := sp_throughput s @ [x]\<rparr>)) (ret True))
     else if is_latency_line g then
       bindA rawline (\<lambda>_. bindA raw_group (\<lambda>v.
         bindA (liftE (float_at v 1)) (\<lambda>x. seqA (modifyA (\<lambda>s. s\<lparr>sp_avg := sp_avg s @ [x]\<rparr>))
        (bindA (liftE (float_at v 6)) (\<lambda>y. seqA (modifyA (\<lambda>s. s\<lparr>sp_tail := sp_tail s @ [y]\<rparr>))
        (ret False))))))
     else ret True)"

definition is_sampling_line :: "string list \<Rightarrow> bool" where
  "is_sampling_line g \<longleftrightarrow> word_is g 1 ''Samppling''"

definition search_body :: "(spann_log, bool) act" where
  "search_body = catchA
     (bindA readline (\<lambda>l.
        if l = '''' then ret False
        else bindA regroup (\<lambda>g.
          seqA (whenA (is_sampling_line g) (loopA sample_body)) (ret True))))
     {AttributeError} (\<lambda>_. ret False)"

section \<open>Insert latencies\<close>

definition value_body :: "('d log_scheme, bool) act" where
  "value_body = bindA (getsA lg_group) (\<lambda>g.
     if length g \<le> 1 then bindA read_group (\<lambda>_. ret True)
     else catchA (bindA (liftE (float_at g 1)) (\<lambda>_. ret False)) {ValueError} (\<lambda>_. bindA read_group (\<lambda>_. ret True)))"

definition is_insert_latency_line :: "string list \<Rightarrow> bool" where
  "is_insert_latency_line g \<longleftrightarrow> 2 < length g \<and> g ! 1 = ''Insert'' \<and> g ! 2 = ''Latency''"

definition take_insert :: "('d spann_log_scheme, unit) act" where
  "take_insert = bindA read_group (\<lambda>_. seqA (loopA value_body)
     (bindA (getsA lg_group) (\<lambda>g. bindA (liftE (float_at g 1)) (\<lambda>x.
        modifyA (\<lambda>s. s\<lparr>sp_insert := sp_insert s @ [x]\<rparr>)))))"

definition insert_body :: "('d spann_log_scheme, bool) act" where
  "insert_body = catchA
     (bindA readline (\<lambda>l.
        if l = '''' then ret False
        else bindA regroup (\<lambda>g. seqA (whenA (is_insert_latency_line g) take_insert) (ret True))))
     {AttributeError, ValueError} (\<lambda>_. ret False)"

section \<open>The table\<close>

text \<open>\<open>RSS[i]/1024\<close>: an integer quotient in Python 2, a float in Python 3.\<close>

definition rss_cell :: "pyver \<Rightarrow> int \<Rightarrow> cell result" where
  "rss_cell ver n = (case ver of Py2 \<Rightarrow> Inr (CInt (n div 1024)) | Py3 \<Rightarrow> bindE (int_truediv n 1024) (\<lambda>x. Inr (CFloat x)))"

definition spann_table :: "pyver \<Rightarrow> spann_log \<Rightarrow> table result" where
  "spann_table ver s =
     bindE (mapE (rss_cell ver) (sp_rss s)) (\<lambda>rss.
       Inr (zip_columns
         [CStr ''Search'' # CStr ''Avg Latency'' # map CFloat (sp_avg s),
          CStr '' '' # CStr ''Tail Latency'' # map CFloat (sp_tail s),
          CStr '''' # CStr ''Throughput'' # map CFloat (sp_throughput s),
          CStr '''' # CStr ''RSS'' # rss,
          CStr ''Insert'' # CStr ''Avg Latency'' # map CFloat (sp_insert s) @
            replicate (length (sp_rss s) - length (sp_insert s)) (CStr '''')]))"

definition spann_start :: spann_log where
  "spann_start = \<lparr>lg_lines = [], lg_line = '''', lg_group = [], lg_count = 0,
     sp_avg = [], sp_tail = [], sp_throughput = [], sp_insert = [], sp_rss = []\<rparr>"

definition spann_passes :: "filesys \<Rightarrow> string \<Rightarrow> (spann_log, unit) act" where
  "spann_passes fs argv1 =
     seqA (open_log fs argv1) (seqA (loopA search_body) (seqA (open_log fs argv1) (loopA insert_body)))"

definition process_spann :: "pyver \<Rightarrow> filesys \<Rightarrow> string \<Rightarrow> table result option" where
  "process_spann ver fs argv1 =
     (case spann_passes fs argv1 spann_start of
        None \<Rightarrow> None | Some (s, Inl e) \<Rightarrow> Some (Inl e) | Some (s, Inr _) \<Rightarrow> Some (spann_table ver s))"

definition process_spfresh :: "pyver \<Rightarrow> filesys \<Rightarrow> string \<Rightarrow> table result option" where
  "process_spfresh = process_spann"

section \<open>Logs of blocks\<close>

datatype sample_item = Rss string int | Qps string pyfloat | Noise string

fun item_line :: "sample_item \<Rightarrow> string" where
  "item_line (Rss l n) = l"
| "item_line (Qps l x) = l"
| "item_line (Noise l) = l"

fun wf_item :: "sample_item \<Rightarrow> bool" where
  "wf_item (Rss l n) \<longleftrightarrow> is_rss_line (split_ws l) \<and> int_at (split_ws l) 16 = Inr n"
| "wf_item (Qps l x) \<longleftrightarrow> \<not> is_rss_line (split_ws l) \<and> is_qps_line (split_ws l) \<and> qps_value (split_ws l) = Inr x"
| "wf_item (Noise l) \<longleftrightarrow> \<not> is_rss_line (split_ws l) \<and> \<not> is_qps_line (split_ws l) \<and> \<not> is_latency_line (split_ws l)"

fun item_rss :: "sample_item \<Rightarrow> int list" where
  "item_rss (Rss l n) = [n]"
| "item_rss _ = []"

fun item_qps :: "sample_item \<Rightarrow> pyfloat list" where
  "item_qps (Qps l x) = [x]"
| "item_qps _ = []"

definition ends_sample :: "string list \<Rightarrow> bool" where
  "ends_sample g \<longleftrightarrow> \<not> is_rss_line g \<and> \<not> is_qps_line g \<and> is_latency_line g"

text \<open>A sampling block is a marker, items, a \<open>Total Latency\<close> line, a line, and the line of the values. An insert
  block is a marker, lines without a second word that is a number, and the line of the value.\<close>

datatype spann_entry =
    Sample string "sample_item list" string string string pyfloat pyfloat
  | Insert_Block string "string list" string pyfloat
  | Spann_Line string

fun spann_lines :: "spann_entry \<Rightarrow> string list" where
  "spann_lines (Sample m items a b c x y) = m # map item_line items @ [a, b, c]"
| "spann_lines (Insert_Block m skipped v x) = m # skipped @ [v]"
| "spann_lines (Spann_Line l) = [l]"

definition no_value :: "string list \<Rightarrow> bool" where
  "no_value g \<longleftrightarrow> length g \<le> 1 \<or> float_at g 1 = Inl ValueError"

definition plain_search :: "string \<Rightarrow> bool" where
  "plain_search l \<longleftrightarrow> l \<noteq> '''' \<and> \<not> is_sampling_line (split_ws l)"

definition plain_insert :: "string \<Rightarrow> bool" where
  "plain_insert l \<longleftrightarrow> l \<noteq> '''' \<and> \<not> is_insert_latency_line (split_ws l)"

fun wf_spann :: "spann_entry \<Rightarrow> bool" where
  "wf_spann (Sample m items a b c x y) \<longleftrightarrow> is_sampling_line (split_ws m) \<and> (\<forall>i\<in>set items. wf_item i) \<and>
     ends_sample (split_ws a) \<and> float_at (split_ws c) 1 = Inr x \<and> float_at (split_ws c) 6 = Inr y \<and>
     (\<forall>l\<in>set (spann_lines (Sample m items a b c x y)). plain_insert l)"
| "wf_spann (Insert_Block m skipped v x) \<longleftrightarrow> is_insert_latency_line (split_ws m) \<and> (\<forall>l\<in>set skipped. no_value (split_ws l)) \<and>
     1 < length (split_ws v) \<and> float_at (split_ws v) 1 = Inr x \<and>
     (\<forall>l\<in>set (spann_lines (Insert_Block m skipped v x)). plain_search l)"
| "wf_spann (Spann_Line l) \<longleftrightarrow> plain_search l \<and> plain_insert l"

fun entry_items :: "spann_entry \<Rightarrow> sample_item list" where
  "entry_items (Sample m items a b c x y) = items"
| "entry_items _ = []"

fun entry_values :: "spann_entry \<Rightarrow> (pyfloat \<times> pyfloat) list" where
  "entry_values (Sample m items a b c x y) = [(x, y)]"
| "entry_values _ = []"

fun entry_insert :: "spann_entry \<Rightarrow> pyfloat list" where
  "entry_insert (Insert_Block m skipped v x) = [x]"
| "entry_insert _ = []"

section \<open>What the passes collect\<close>

lemma rawline_run [simp]:
  "rawline s = Some (s\<lparr>lg_lines := tl (lg_lines s), lg_line := (case lg_lines s of [] \<Rightarrow> '''' | x # _ \<Rightarrow> x)\<rparr>,
     Inr (case lg_lines s of [] \<Rightarrow> '''' | x # _ \<Rightarrow> x))"
  by (simp add: rawline_def Let_def)

lemma raw_group_run [simp]:
  "raw_group s = Some (s\<lparr>lg_lines := tl (lg_lines s), lg_line := (case lg_lines s of [] \<Rightarrow> '''' | x # _ \<Rightarrow> x),
       lg_group := split_ws (case lg_lines s of [] \<Rightarrow> '''' | x # _ \<Rightarrow> x)\<rparr>,
     Inr (split_ws (case lg_lines s of [] \<Rightarrow> '''' | x # _ \<Rightarrow> x)))"
  by (simp add: raw_group_def bindA_def)

type_synonym spann_lists = "pyfloat list \<times> pyfloat list \<times> pyfloat list \<times> int list \<times> pyfloat list"

definition spann_acc :: "spann_log \<Rightarrow> spann_lists" where
  "spann_acc s = (sp_avg s, sp_tail s, sp_throughput s, sp_rss s, sp_insert s)"

fun item_add :: "sample_item \<Rightarrow> spann_lists \<Rightarrow> spann_lists" where
  "item_add i (a, t, q, r, n) = (a, t, q @ item_qps i, r @ item_rss i, n)"

fun search_add :: "spann_entry \<Rightarrow> spann_lists \<Rightarrow> spann_lists" where
  "search_add e (a, t, q, r, n) = (a @ map fst (entry_values e), t @ map snd (entry_values e),
     q @ concat (map item_qps (entry_items e)), r @ concat (map item_rss (entry_items e)), n)"

fun insert_add :: "spann_entry \<Rightarrow> spann_lists \<Rightarrow> spann_lists" where
  "insert_add e (a, t, q, r, n) = (a, t, q, r, n @ entry_insert e)"

lemma sample_item_round:
  assumes "wf_item i" and "lg_lines s = item_line i # rest"
  shows "\<exists>s'. sample_body s = Some (s', Inr True) \<and> lg_lines s' = rest \<and> spann_acc s' = item_add i (spann_acc s)"
  using assms by (cases i) (auto simp: sample_body_def bindA_def spann_acc_def)

lemma sample_last_round:
  assumes "ends_sample (split_ws a)" and "float_at (split_ws c) 1 = Inr x" and "float_at (split_ws c) 6 = Inr y"
    and "lg_lines s = a # b # c # rest"
  shows "\<exists>s'. sample_body s = Some (s', Inr False) \<and> lg_lines s' = rest \<and>
    spann_acc s' = (sp_avg s @ [x], sp_tail s @ [y], sp_throughput s, sp_rss s, sp_insert s)"
  using assms by (auto simp: sample_body_def bindA_def spann_acc_def ends_sample_def)

lemma sample_loop_values:
  assumes "\<forall>i\<in>set items. wf_item i" and "ends_sample (split_ws a)"
    and "float_at (split_ws c) 1 = Inr x" and "float_at (split_ws c) 6 = Inr y"
    and "lg_lines s = map item_line items @ [a, b, c] @ rest"
  shows "\<exists>s'. loopA sample_body s = Some (s', Inr ()) \<and> lg_lines s' = rest \<and>
    spann_acc s' = search_add (Sample m items a b c x y) (spann_acc s)"
  using assms
proof (induction items arbitrary: s)
  case Nil
  then obtain s' where s': "sample_body s = Some (s', Inr False)" "lg_lines s' = rest"
    "spann_acc s' = (sp_avg s @ [x], sp_tail s @ [y], sp_throughput s, sp_rss s, sp_insert s)"
    using sample_last_round [of a c x y s b rest] by auto
  then show ?case by (simp add: loopA_unfold [of sample_body, OF s'(1)] spann_acc_def)
next
  case (Cons i items)
  then obtain t where t: "sample_body s = Some (t, Inr True)" "lg_lines t = map item_line items @ [a, b, c] @ rest"
    "spann_acc t = item_add i (spann_acc s)"
    using sample_item_round [of i s "map item_line items @ [a, b, c] @ rest"] by auto
  from Cons.IH [OF _ Cons.prems(2-4) t(2)] Cons.prems(1) t(3) show ?case
    by (auto simp: loopA_unfold [of sample_body, OF t(1)] spann_acc_def)
qed

lemma search_skip:
  assumes "plain_search l" and "lg_lines s = l # ls"
  shows "\<exists>t. search_body s = Some (t, Inr True) \<and> lg_lines t = ls \<and> spann_acc t = spann_acc s"
  using assms by (auto simp: search_body_def catchA_def bindA_def plain_search_def spann_acc_def)

lemma insert_skip:
  assumes "plain_insert l" and "lg_lines s = l # ls"
  shows "\<exists>t. insert_body s = Some (t, Inr True) \<and> lg_lines t = ls \<and> spann_acc t = spann_acc s"
  using assms by (auto simp: insert_body_def catchA_def bindA_def plain_insert_def spann_acc_def)

lemma search_skips:
  assumes "\<forall>l\<in>set xs. plain_search l" and "lg_lines s = xs @ rest"
  shows "\<exists>s'. loopA search_body s = loopA search_body s' \<and> lg_lines s' = rest \<and> spann_acc s' = spann_acc s"
  by (rule loopA_skip_lines [where P = plain_search, OF _ assms]) (rule search_skip)

lemma insert_skips:
  assumes "\<forall>l\<in>set xs. plain_insert l" and "lg_lines s = xs @ rest"
  shows "\<exists>s'. loopA insert_body s = loopA insert_body s' \<and> lg_lines s' = rest \<and> spann_acc s' = spann_acc s"
  by (rule loopA_skip_lines [where P = plain_insert, OF _ assms]) (rule insert_skip)


lemma sampling_nonempty: "is_sampling_line (split_ws l) \<Longrightarrow> l \<noteq> ''''"
  by (auto simp: is_sampling_line_def word_is_def)

lemma search_sample_round:
  assumes "is_sampling_line (split_ws m)" and "lg_lines s = m # ls"
  shows "\<exists>t. lg_lines t = ls \<and> spann_acc t = spann_acc s \<and>
    (\<forall>s'. loopA sample_body t = Some (s', Inr ()) \<longrightarrow> search_body s = Some (s', Inr True))"
  using assms sampling_nonempty
  by (intro exI [of _ "s\<lparr>lg_lines := ls, lg_line := m, lg_count := Suc (lg_count s), lg_group := split_ws m\<rparr>"])
     (auto simp: search_body_def catchA_def bindA_def spann_acc_def)

lemma search_entry:
  assumes "wf_spann e" and "lg_lines s = spann_lines e @ rest"
  shows "\<exists>s'. loopA search_body s = loopA search_body s' \<and> lg_lines s' = rest \<and> spann_acc s' = search_add e (spann_acc s)"
proof (cases e)
  case (Sample m items a b c x y)
  with assms obtain t where t: "lg_lines t = map item_line items @ [a, b, c] @ rest" "spann_acc t = spann_acc s"
    and step: "\<And>s'. loopA sample_body t = Some (s', Inr ()) \<Longrightarrow> search_body s = Some (s', Inr True)"
    using search_sample_round [of m s "map item_line items @ [a, b, c] @ rest"] by auto
  have wf: "\<forall>i\<in>set items. wf_item i" "ends_sample (split_ws a)" "float_at (split_ws c) 1 = Inr x" "float_at (split_ws c) 6 = Inr y"
    using assms(1) Sample by auto
  from sample_loop_values [OF wf t(1)] obtain s' where s': "loopA sample_body t = Some (s', Inr ())" "lg_lines s' = rest"
    "spann_acc s' = search_add (Sample m items a b c x y) (spann_acc t)" by blast
  with step [OF s'(1)] t(2) Sample show ?thesis by (auto simp: loopA_unfold [of search_body, OF step [OF s'(1)]])
next
  case (Insert_Block m skipped v x)
  with assms search_skips [of "spann_lines e" s rest] show ?thesis by (auto simp: spann_acc_def)
next
  case (Spann_Line l)
  with assms search_skips [of "spann_lines e" s rest] show ?thesis by (auto simp: spann_acc_def)
qed

interpretation search_entries: entry_loop search_body spann_lines wf_spann spann_acc search_add
  by unfold_locales (rule search_entry, auto simp: search_body_def catchA_def bindA_def spann_acc_def)

lemma value_loop_finds:
  assumes "\<forall>l\<in>set skipped. no_value (split_ws l)" and "1 < length (split_ws v)" and "float_at (split_ws v) 1 = Inr x"
    and "lg_group s = split_ws (hd (skipped @ [v]))" and "lg_lines s = tl (skipped @ [v]) @ rest"
  shows "\<exists>s'. loopA value_body s = Some (s', Inr ()) \<and> lg_lines s' = rest \<and> lg_group s' = split_ws v \<and> spann_acc s' = spann_acc s"
  using assms
proof (induction skipped arbitrary: s)
  case Nil
  then have b: "value_body s = Some (s, Inr False)" by (auto simp: value_body_def catchA_def bindA_def)
  with Nil show ?case by (simp add: loopA_unfold [of value_body, OF b])
next
  case (Cons l skipped)
  define h where "h = hd (skipped @ [v])"
  define t where "t = s\<lparr>lg_lines := tl (skipped @ [v]) @ rest, lg_line := h, lg_count := Suc (lg_count s), lg_group := split_ws h\<rparr>"
  have lines: "lg_lines s = h # tl (skipped @ [v]) @ rest"
    using Cons.prems(5) by (cases skipped) (auto simp: h_def)
  have b: "value_body s = Some (t, Inr True)"
    using Cons.prems(1,4) lines by (auto simp: value_body_def catchA_def bindA_def no_value_def t_def)
  have "\<exists>s'. loopA value_body t = Some (s', Inr ()) \<and> lg_lines s' = rest \<and> lg_group s' = split_ws v \<and> spann_acc s' = spann_acc t"
    by (rule Cons.IH) (use Cons.prems in \<open>auto simp: t_def h_def\<close>)
  then show ?case by (auto simp: loopA_unfold [of value_body, OF b] t_def spann_acc_def)
qed

lemma insert_block_round:
  assumes "wf_spann (Insert_Block m skipped v x)" and "lg_lines s = m # skipped @ v # rest"
  shows "\<exists>s'. insert_body s = Some (s', Inr True) \<and> lg_lines s' = rest \<and>
    spann_acc s' = insert_add (Insert_Block m skipped v x) (spann_acc s)"
proof -
  define h where "h = hd (skipped @ [v])"
  define t where "t = s\<lparr>lg_lines := tl (skipped @ [v]) @ rest, lg_line := h, lg_count := Suc (Suc (lg_count s)), lg_group := split_ws h\<rparr>"
  have lines: "skipped @ v # rest = h # tl (skipped @ [v]) @ rest" by (cases skipped) (auto simp: h_def)
  have m: "is_insert_latency_line (split_ws m)" "m \<noteq> ''''" using assms(1) by (auto simp: is_insert_latency_line_def)
  have "\<exists>s'. loopA value_body t = Some (s', Inr ()) \<and> lg_lines s' = rest \<and> lg_group s' = split_ws v \<and> spann_acc s' = spann_acc t"
    by (rule value_loop_finds) (use assms in \<open>auto simp: t_def h_def\<close>)
  then obtain u where u: "loopA value_body t = Some (u, Inr ())" "lg_lines u = rest" "lg_group u = split_ws v" "spann_acc u = spann_acc t" by blast
  have x: "float_at (split_ws v) 1 = Inr x" using assms(1) by simp
  have "insert_body s = Some (u\<lparr>sp_insert := sp_insert u @ [x]\<rparr>, Inr True)"
    using assms(2) lines m u(1,3) x by (simp add: insert_body_def catchA_def bindA_def take_insert_def flip: t_def)
  with u show ?thesis by (auto simp: spann_acc_def t_def)
qed

lemma insert_entry:
  assumes "wf_spann e" and "lg_lines s = spann_lines e @ rest"
  shows "\<exists>s'. loopA insert_body s = loopA insert_body s' \<and> lg_lines s' = rest \<and> spann_acc s' = insert_add e (spann_acc s)"
proof (cases e)
  case (Sample m items a b c x y)
  with assms insert_skips [of "spann_lines e" s rest] show ?thesis by (auto simp: spann_acc_def)
next
  case (Insert_Block m skipped v x)
  with assms obtain s' where s': "insert_body s = Some (s', Inr True)" "lg_lines s' = rest"
    "spann_acc s' = insert_add (Insert_Block m skipped v x) (spann_acc s)"
    using insert_block_round [of m skipped v x s rest] by auto
  with Insert_Block show ?thesis by (auto simp: loopA_unfold [of insert_body, OF s'(1)])
next
  case (Spann_Line l)
  with assms insert_skips [of "spann_lines e" s rest] show ?thesis by (auto simp: spann_acc_def)
qed

interpretation insert_entries: entry_loop insert_body spann_lines wf_spann spann_acc insert_add
  by unfold_locales (rule insert_entry, auto simp: insert_body_def catchA_def bindA_def spann_acc_def)

section \<open>The scripts as a whole\<close>

lemma fold_search_add:
  "fold search_add es (a, t, q, r, n) = (a @ map fst (concat (map entry_values es)), t @ map snd (concat (map entry_values es)),
     q @ concat (map item_qps (concat (map entry_items es))), r @ concat (map item_rss (concat (map entry_items es))), n)"
  by (induction es arbitrary: a t q r) auto

lemma fold_insert_add: "fold insert_add es (a, t, q, r, n) = (a, t, q, r, n @ concat (map entry_insert es))"
  by (induction es arbitrary: n) auto

lemma rss_cell_exact:
  assumes "\<bar>n\<bar> \<le> 2 ^ 53"
  shows "rss_cell Py3 n = Inr (CFloat (FFin (of_int n / 1024)))"
proof -
  have pw: "(2 :: rat) powi (- 10) = 1 / 1024" by (simp add: power_int_def power_one_over)
  have rep: "b64.representable (of_int n / 1024)"
    unfolding b64.representable_def using assms by (intro exI [of _ n] exI [of _ "- 10"]) (simp add: pw)
  have "\<bar>of_int n :: rat\<bar> \<le> 2 ^ 53" using assms by (metis of_int_abs of_int_le_iff of_int_numeral of_int_power)
  then have "of_int (- (2 ^ 53)) \<le> (of_int n / 1024 :: rat)" "(of_int n / 1024 :: rat) \<le> of_int (2 ^ 53)" by (simp_all add: abs_le_iff)
  from fl64_between [OF this] obtain r where "fl64 (of_int n / 1024) = FFin r" by auto
  then have "fl64 (of_int n / 1024) = FFin (of_int n / 1024)"
    using b64.rndf_representable [OF rep] by (simp add: fl64_def Let_def split: if_splits)
  then show ?thesis by (simp add: rss_cell_def int_truediv_def checked_float_def)
qed

lemma spann_passes_values:
  assumes "fs argv1 = Some c" and "lines_of (as_text c) = concat (map spann_lines es)" and wf: "\<forall>e\<in>set es. wf_spann e"
  shows "\<exists>s. spann_passes fs argv1 spann_start = Some (s, Inr ()) \<and>
    spann_acc s = (map fst (concat (map entry_values es)), map snd (concat (map entry_values es)),
      concat (map item_qps (concat (map entry_items es))), concat (map item_rss (concat (map entry_items es))), concat (map entry_insert es))"
proof -
  define s0 where "s0 = spann_start\<lparr>lg_lines := concat (map spann_lines es)\<rparr>"
  have s0: "lg_lines s0 = concat (map spann_lines es)" "spann_acc s0 = ([], [], [], [], [])" by (simp_all add: s0_def spann_acc_def spann_start_def)
  from search_entries.entries [OF wf s0(1)] obtain s1 where s1: "loopA search_body s0 = Some (s1, Inr ())" "spann_acc s1 = fold search_add es (spann_acc s0)" by blast
  define s2 where "s2 = s1\<lparr>lg_lines := concat (map spann_lines es)\<rparr>"
  have s2: "lg_lines s2 = concat (map spann_lines es)" "spann_acc s2 = spann_acc s1" by (simp_all add: s2_def spann_acc_def)
  from insert_entries.entries [OF wf s2(1)] obtain s3 where s3: "loopA insert_body s2 = Some (s3, Inr ())" "spann_acc s3 = fold insert_add es (spann_acc s2)" by blast
  have "spann_passes fs argv1 spann_start = Some (s3, Inr ())"
    using assms(1,2) s1(1) s3(1) by (simp add: spann_passes_def open_log_def open_file_def bindA_def flip: s0_def s2_def)
  moreover have "spann_acc s3 = (map fst (concat (map entry_values es)), map snd (concat (map entry_values es)),
      concat (map item_qps (concat (map entry_items es))), concat (map item_rss (concat (map entry_items es))), concat (map entry_insert es))"
    by (simp add: s3(2) s2(2) s1(2) s0(2) fold_search_add fold_insert_add)
  ultimately show ?thesis by blast
qed

text \<open>C20: the table of \<open>process_spann.py\<close> and \<open>process_spfresh.py\<close>. For a log of sampling blocks, insert blocks and other
  lines the scripts write the zipped columns of average latencies, tail latencies, throughputs, RSS
  values divided by 1024 (exactly, in Python 3, up to 53 bits; rounded down in Python 2) and insert
  latencies, each in the order of the log, the last one padded with empty cells.\<close>

theorem process_spann_table:
  assumes "fs argv1 = Some c" and "lines_of (as_text c) = concat (map spann_lines es)" and "\<forall>e\<in>set es. wf_spann e"
    and "vals = concat (map entry_values es)" and "items = concat (map entry_items es)"
    and "rss = concat (map item_rss items)" and "ins = concat (map entry_insert es)" and "\<forall>n\<in>set rss. \<bar>n\<bar> \<le> 2 ^ 53"
  shows "process_spann ver fs argv1 = Some (Inr (zip_columns
      [CStr ''Search'' # CStr ''Avg Latency'' # map (CFloat \<circ> fst) vals,
       CStr '' '' # CStr ''Tail Latency'' # map (CFloat \<circ> snd) vals,
       CStr '''' # CStr ''Throughput'' # map CFloat (concat (map item_qps items)),
       CStr '''' # CStr ''RSS'' # map (\<lambda>n. if ver = Py2 then CInt (n div 1024) else CFloat (FFin (of_int n / 1024))) rss,
       CStr ''Insert'' # CStr ''Avg Latency'' # map CFloat ins @ replicate (length rss - length ins) (CStr '''')]))
    \<and> process_spfresh ver fs argv1 = process_spann ver fs argv1"
proof -
  from spann_passes_values [of fs argv1 c es, OF assms(1-3)] obtain s where s: "spann_passes fs argv1 spann_start = Some (s, Inr ())"
    "sp_avg s = map fst vals" "sp_tail s = map snd vals" "sp_throughput s = concat (map item_qps items)" "sp_rss s = rss" "sp_insert s = ins"
    unfolding assms(4-7) by (auto simp: spann_acc_def)
  have "rss_cell ver n = Inr (if ver = Py2 then CInt (n div 1024) else CFloat (FFin (of_int n / 1024)))" if "n \<in> set rss" for n
    using that assms(8) rss_cell_exact [of n] by (cases ver) (auto simp: rss_cell_def [of Py2])
  then have "mapE (rss_cell ver) rss = Inr (map (\<lambda>n. if ver = Py2 then CInt (n div 1024) else CFloat (FFin (of_int n / 1024))) rss)"
    by (rule mapE_total)
  with s show ?thesis by (simp add: process_spann_def process_spfresh_def spann_table_def comp_def)
qed

section \<open>Whether the scripts return\<close>

text \<open>After every line that starts a block there is a line that ends it.\<close>

fun answered :: "(string list \<Rightarrow> bool) \<Rightarrow> (string list \<Rightarrow> bool) \<Rightarrow> string list \<Rightarrow> bool" where
  "answered P Q [] \<longleftrightarrow> True"
| "answered P Q (l # ls) \<longleftrightarrow> (P (split_ws l) \<longrightarrow> (\<exists>m\<in>set ls. Q (split_ws m))) \<and> answered P Q ls"

lemma answered_drop: "answered P Q ls \<Longrightarrow> answered P Q (drop n ls)"
  by (induction P Q ls arbitrary: n rule: answered.induct) (auto simp: drop_Cons')

definition has_value :: "string list \<Rightarrow> bool" where
  "has_value g \<longleftrightarrow> 1 < length g \<and> (\<exists>x. float_at g 1 = Inr x)"

definition shortens :: "'d log_scheme \<Rightarrow> 'd log_scheme \<Rightarrow> bool" where
  "shortens s s' \<longleftrightarrow> (\<exists>n. lg_lines s' = drop n (lg_lines s))"

lemma shortens_refl [simp]: "shortens s s"
  unfolding shortens_def by (intro exI [of _ 0]) simp

lemma shortens_trans: "shortens s t \<Longrightarrow> shortens t u \<Longrightarrow> shortens s u"
  by (auto simp: shortens_def)

lemma sample_round:
  assumes "lg_lines s = l # ls"
  shows "\<exists>s' r. sample_body s = Some (s', r) \<and> lg_lines s' = (if ends_sample (split_ws l) then tl (tl ls) else ls) \<and>
    (ends_sample (split_ws l) \<longrightarrow> r \<noteq> Inr True)"
  using assms by (auto simp: sample_body_def bindA_def ends_sample_def split: sum.splits)

lemma sample_loop_returns:
  assumes "\<exists>m\<in>set (lg_lines s). ends_sample (split_ws m)"
  shows "\<exists>s' r. loopA sample_body s = Some (s', r) \<and> shortens s s'"
  using assms
proof (induction "length (lg_lines s)" arbitrary: s)
  case (Suc n)
  then obtain l ls where l: "lg_lines s = l # ls" by (cases "lg_lines s") auto
  from sample_round [OF l] obtain s' r where b: "sample_body s = Some (s', r)"
    and s': "lg_lines s' = (if ends_sample (split_ws l) then tl (tl ls) else ls)" "ends_sample (split_ws l) \<longrightarrow> r \<noteq> Inr True" by blast
  have sh: "shortens s s'"
    unfolding shortens_def using l s'(1) by (intro exI [of _ "if ends_sample (split_ws l) then 3 else 1"]) (simp add: tl_drop numeral_3_eq_3 drop_Suc)
  show ?case
  proof (cases "r = Inr True")
    case True
    with s' Suc l have "\<exists>u r. loopA sample_body s' = Some (u, r) \<and> shortens s' u" by auto
    with b True sh show ?thesis by (auto simp: loopA_unfold intro: shortens_trans)
  next
    case False
    with b sh show ?thesis by (cases r) (auto simp: loopA_raise loopA_unfold)
  qed
qed simp

lemma search_round:
  assumes "answered is_sampling_line ends_sample (lg_lines s)"
  shows "\<exists>s' r. search_body s = Some (s', r) \<and> (r = Inr True \<longrightarrow>
    answered is_sampling_line ends_sample (lg_lines s') \<and> length (lg_lines s') < length (lg_lines s))"
proof (cases "lg_lines s")
  case Nil
  then show ?thesis by (simp add: search_body_def catchA_def bindA_def)
next
  case (Cons l ls)
  define t where "t = s\<lparr>lg_lines := ls, lg_line := l, lg_count := Suc (lg_count s), lg_group := split_ws l\<rparr>"
  show ?thesis
  proof (cases "l \<noteq> '''' \<and> is_sampling_line (split_ws l)")
    case True
    with assms Cons have "\<exists>m\<in>set (lg_lines t). ends_sample (split_ws m)" by (simp add: t_def)
    from sample_loop_returns [OF this] obtain u r n where u: "loopA sample_body t = Some (u, r)" "lg_lines u = drop n ls"
      by (auto simp: shortens_def t_def)
    from assms Cons have "answered is_sampling_line ends_sample (drop n ls)" by (simp add: answered_drop)
    with True Cons u show ?thesis by (cases r) (auto simp: search_body_def catchA_def bindA_def less_Suc_eq_le simp flip: t_def)
  next
    case False
    with assms Cons show ?thesis by (auto simp: search_body_def catchA_def bindA_def)
  qed
qed

lemma py_float_error: "py_float w = Inl e \<Longrightarrow> e = ValueError"
  by (auto simp: py_float_def Let_def split: if_splits option.splits prod.splits)

lemma float_at_error:
  assumes "float_at g (Suc 0) = Inl e" and "\<not> length g \<le> Suc 0"
  shows "e = ValueError"
  using assms py_get_nat [of g "Suc 0"] by (auto simp: float_at_def dest: py_float_error)

lemma value_loop_returns:
  assumes "has_value (lg_group s) \<or> (\<exists>m\<in>set (lg_lines s). has_value (split_ws m))"
  shows "\<exists>s' r. loopA value_body s = Some (s', r) \<and> shortens s s'"
  using assms
proof (induction "length (lg_lines s)" arbitrary: s)
  case (0 s)
  then have b: "value_body s = Some (s, Inr False)"
    by (auto simp: value_body_def catchA_def bindA_def has_value_def)
  show ?case by (intro exI conjI, simp add: loopA_unfold [of value_body, OF b], simp)
next
  case (Suc n)
  then obtain l ls where l: "lg_lines s = l # ls" by (cases "lg_lines s") auto
  define t where "t = s\<lparr>lg_lines := ls, lg_line := l, lg_count := Suc (lg_count s), lg_group := split_ws l\<rparr>"
  show ?case
  proof (cases "has_value (lg_group s)")
    case True
    then have b: "value_body s = Some (s, Inr False)" by (auto simp: value_body_def catchA_def bindA_def has_value_def)
    show ?thesis by (intro exI conjI, simp add: loopA_unfold [of value_body, OF b], simp)
  next
    case False
    then have b: "value_body s = Some (t, Inr True)"
      using l by (cases "float_at (lg_group s) 1")
        (auto simp: value_body_def catchA_def bindA_def has_value_def t_def dest: float_at_error)
    have "\<exists>u r. loopA value_body t = Some (u, r) \<and> shortens t u"
      by (rule Suc.hyps) (use Suc l False in \<open>auto simp: t_def\<close>)
    moreover have "shortens s t" unfolding shortens_def using l by (intro exI [of _ 1]) (simp add: t_def)
    ultimately show ?thesis by (auto simp: loopA_unfold [of value_body, OF b] intro: shortens_trans)
  qed
qed

lemma take_insert_returns:
  assumes "\<exists>m\<in>set (lg_lines s). has_value (split_ws m)"
  shows "\<exists>s' r. take_insert s = Some (s', r) \<and> shortens s s'"
proof -
  from assms obtain l ls where l: "lg_lines s = l # ls" by (cases "lg_lines s") auto
  define t where "t = s\<lparr>lg_lines := ls, lg_line := l, lg_count := Suc (lg_count s), lg_group := split_ws l\<rparr>"
  have st: "shortens s t" unfolding shortens_def using l by (intro exI [of _ 1]) (simp add: t_def)
  have "has_value (lg_group t) \<or> (\<exists>m\<in>set (lg_lines t). has_value (split_ws m))" using assms l by (auto simp: t_def)
  from value_loop_returns [OF this] obtain u r where u: "loopA value_body t = Some (u, r)" "shortens t u" by blast
  from shortens_trans [OF st u(2)] u(1) l show ?thesis
    by (cases r; cases "float_at (lg_group u) 1") (auto simp: take_insert_def bindA_def shortens_def simp flip: t_def)
qed

lemma insert_round:
  assumes "answered is_insert_latency_line has_value (lg_lines s)"
  shows "\<exists>s' r. insert_body s = Some (s', r) \<and> (r = Inr True \<longrightarrow>
    answered is_insert_latency_line has_value (lg_lines s') \<and> length (lg_lines s') < length (lg_lines s))"
proof (cases "lg_lines s")
  case Nil
  then show ?thesis by (simp add: insert_body_def catchA_def bindA_def)
next
  case (Cons l ls)
  define t where "t = s\<lparr>lg_lines := ls, lg_line := l, lg_count := Suc (lg_count s), lg_group := split_ws l\<rparr>"
  show ?thesis
  proof (cases "l \<noteq> '''' \<and> is_insert_latency_line (split_ws l)")
    case True
    with assms Cons have "\<exists>m\<in>set (lg_lines t). has_value (split_ws m)" by (simp add: t_def)
    from take_insert_returns [OF this] obtain u r n where u: "take_insert t = Some (u, r)" "lg_lines u = drop n ls"
      by (auto simp: shortens_def t_def)
    from assms Cons have "answered is_insert_latency_line has_value (drop n ls)" by (simp add: answered_drop)
    with True Cons u show ?thesis by (cases r) (auto simp: insert_body_def catchA_def bindA_def less_Suc_eq_le simp flip: t_def)
  next
    case False
    with assms Cons show ?thesis by (auto simp: insert_body_def catchA_def bindA_def)
  qed
qed

lemma spann_passes_return:
  assumes "fs argv1 = Some c" and "answered is_sampling_line ends_sample (lines_of (as_text c))"
    and "answered is_insert_latency_line has_value (lines_of (as_text c))"
  shows "\<exists>s' r. spann_passes fs argv1 s = Some (s', r)"
proof -
  have search: "\<exists>s' r. loopA search_body s = Some (s', r)" if "lg_lines s = lines_of (as_text c)" for s
    by (rule loopA_returns [where I = "\<lambda>s. answered is_sampling_line ends_sample (lg_lines s)" and m = "\<lambda>s. length (lg_lines s)"])
       (use that assms(2) search_round in auto)
  have insert: "\<exists>s' r. loopA insert_body s = Some (s', r)" if "lg_lines s = lines_of (as_text c)" for s
    by (rule loopA_returns [where I = "\<lambda>s. answered is_insert_latency_line has_value (lg_lines s)" and m = "\<lambda>s. length (lg_lines s)"])
       (use that assms(3) insert_round in auto)
  have op: "open_log fs argv1 s = Some (s\<lparr>lg_lines := lines_of (as_text c)\<rparr>, Inr ())" for s :: spann_log
    using assms(1) by (simp add: open_log_def open_file_def bindA_def)
  show ?thesis by (auto simp: spann_passes_def bindA_run(1) [OF op] intro!: bindA_returns search insert)
qed

text \<open>A sampling block that the log cuts off: its loop consumes the lines it understands; at the end of the
  log it goes round for ever, and a \<open>Total Latency\<close> line without the two lines after it is an IndexError.\<close>

lemma sample_items:
  assumes "\<forall>i\<in>set items. wf_item i" and "lg_lines s = map item_line items @ rest"
  shows "\<exists>s'. loopA sample_body s = loopA sample_body s' \<and> lg_lines s' = rest"
  using assms
proof (induction items arbitrary: s)
  case (Cons i items)
  then obtain t where t: "sample_body s = Some (t, Inr True)" "lg_lines t = map item_line items @ rest"
    using sample_item_round [of i s "map item_line items @ rest"] by auto
  with Cons.IH [of t] Cons.prems show ?case by (auto simp: loopA_unfold [of sample_body, OF t(1)])
qed auto

lemma sample_hangs: "lg_lines s = [] \<Longrightarrow> loopA sample_body s = None"
  by (rule loopA_diverges [where P = "\<lambda>s. lg_lines s = []"])
     (auto simp: sample_body_def bindA_def is_rss_line_def is_qps_line_def is_latency_line_def word_is_def)

lemma sample_cut_raises:
  assumes "ends_sample (split_ws a)" and "lg_lines s = a # short" and "length short \<le> 1"
  shows "\<exists>s'. loopA sample_body s = Some (s', Inl IndexError)"
proof -
  have "tl short = []" using assms(3) by (cases short) auto
  moreover have "float_at [] (Suc 0) = Inl IndexError" by (simp add: float_at_def py_get_def py_index_def)
  ultimately have "\<exists>s'. sample_body s = Some (s', Inl IndexError)"
    using assms(1,2) by (auto simp: sample_body_def bindA_def ends_sample_def)
  then show ?thesis by (blast intro: loopA_raise)
qed

lemma search_cut:
  assumes "\<forall>e\<in>set es. wf_spann e" and "is_sampling_line (split_ws m)" and "\<forall>i\<in>set items. wf_item i"
    and "lg_lines s = concat (map spann_lines es) @ m # map item_line items @ short"
  shows "\<exists>t. lg_lines t = short \<and> (loopA sample_body t = None \<longrightarrow> loopA search_body s = None) \<and>
    (\<forall>u. loopA sample_body t = Some (u, Inl IndexError) \<longrightarrow> loopA search_body s = Some (u, Inl IndexError))"
proof -
  from search_entries.entries_before [OF assms(1,4)] obtain s1 where
    s1: "loopA search_body s = loopA search_body s1" "lg_lines s1 = m # map item_line items @ short" by blast
  define t1 where "t1 = s1\<lparr>lg_lines := map item_line items @ short, lg_line := m, lg_count := Suc (lg_count s1), lg_group := split_ws m\<rparr>"
  have "lg_lines t1 = map item_line items @ short" by (simp add: t1_def)
  from sample_items [OF assms(3) this] obtain t where t: "loopA sample_body t1 = loopA sample_body t" "lg_lines t = short" by blast
  have "search_body s1 = None" if "loopA sample_body t = None"
    using that t(1) s1(2) assms(2) sampling_nonempty by (simp add: search_body_def catchA_def bindA_def flip: t1_def)
  moreover have "search_body s1 = Some (u, Inl IndexError)" if "loopA sample_body t = Some (u, Inl IndexError)" for u
    using that t(1) s1(2) assms(2) sampling_nonempty by (simp add: search_body_def catchA_def bindA_def flip: t1_def)
  ultimately show ?thesis
    using s1(1) t(2) by (intro exI [of _ t]) (simp add: loopA_body_diverges loopA_raise)
qed

text \<open>C21: when \<open>process_spann.py\<close> and \<open>process_spfresh.py\<close> return. They return, with a table or an exception, if in
  the log every sampling marker is followed by a \<open>Total Latency\<close> line and every insert marker by a line
  whose second word is a number. For a log whose last sampling block, after well-formed entries, is cut
  off: if the log ends after lines of the block that can be read (memory lines, rate lines and others) and before
  its \<open>Total Latency\<close> line, they run for ever; if it ends with the \<open>Total Latency\<close> line or with the line
  after it, they raise IndexError.\<close>

theorem process_spann_returns:
  assumes "fs argv1 = Some c"
  shows "(answered is_sampling_line ends_sample (lines_of (as_text c)) \<longrightarrow>
      answered is_insert_latency_line has_value (lines_of (as_text c)) \<longrightarrow> (\<exists>r. process_spann ver fs argv1 = Some r)) \<and>
    (lines_of (as_text c) = concat (map spann_lines es) @ m # map item_line items @ short \<longrightarrow>
      (\<forall>e\<in>set es. wf_spann e) \<longrightarrow> is_sampling_line (split_ws m) \<longrightarrow> (\<forall>i\<in>set items. wf_item i) \<longrightarrow>
      (short = [] \<longrightarrow> process_spann ver fs argv1 = None) \<and>
      (short \<noteq> [] \<and> ends_sample (split_ws (hd short)) \<and> length short \<le> 2 \<longrightarrow>
        process_spann ver fs argv1 = Some (Inl IndexError)))"
proof (intro conjI impI)
  show "\<exists>r. process_spann ver fs argv1 = Some r" if "answered is_sampling_line ends_sample (lines_of (as_text c))"
    "answered is_insert_latency_line has_value (lines_of (as_text c))"
  proof -
    from spann_passes_return [of fs argv1 c, OF assms that, of spann_start] obtain s r where
      "spann_passes fs argv1 spann_start = Some (s, r)" by blast
    then show ?thesis by (cases r) (auto simp: process_spann_def)
  qed
  assume lines: "lines_of (as_text c) = concat (map spann_lines es) @ m # map item_line items @ short"
    and es: "\<forall>e\<in>set es. wf_spann e" and m: "is_sampling_line (split_ws m)" and items: "\<forall>i\<in>set items. wf_item i"
  define s0 where "s0 = spann_start\<lparr>lg_lines := lines_of (as_text c)\<rparr>"
  have op: "open_log fs argv1 spann_start = Some (s0, Inr ())"
    using assms by (simp add: open_log_def open_file_def bindA_def s0_def)
  have "lg_lines s0 = concat (map spann_lines es) @ m # map item_line items @ short" using lines by (simp add: s0_def)
  from search_cut [OF es m items this] obtain t where t: "lg_lines t = short"
    "loopA sample_body t = None \<longrightarrow> loopA search_body s0 = None"
    "\<forall>u. loopA sample_body t = Some (u, Inl IndexError) \<longrightarrow> loopA search_body s0 = Some (u, Inl IndexError)" by (elim exE conjE) (rule that)
  show "process_spann ver fs argv1 = None" if "short = []"
    using t(2) sample_hangs [of t] t(1) that by (simp add: process_spann_def spann_passes_def bindA_def op)
  show "process_spann ver fs argv1 = Some (Inl IndexError)"
    if cut: "short \<noteq> [] \<and> ends_sample (split_ws (hd short)) \<and> length short \<le> 2"
  proof -
    from cut obtain a ls where "short = a # ls" "ends_sample (split_ws a)" "length ls \<le> 1" by (cases short) auto
    with sample_cut_raises [of a t ls] t(1) obtain u where "loopA sample_body t = Some (u, Inl IndexError)" by auto
    with t(3) show ?thesis by (simp add: process_spann_def spann_passes_def bindA_def op)
  qed
qed

definition sample_spann_log :: "byte list" where
  "sample_spann_log = as_bytes (''start'' @ [nl] @ ''x Samppling'' @ [nl] @ ''0 1 2 3 RSS 5 6 7 8 9 10 11 12 13 14 15 2048'' @ [nl] @
     ''a b c d e f g AvgQPS: 8.'' @ [nl] @ ''Total Latency'' @ [nl] @ ''avg'' @ [nl] @ ''0 3 0 0 0 0 5'' @ [nl] @
     ''x Insert Latency'' @ [nl] @ ''a b'' @ [nl] @ ''a 7'' @ [nl])"

definition sample_spann_entries :: "spann_entry list" where
  "sample_spann_entries = [Spann_Line (''start'' @ [nl]),
     Sample (''x Samppling'' @ [nl]) [Rss (''0 1 2 3 RSS 5 6 7 8 9 10 11 12 13 14 15 2048'' @ [nl]) 2048, Qps (''a b c d e f g AvgQPS: 8.'' @ [nl]) (FFin 8)]
       (''Total Latency'' @ [nl]) (''avg'' @ [nl]) (''0 3 0 0 0 0 5'' @ [nl]) (FFin 3) (FFin 5),
     Insert_Block (''x Insert Latency'' @ [nl]) [''a b'' @ [nl]] (''a 7'' @ [nl]) (FFin 7)]"

lemma sample_spann_lines: "lines_of (as_text sample_spann_log) = concat (map spann_lines sample_spann_entries)"
  by code_simp

lemma sample_spann_wf: "\<forall>e\<in>set sample_spann_entries. wf_spann e"
  by code_simp

theorem process_spann_table_witness:
  "process_spann Py3 [''l'' \<mapsto> sample_spann_log] ''l'' = Some (Inr (zip_columns
      [CStr ''Search'' # CStr ''Avg Latency'' # map (CFloat \<circ> fst) [(FFin 3, FFin 5)],
       CStr '' '' # CStr ''Tail Latency'' # map (CFloat \<circ> snd) [(FFin 3, FFin 5)],
       CStr '''' # CStr ''Throughput'' # map CFloat (concat (map item_qps (concat (map entry_items sample_spann_entries)))),
       CStr '''' # CStr ''RSS'' # map (\<lambda>n. if Py3 = Py2 then CInt (n div 1024) else CFloat (FFin (of_int n / 1024))) [2048],
       CStr ''Insert'' # CStr ''Avg Latency'' # map CFloat [FFin 7] @ replicate (length [2048 :: int] - length [FFin 7]) (CStr '''')]))
    \<and> process_spfresh Py3 [''l'' \<mapsto> sample_spann_log] ''l'' = process_spann Py3 [''l'' \<mapsto> sample_spann_log] ''l''"
proof (rule process_spann_table [where c = sample_spann_log and es = sample_spann_entries])
  show "\<forall>n\<in>set [2048]. \<bar>n :: int\<bar> \<le> 2 ^ 53" by simp
qed (rule sample_spann_lines sample_spann_wf refl | simp add: sample_spann_entries_def)+

definition cut_spann_log :: "bool \<Rightarrow> byte list" where
  "cut_spann_log latency = as_bytes (''x Samppling'' @ [nl] @ ''a b c d e f g AvgQPS: 8.'' @ [nl] @
     (if latency then ''Total Latency'' @ [nl] @ ''avg'' @ [nl] else ''''))"

abbreviation cut_items :: "sample_item list" where
  "cut_items \<equiv> [Qps (''a b c d e f g AvgQPS: 8.'' @ [nl]) (FFin 8)]"

abbreviation cut_fs :: filesys where
  "cut_fs \<equiv> [''l'' \<mapsto> sample_spann_log, ''b'' \<mapsto> cut_spann_log False, ''t'' \<mapsto> cut_spann_log True]"

theorem process_spann_returns_witness:
  "(\<exists>r. process_spann Py3 cut_fs ''l'' = Some r) \<and> process_spann Py3 cut_fs ''b'' = None \<and>
   process_spann Py3 cut_fs ''t'' = Some (Inl IndexError)"
proof (intro conjI)
  have l: "cut_fs ''l'' = Some sample_spann_log" and b: "cut_fs ''b'' = Some (cut_spann_log False)"
    and t: "cut_fs ''t'' = Some (cut_spann_log True)" by simp_all
  have s: "answered is_sampling_line ends_sample (lines_of (as_text sample_spann_log))" unfolding sample_spann_lines by code_simp
  have "answered is_insert_latency_line (\<lambda>g. 1 < length g \<and> (case float_at g 1 of Inr x \<Rightarrow> True | _ \<Rightarrow> False)) (lines_of (as_text sample_spann_log))"
    unfolding sample_spann_lines by code_simp
  moreover have "has_value = (\<lambda>g. 1 < length g \<and> (case float_at g 1 of Inr x \<Rightarrow> True | _ \<Rightarrow> False))"
    by (auto simp: has_value_def fun_eq_iff split: sum.splits)
  ultimately have i: "answered is_insert_latency_line has_value (lines_of (as_text sample_spann_log))" by simp
  show "\<exists>r. process_spann Py3 cut_fs ''l'' = Some r"
    using process_spann_returns [where fs = cut_fs, OF l] s i by blast
  have lines: "lines_of (as_text (cut_spann_log False)) = concat (map spann_lines []) @ (''x Samppling'' @ [nl]) # map item_line cut_items @ []"
    "lines_of (as_text (cut_spann_log True)) =
      concat (map spann_lines []) @ (''x Samppling'' @ [nl]) # map item_line cut_items @ [''Total Latency'' @ [nl], ''avg'' @ [nl]]"
    by code_simp+
  have wf: "\<forall>e\<in>set []. wf_spann e" "is_sampling_line (split_ws (''x Samppling'' @ [nl]))" "\<forall>i\<in>set cut_items. wf_item i"
    "ends_sample (split_ws (''Total Latency'' @ [nl]))" by code_simp+
  show "process_spann Py3 cut_fs ''b'' = None"
    using process_spann_returns [where fs = cut_fs and es = "[]" and m = "''x Samppling'' @ [nl]" and items = cut_items and short = "[]", OF b] lines(1) wf(1-3) by blast
  show "process_spann Py3 cut_fs ''t'' = Some (Inl IndexError)"
    using process_spann_returns [where fs = cut_fs and es = "[]" and m = "''x Samppling'' @ [nl]" and items = cut_items
        and short = "[''Total Latency'' @ [nl], ''avg'' @ [nl]]" and ver = Py3, OF t] lines(2) wf by simp
qed

end
