(* ===== verification/Ae_Diskann.thy ===== *)
theory Ae_Diskann
  imports Ae_Spann
begin

text \<open>
  \<open>Figure6/process_diskann.py\<close>: the log of DiskANN is cut into batches where the number of processed
  queries decreases, four points of each batch are sampled, and insert throughputs are turned into
  latencies. The index of a sample is computed with \<open>/\<close>, which makes it a float in Python 3.
\<close>

record diskann_log = log +
  dk_avg :: "pyfloat list"
  dk_tail :: "pyfloat list"
  dk_throughput :: "pyfloat list"
  dk_rss :: "cell list"
  dk_insert :: "pyfloat list"
  dk_avg_batch :: "string list"
  dk_tail_batch :: "string list"
  dk_throughput_batch :: "string list"
  dk_rss_batch :: "cell list"
  dk_last :: int
  dk_memory :: cell
  dk_pre :: "string list option"

section \<open>Sampling a batch\<close>

text \<open>\<open>0+i*duration\<close> with \<open>duration = int(batch_len) / 4\<close>: a float cannot index a list.\<close>

definition point_index :: "pyver \<Rightarrow> nat \<Rightarrow> int \<Rightarrow> int result" where
  "point_index ver batch_len i = (case ver of Py2 \<Rightarrow> Inr (i * (int batch_len div 4)) | Py3 \<Rightarrow> Inl TypeError)"

text \<open>Division of a number by a positive integer constant: \<open>memory\<close> is the integer 0 until a line sets it.\<close>

fun div_const :: "pyver \<Rightarrow> cell \<Rightarrow> int \<Rightarrow> cell result" where
  "div_const ver (CInt n) k = (case ver of Py2 \<Rightarrow> Inr (CInt (n div k)) | Py3 \<Rightarrow> bindE (int_truediv n k) (\<lambda>x. Inr (CFloat x)))"
| "div_const ver (CFloat x) k = bindE (fdiv x (FFin (of_int k))) (\<lambda>y. Inr (CFloat y))"
| "div_const ver (CStr s) k = Inl TypeError"

definition sample_point :: "pyver \<Rightarrow> nat \<Rightarrow> int \<Rightarrow> (diskann_log, unit) act" where
  "sample_point ver batch_len i =
     bindA (liftE (point_index ver batch_len i)) (\<lambda>j. bindA (getsA (\<lambda>s. s)) (\<lambda>s.
     bindA (liftE (bindE (py_get (dk_avg_batch s) j) py_float)) (\<lambda>x.
     bindA (modifyA (\<lambda>s. s\<lparr>dk_avg := dk_avg s @ [x]\<rparr>)) (\<lambda>_.
     bindA (liftE (bindE (py_get (dk_tail_batch s) j) py_float)) (\<lambda>y.
     bindA (modifyA (\<lambda>s. s\<lparr>dk_tail := dk_tail s @ [y]\<rparr>)) (\<lambda>_.
     bindA (liftE (bindE (py_get (dk_throughput_batch s) j) py_float)) (\<lambda>z.
     bindA (modifyA (\<lambda>s. s\<lparr>dk_throughput := dk_throughput s @ [z]\<rparr>)) (\<lambda>_.
     bindA (liftE (bindE (py_get (dk_rss_batch s) j) (\<lambda>m. bindE (div_const ver m 1024) (\<lambda>m'. div_const ver m' 1024)))) (\<lambda>m.
     modifyA (\<lambda>s. s\<lparr>dk_rss := dk_rss s @ [m]\<rparr>))))))))))"

definition sample_batch :: "pyver \<Rightarrow> (diskann_log, unit) act" where
  "sample_batch ver = bindA (getsA (\<lambda>s. length (dk_avg_batch s))) (\<lambda>batch_len.
     forA [0, 1, 2, 3] (sample_point ver batch_len))"

definition reset_batch :: "(diskann_log, unit) act" where
  "reset_batch = modifyA (\<lambda>s. s\<lparr>dk_avg_batch := [], dk_tail_batch := [], dk_throughput_batch := [], dk_rss_batch := []\<rparr>)"

section \<open>Lines\<close>

definition pre_word :: "nat \<Rightarrow> (diskann_log, string) act" where
  "pre_word i = bindA (getsA dk_pre) (\<lambda>p.
     case p of None \<Rightarrow> raiseA NameError | Some g \<Rightarrow> liftE (py_get g (int i)))"

definition queries_line :: "pyver \<Rightarrow> string list \<Rightarrow> (diskann_log, unit) act" where
  "queries_line ver g =
     bindA (liftE (int_at g 2)) (\<lambda>n. bindA (getsA dk_last) (\<lambda>last_process.
     seqA (whenA (n < last_process) (seqA (sample_batch ver) reset_batch))
    (bindA (pre_word 2) (\<lambda>a. seqA (modifyA (\<lambda>s. s\<lparr>dk_avg_batch := dk_avg_batch s @ [a]\<rparr>))
    (bindA (pre_word 7) (\<lambda>t. seqA (modifyA (\<lambda>s. s\<lparr>dk_tail_batch := dk_tail_batch s @ [t]\<rparr>))
    (bindA (pre_word 1) (\<lambda>q. seqA (modifyA (\<lambda>s. s\<lparr>dk_throughput_batch := dk_throughput_batch s @ [q]\<rparr>))
    (modifyA (\<lambda>s. s\<lparr>dk_rss_batch := dk_rss_batch s @ [dk_memory s], dk_last := n\<rparr>))))))))))"

text \<open>\<open>strip('s')\<close>, and \<open>int(a) / float(b) / number_thread\<close>.\<close>

definition strip_ch :: "char \<Rightarrow> string \<Rightarrow> string" where
  "strip_ch c s = rstrip_ch c (dropWhile (\<lambda>x. x = c) s)"

definition insert_rate :: "string list \<Rightarrow> pyfloat result" where
  "insert_rate g = bindE (int_at g 1) (\<lambda>n. bindE (bindE (py_get g 4) (\<lambda>w. py_float (strip_ch (CHR ''s'') w))) (\<lambda>d.
     bindE (float_of_int n) (\<lambda>x. bindE (fdiv x d) (\<lambda>y. fdiv y (FFin 3)))))"

definition diskann_body :: "pyver \<Rightarrow> (diskann_log, bool) act" where
  "diskann_body ver = catchA
     (bindA readline (\<lambda>l.
        if l = '''' then ret False
        else bindA regroup (\<lambda>g. bindA (liftE (py_get g 0)) (\<lambda>w.
          seqA (whenA (w = ''memory'') (bindA (liftE (float_at g 6)) (\<lambda>x. modifyA (\<lambda>s. s\<lparr>dk_memory := CFloat x\<rparr>))))
         (if w \<noteq> ''Queries'' \<and> w \<noteq> ''Inserted'' then
            seqA (modifyA (\<lambda>s. s\<lparr>dk_pre := Some g\<rparr>)) (ret True)
          else
            seqA (whenA (w = ''Queries'') (queries_line ver g))
           (seqA (whenA (w = ''Inserted'') (bindA (liftE (insert_rate g)) (\<lambda>x. modifyA (\<lambda>s. s\<lparr>dk_insert := dk_insert s @ [x]\<rparr>))))
           (ret True)))))))
     {AttributeError} (\<lambda>_. ret False)"

section \<open>The script\<close>

definition diskann_start :: diskann_log where
  "diskann_start = \<lparr>lg_lines = [], lg_line = '''', lg_group = [], lg_count = 0, dk_avg = [], dk_tail = [], dk_throughput = [],
     dk_rss = [], dk_insert = [], dk_avg_batch = [], dk_tail_batch = [], dk_throughput_batch = [], dk_rss_batch = [],
     dk_last = 0, dk_memory = CInt 0, dk_pre = None\<rparr>"

definition diskann_table :: "diskann_log \<Rightarrow> table result" where
  "diskann_table s =
     bindE (mapE (\<lambda>x. bindE (fdiv (FFin 1000000) x) (\<lambda>y. Inr (CFloat y))) (dk_insert s)) (\<lambda>ins.
       Inr (zip_columns
         [CStr ''Search'' # CStr ''Avg Latency'' # map CFloat (dk_avg s),
          CStr '' '' # CStr ''Tail Latency'' # map CFloat (dk_tail s),
          CStr '''' # CStr ''Throughput'' # map CFloat (dk_throughput s),
          CStr '''' # CStr ''RSS'' # dk_rss s,
          CStr ''Insert'' # CStr ''Avg Latency'' # ins @ replicate (length (dk_rss s) - length (dk_insert s)) (CStr '''')]))"

definition diskann_run :: "pyver \<Rightarrow> filesys \<Rightarrow> string \<Rightarrow> (diskann_log, unit) act" where
  "diskann_run ver fs argv1 = seqA (open_log fs argv1) (seqA (loopA (diskann_body ver)) (sample_batch ver))"

definition process_diskann :: "pyver \<Rightarrow> filesys \<Rightarrow> string \<Rightarrow> table result option" where
  "process_diskann ver fs argv1 =
     (case diskann_run ver fs argv1 diskann_start of
        None \<Rightarrow> None | Some (s, Inl e) \<Rightarrow> Some (Inl e) | Some (s, Inr _) \<Rightarrow> Some (diskann_table s))"

section \<open>Returning, and Python 3\<close>

text \<open>Actions that return and read no line.\<close>

definition steady :: "('d log_scheme, 'a) act \<Rightarrow> bool" where
  "steady m \<longleftrightarrow> (\<forall>s. \<exists>s' r. m s = Some (s', r) \<and> lg_lines s' = lg_lines s)"

lemma steady_bind:
  assumes "steady m" and "\<And>x. steady (f x)"
  shows "steady (bindA m f)"
  unfolding steady_def
proof
  fix s
  from assms(1) obtain s1 r1 where m: "m s = Some (s1, r1)" "lg_lines s1 = lg_lines s" unfolding steady_def by blast
  show "\<exists>s' r. bindA m f s = Some (s', r) \<and> lg_lines s' = lg_lines s"
  proof (cases r1)
    case (Inl e)
    with m show ?thesis by (simp add: bindA_def)
  next
    case (Inr x)
    from assms(2) [of x] obtain s2 r2 where "f x s1 = Some (s2, r2)" "lg_lines s2 = lg_lines s1" unfolding steady_def by blast
    with m Inr show ?thesis by (simp add: bindA_def)
  qed
qed

lemma steady_seq: "steady m \<Longrightarrow> steady n \<Longrightarrow> steady (seqA m n)"
  by (simp add: seqA_def steady_bind)

lemma steady_base:
  "steady (liftE r)" "steady (getsA f)" "steady (ret x)" "steady (raiseA e)"
  "steady m \<Longrightarrow> steady (whenA b m)"
  by (auto simp: steady_def whenA_def)

lemma steady_modify: "(\<And>s. lg_lines (f s) = lg_lines s) \<Longrightarrow> steady (modifyA f)"
  by (simp add: steady_def)

lemma steady_for: "(\<And>x. steady (f x)) \<Longrightarrow> steady (forA xs f)"
  by (induction xs) (simp_all add: steady_seq steady_base)

lemmas steady_intros = steady_bind steady_seq steady_base steady_modify steady_for

lemma steady_sample_batch: "steady (sample_batch ver)"
  unfolding sample_batch_def sample_point_def by (intro steady_intros) simp_all

lemma steady_pre_word: "steady (pre_word i)"
  unfolding pre_word_def by (intro steady_intros) (auto simp: steady_intros split: option.splits)

lemma steady_queries_line: "steady (queries_line ver g)"
  unfolding queries_line_def reset_batch_def by (intro steady_intros steady_sample_batch steady_pre_word) simp_all

definition diskann_line :: "pyver \<Rightarrow> string list \<Rightarrow> (diskann_log, bool) act" where
  "diskann_line ver g = bindA (liftE (py_get g 0)) (\<lambda>w.
     seqA (whenA (w = ''memory'') (bindA (liftE (float_at g 6)) (\<lambda>x. modifyA (\<lambda>s. s\<lparr>dk_memory := CFloat x\<rparr>))))
    (if w \<noteq> ''Queries'' \<and> w \<noteq> ''Inserted'' then
       seqA (modifyA (\<lambda>s. s\<lparr>dk_pre := Some g\<rparr>)) (ret True)
     else
       seqA (whenA (w = ''Queries'') (queries_line ver g))
      (seqA (whenA (w = ''Inserted'') (bindA (liftE (insert_rate g)) (\<lambda>x. modifyA (\<lambda>s. s\<lparr>dk_insert := dk_insert s @ [x]\<rparr>))))
      (ret True))))"

lemma steady_diskann_line: "steady (diskann_line ver g)"
  unfolding diskann_line_def by (intro steady_intros) (auto intro!: steady_intros steady_queries_line)

lemma diskann_body_run:
  "diskann_body ver s = (case lg_lines s of
     [] \<Rightarrow> Some (s\<lparr>lg_line := '''', lg_count := Suc (lg_count s)\<rparr>, Inr False)
   | l # ls \<Rightarrow>
       if l = '''' then Some (s\<lparr>lg_lines := ls, lg_line := l, lg_count := Suc (lg_count s)\<rparr>, Inr False)
       else catchA (diskann_line ver (split_ws l)) {AttributeError} (\<lambda>_. ret False)
         (s\<lparr>lg_lines := ls, lg_line := l, lg_count := Suc (lg_count s), lg_group := split_ws l\<rparr>))"
  by (cases "lg_lines s") (simp_all add: diskann_body_def diskann_line_def catchA_def bindA_def)

lemma diskann_round:
  "\<exists>s' r. diskann_body ver s = Some (s', r) \<and> (r = Inr True \<longrightarrow> length (lg_lines s') < length (lg_lines s))"
proof (cases "lg_lines s")
  case Nil
  then show ?thesis by (simp add: diskann_body_run)
next
  case (Cons l ls)
  define t where "t = s\<lparr>lg_lines := ls, lg_line := l, lg_count := Suc (lg_count s), lg_group := split_ws l\<rparr>"
  from steady_diskann_line [of ver "split_ws l"] obtain s' r where
    "diskann_line ver (split_ws l) t = Some (s', r)" "lg_lines s' = ls" unfolding steady_def t_def by fastforce
  with Cons show ?thesis by (cases r) (auto simp: diskann_body_run catchA_def simp flip: t_def)
qed

interpretation diskann: log_loop "diskann_body ver" "\<lambda>s. length (lg_lines s)" for ver
  by unfold_locales (rule diskann_round)

lemma diskann_run_returns: "\<exists>s' r. diskann_run ver fs a s = Some (s', r)"
  using steady_sample_batch [of ver]
  by (auto simp: diskann_run_def steady_def intro!: bindA_returns open_log_returns diskann.loop_returns) (meson)

lemma sample_batch_Py3: "\<exists>s'. sample_batch Py3 s = Some (s', Inl TypeError)"
  by (simp add: sample_batch_def sample_point_def point_index_def bindA_def)

text \<open>C23: \<open>process_diskann.py\<close> returns for every log, and under Python 3 it never writes its table: whatever the
  log holds, the run ends with an exception, since the index of a sampled point is a float.\<close>

theorem process_diskann_Py3:
  "(\<exists>r. process_diskann ver fs argv1 = Some r) \<and> (\<exists>e. process_diskann Py3 fs argv1 = Some (Inl e))"
proof
  from diskann_run_returns [of ver fs argv1 diskann_start] show "\<exists>r. process_diskann ver fs argv1 = Some r"
    by (auto simp: process_diskann_def split: sum.splits)
next
  from diskann_run_returns [of Py3 fs argv1 diskann_start] obtain s r where run: "diskann_run Py3 fs argv1 diskann_start = Some (s, r)" by blast
  have "r \<noteq> Inr u" for u
  proof
    assume "r = Inr u"
    with run obtain s1 where "sample_batch Py3 s1 = Some (s, Inr u)" by (auto simp: diskann_run_def elim!: bindA_Inr)
    with sample_batch_Py3 [of s1] show False by simp
  qed
  with run show "\<exists>e. process_diskann Py3 fs argv1 = Some (Inl e)" by (cases r) (auto simp: process_diskann_def)
qed

section \<open>Python 2: runs of queries and their sampled points\<close>

type_synonym point4 = "pyfloat \<times> pyfloat \<times> pyfloat \<times> cell"

abbreviation pt_avg :: "point4 \<Rightarrow> pyfloat" where "pt_avg p \<equiv> fst p"
abbreviation pt_tail :: "point4 \<Rightarrow> pyfloat" where "pt_tail p \<equiv> fst (snd p)"
abbreviation pt_qps :: "point4 \<Rightarrow> pyfloat" where "pt_qps p \<equiv> fst (snd (snd p))"
abbreviation pt_mem :: "point4 \<Rightarrow> cell" where "pt_mem p \<equiv> snd (snd (snd p))"

definition quarter_points :: "'a list \<Rightarrow> 'a list" where
  "quarter_points b = map (\<lambda>i. b ! (i * (length b div 4))) [0, 1, 2, 3]"

text \<open>The queries of a log, each with its count, cut where the count decreases.\<close>

fun split_runs :: "int \<Rightarrow> 'a list \<Rightarrow> (int \<times> 'a) list \<Rightarrow> 'a list list" where
  "split_runs c0 cur [] = [cur]"
| "split_runs c0 cur ((c, v) # qs) = (if c < c0 then cur # split_runs c [v] qs else split_runs c (cur @ [v]) qs)"

datatype diskann_entry =
    Mem_Line string pyfloat
  | Pre_Line string
  | Query_Lines string string int pyfloat pyfloat pyfloat
  | Inserted_Line string pyfloat

fun diskann_lines :: "diskann_entry \<Rightarrow> string list" where
  "diskann_lines (Mem_Line l x) = [l]"
| "diskann_lines (Pre_Line l) = [l]"
| "diskann_lines (Query_Lines p q c a t r) = [p, q]"
| "diskann_lines (Inserted_Line l x) = [l]"

definition pre_line :: "string list \<Rightarrow> bool" where
  "pre_line g \<longleftrightarrow> g \<noteq> [] \<and> g ! 0 \<noteq> ''memory'' \<and> g ! 0 \<noteq> ''Queries'' \<and> g ! 0 \<noteq> ''Inserted''"

fun wf_diskann :: "diskann_entry \<Rightarrow> bool" where
  "wf_diskann (Mem_Line l x) \<longleftrightarrow> word_is (split_ws l) 0 ''memory'' \<and> float_at (split_ws l) 6 = Inr x"
| "wf_diskann (Pre_Line l) \<longleftrightarrow> pre_line (split_ws l)"
| "wf_diskann (Query_Lines p q c a t r) \<longleftrightarrow> pre_line (split_ws p) \<and> 7 < length (split_ws p) \<and>
     py_float (split_ws p ! 2) = Inr a \<and> py_float (split_ws p ! 7) = Inr t \<and> py_float (split_ws p ! 1) = Inr r \<and>
     word_is (split_ws q) 0 ''Queries'' \<and> int_at (split_ws q) 2 = Inr c \<and> 0 \<le> c"
| "wf_diskann (Inserted_Line l x) \<longleftrightarrow> word_is (split_ws l) 0 ''Inserted'' \<and> insert_rate (split_ws l) = Inr x"

fun queries :: "cell \<Rightarrow> diskann_entry list \<Rightarrow> (int \<times> point4) list" where
  "queries m [] = []"
| "queries m (Mem_Line l x # es) = queries (CFloat x) es"
| "queries m (Query_Lines p q c a t r # es) = (c, (a, t, r, m)) # queries m es"
| "queries m (_ # es) = queries m es"

fun entry_rate :: "diskann_entry \<Rightarrow> pyfloat list" where
  "entry_rate (Inserted_Line l x) = [x]"
| "entry_rate _ = []"

fun mem_mb :: "cell \<Rightarrow> cell" where
  "mem_mb (CInt n) = CInt (n div 1024 div 1024)"
| "mem_mb (CFloat x) = CFloat (ieee_div (ieee_div x (FFin 1024)) (FFin 1024))"
| "mem_mb c = c"

definition is_number :: "cell \<Rightarrow> bool" where
  "is_number c \<longleftrightarrow> (case c of CStr _ \<Rightarrow> False | _ \<Rightarrow> True)"

lemma div_const_mb:
  assumes "is_number c"
  shows "bindE (div_const Py2 c 1024) (\<lambda>m. div_const Py2 m 1024) = Inr (mem_mb c)"
  using assms by (cases c) (simp_all add: is_number_def)

definition batch_of :: "diskann_log \<Rightarrow> point4 list \<Rightarrow> bool" where
  "batch_of s cur \<longleftrightarrow> map py_float (dk_avg_batch s) = map (Inr \<circ> pt_avg) cur \<and> map py_float (dk_tail_batch s) = map (Inr \<circ> pt_tail) cur \<and>
     map py_float (dk_throughput_batch s) = map (Inr \<circ> pt_qps) cur \<and> dk_rss_batch s = map pt_mem cur \<and> (\<forall>p\<in>set cur. is_number (pt_mem p))"

lemma map_eq_nth:
  assumes "map f xs = map g ys" and "j < length ys"
  shows "j < length xs" and "f (xs ! j) = g (ys ! j)"
proof -
  have "length xs = length ys" using assms(1) map_eq_imp_length_eq by blast
  with assms show "j < length xs" by simp
  with assms show "f (xs ! j) = g (ys ! j)" by (metis nth_map)
qed

lemma sample_point_run:
  assumes "batch_of s cur" and "j = i * (length cur div 4)" and "j < length cur"
  shows "sample_point Py2 (length cur) (int i) s = Some (s\<lparr>dk_avg := dk_avg s @ [pt_avg (cur ! j)], dk_tail := dk_tail s @ [pt_tail (cur ! j)],
    dk_throughput := dk_throughput s @ [pt_qps (cur ! j)], dk_rss := dk_rss s @ [mem_mb (pt_mem (cur ! j))]\<rparr>, Inr ())"
proof -
  have idx: "point_index Py2 (length cur) (int i) = Inr (int j)" using assms(2) by (simp add: point_index_def zdiv_int)
  note b = assms(1) [unfolded batch_of_def]
  have "is_number (pt_mem (cur ! j))" using b assms(3) by simp
  from div_const_mb [OF this] show ?thesis
    using b map_eq_nth [of py_float "dk_avg_batch s" "Inr \<circ> pt_avg" cur j] map_eq_nth [of py_float "dk_tail_batch s" "Inr \<circ> pt_tail" cur j]
      map_eq_nth [of py_float "dk_throughput_batch s" "Inr \<circ> pt_qps" cur j] assms(3)
    by (simp add: sample_point_def idx bindA_def del: div_const.simps)
qed

lemma quarter_bound: "cur \<noteq> [] \<Longrightarrow> i < 4 \<Longrightarrow> i * (length cur div 4) < length cur"
proof -
  assume "cur \<noteq> []" and i: "i < 4"
  have "i * (length cur div 4) \<le> 3 * (length cur div 4)" using i by (intro mult_right_mono) auto
  also have "\<dots> < length cur" using \<open>cur \<noteq> []\<close> by (cases "length cur div 4 = 0") auto
  finally show ?thesis .
qed

lemma sample_batch_run:
  assumes "batch_of s cur" and "cur \<noteq> []"
  shows "sample_batch Py2 s = Some (s\<lparr>dk_avg := dk_avg s @ map pt_avg (quarter_points cur), dk_tail := dk_tail s @ map pt_tail (quarter_points cur),
    dk_throughput := dk_throughput s @ map pt_qps (quarter_points cur), dk_rss := dk_rss s @ map (mem_mb \<circ> pt_mem) (quarter_points cur)\<rparr>, Inr ())"
proof -
  have len: "length (dk_avg_batch s) = length cur" using assms(1) map_eq_imp_length_eq by (auto simp: batch_of_def)
  have step: "sample_point Py2 (length cur) (int i) t = Some (t\<lparr>dk_avg := dk_avg t @ [pt_avg (cur ! (i * (length cur div 4)))],
      dk_tail := dk_tail t @ [pt_tail (cur ! (i * (length cur div 4)))], dk_throughput := dk_throughput t @ [pt_qps (cur ! (i * (length cur div 4)))],
      dk_rss := dk_rss t @ [mem_mb (pt_mem (cur ! (i * (length cur div 4))))]\<rparr>, Inr ())"
    if "batch_of t cur" "i < 4" for t i
    using sample_point_run [OF that(1) refl] quarter_bound [OF assms(2) that(2)] by blast
  note steps = step [of _ 0, simplified] step [of _ 1, simplified] step [of _ 2, simplified] step [of _ 3, simplified]
  show ?thesis
    using assms(1) by (simp add: sample_batch_def len bindA_def steps batch_of_def quarter_points_def)
qed

definition outputs :: "diskann_log \<Rightarrow> point4 list \<Rightarrow> bool" where
  "outputs s pts \<longleftrightarrow> dk_avg s = map pt_avg pts \<and> dk_tail s = map pt_tail pts \<and> dk_throughput s = map pt_qps pts \<and> dk_rss s = map (mem_mb \<circ> pt_mem) pts"

text \<open>The state of the script after a part of the log: the points of the finished runs, the current run, the
  last count, the memory and the insert rates.\<close>

definition dk_state :: "diskann_log \<Rightarrow> point4 list list \<Rightarrow> point4 list \<Rightarrow> int \<Rightarrow> cell \<Rightarrow> pyfloat list \<Rightarrow> bool" where
  "dk_state s fin cur c0 m ins \<longleftrightarrow> outputs s (concat (map quarter_points fin)) \<and> batch_of s cur \<and> dk_last s = c0 \<and>
     dk_memory s = m \<and> is_number m \<and> dk_insert s = ins \<and> (cur = [] \<longrightarrow> c0 = 0)"

lemma nonblank: "word_is (split_ws l) i w \<Longrightarrow> l \<noteq> ''''" "pre_line (split_ws l) \<Longrightarrow> l \<noteq> ''''"
  by (auto simp: word_is_def pre_line_def)

lemma pre_line_round:
  assumes "pre_line (split_ws l)" and "lg_lines s = l # ls" and "dk_state s fin cur c0 m ins"
  shows "\<exists>s'. diskann_body ver s = Some (s', Inr True) \<and> lg_lines s' = ls \<and> dk_pre s' = Some (split_ws l) \<and> dk_state s' fin cur c0 m ins"
  using assms nonblank(2) [OF assms(1)]
  by (auto simp: diskann_body_run diskann_line_def catchA_def bindA_def pre_line_def dk_state_def outputs_def batch_of_def)

lemma mem_line_round:
  assumes "wf_diskann (Mem_Line l x)" and "lg_lines s = l # ls" and "dk_state s fin cur c0 m ins"
  shows "\<exists>s'. diskann_body ver s = Some (s', Inr True) \<and> lg_lines s' = ls \<and> dk_state s' fin cur c0 (CFloat x) ins"
  using assms nonblank(1) [of l 0 "''memory''"]
  by (auto simp: diskann_body_run diskann_line_def catchA_def bindA_def word_is_def dk_state_def outputs_def batch_of_def is_number_def)

lemma inserted_line_round:
  assumes "wf_diskann (Inserted_Line l x)" and "lg_lines s = l # ls" and "dk_state s fin cur c0 m ins"
  shows "\<exists>s'. diskann_body ver s = Some (s', Inr True) \<and> lg_lines s' = ls \<and> dk_state s' fin cur c0 m (ins @ [x])"
  using assms nonblank(1) [of l 0 "''Inserted''"]
  by (auto simp: diskann_body_run diskann_line_def catchA_def bindA_def word_is_def dk_state_def outputs_def batch_of_def)

definition push_point :: "string list \<Rightarrow> cell \<Rightarrow> int \<Rightarrow> diskann_log \<Rightarrow> diskann_log" where
  "push_point g m c s = s\<lparr>dk_avg_batch := dk_avg_batch s @ [g ! 2], dk_tail_batch := dk_tail_batch s @ [g ! 7],
     dk_throughput_batch := dk_throughput_batch s @ [g ! 1], dk_rss_batch := dk_rss_batch s @ [m], dk_last := c\<rparr>"

lemma queries_line_run:
  assumes "int_at g 2 = Inr c" and "dk_pre s = Some h" and "7 < length h"
    and "if c < dk_last s then sample_batch Py2 s = Some (t, Inr ()) \<and> dk_pre t = Some h \<and> dk_memory t = dk_memory s \<and>
           u = t\<lparr>dk_avg_batch := [], dk_tail_batch := [], dk_throughput_batch := [], dk_rss_batch := []\<rparr> else u = s"
  shows "queries_line Py2 g s = Some (push_point h (dk_memory s) c u, Inr ())"
proof -
  have "dk_pre u = Some h" "dk_memory u = dk_memory s" using assms(2,4) by (auto split: if_splits)
  then show ?thesis
    using assms by (cases "c < dk_last s") (auto simp: queries_line_def bindA_def pre_word_def reset_batch_def push_point_def)
qed

lemma queries_line_round:
  assumes wf: "wf_diskann (Query_Lines p q c a t r)" and "lg_lines s = q # ls" and st: "dk_state s fin cur c0 m ins"
    and "dk_pre s = Some (split_ws p)"
  shows "\<exists>s'. diskann_body Py2 s = Some (s', Inr True) \<and> lg_lines s' = ls \<and>
    (if c < c0 then dk_state s' (fin @ [cur]) [(a, t, r, m)] c m ins else dk_state s' fin (cur @ [(a, t, r, m)]) c m ins)"
proof -
  define s1 where "s1 = s\<lparr>lg_lines := ls, lg_line := q, lg_count := Suc (lg_count s), lg_group := split_ws q\<rparr>"
  have s1: "dk_state s1 fin cur c0 m ins" "dk_pre s1 = Some (split_ws p)" "lg_lines s1 = ls"
    using st assms(4) by (auto simp: dk_state_def s1_def batch_of_def outputs_def)
  define s2 where "s2 = s1\<lparr>dk_avg := dk_avg s1 @ map pt_avg (quarter_points cur), dk_tail := dk_tail s1 @ map pt_tail (quarter_points cur),
    dk_throughput := dk_throughput s1 @ map pt_qps (quarter_points cur), dk_rss := dk_rss s1 @ map (mem_mb \<circ> pt_mem) (quarter_points cur)\<rparr>"
  define u where "u = (if c < c0 then s2\<lparr>dk_avg_batch := [], dk_tail_batch := [], dk_throughput_batch := [], dk_rss_batch := []\<rparr> else s1)"
  have "cur \<noteq> []" if "c < c0" using that s1(1) wf by (auto simp: dk_state_def)
  then have sample: "sample_batch Py2 s1 = Some (s2, Inr ())" if "c < c0"
    using that s1(1) sample_batch_run [of s1 cur] by (simp add: dk_state_def s2_def)
  have "queries_line Py2 (split_ws q) s1 = Some (push_point (split_ws p) (dk_memory s1) c u, Inr ())"
    by (rule queries_line_run [where t = s2]) (use wf s1 sample in \<open>auto simp: u_def s2_def dk_state_def\<close>)
  moreover have "dk_memory s1 = m" using s1(1) by (simp add: dk_state_def)
  moreover have "word_is (split_ws q) 0 ''Queries''" "q \<noteq> ''''" using wf nonblank(1) by auto
  ultimately have "diskann_body Py2 s = Some (push_point (split_ws p) m c u, Inr True)"
    using assms(2) by (simp add: diskann_body_run diskann_line_def catchA_def bindA_def word_is_def flip: s1_def)
  moreover have "lg_lines (push_point (split_ws p) m c u) = ls" using s1(3) by (simp add: push_point_def u_def s2_def)
  moreover have "if c < c0 then dk_state (push_point (split_ws p) m c u) (fin @ [cur]) [(a, t, r, m)] c m ins
      else dk_state (push_point (split_ws p) m c u) fin (cur @ [(a, t, r, m)]) c m ins"
    using s1(1) wf by (auto simp: dk_state_def push_point_def u_def s2_def outputs_def batch_of_def)
  ultimately show ?thesis by blast
qed

lemma diskann_entries:
  assumes "\<forall>e\<in>set es. wf_diskann e" and "lg_lines s = concat (map diskann_lines es)" and "dk_state s fin cur c0 m ins"
  shows "\<exists>s' fin' cur' c' m'. loopA (diskann_body Py2) s = Some (s', Inr ()) \<and>
    dk_state s' fin' cur' c' m' (ins @ concat (map entry_rate es)) \<and> fin' @ [cur'] = fin @ split_runs c0 cur (queries m es)"
  using assms
proof (induction es arbitrary: s fin cur c0 m ins)
  case Nil
  let ?t = "s\<lparr>lg_line := '''', lg_count := Suc (lg_count s)\<rparr>"
  have b: "diskann_body Py2 s = Some (?t, Inr False)" using Nil by (simp add: diskann_body_run)
  have "dk_state ?t fin cur c0 m ins" using Nil by (simp add: dk_state_def outputs_def batch_of_def)
  then show ?case by (auto simp: loopA_unfold [of "diskann_body Py2", OF b])
next
  case (Cons e es)
  let ?rest = "concat (map diskann_lines es)"
  have step: ?case
    if b: "loopA (diskann_body Py2) s = loopA (diskann_body Py2) s1" and "lg_lines s1 = ?rest" and st: "dk_state s1 fin1 cur1 c1 m1 ins1"
      and eq: "ins1 = ins @ entry_rate e" "fin1 @ split_runs c1 cur1 (queries m1 es) = fin @ split_runs c0 cur (queries m (e # es))"
    for s1 fin1 cur1 c1 m1 ins1
    using Cons.IH [OF _ that(2) st] Cons.prems(1) eq b by auto
  show ?case
  proof (cases e)
    case (Mem_Line l x)
    with Cons.prems mem_line_round [of l x s ?rest fin cur c0 m ins Py2] obtain s1 where
      b: "diskann_body Py2 s = Some (s1, Inr True)" and "lg_lines s1 = ?rest" "dk_state s1 fin cur c0 (CFloat x) ins" by auto
    from step [OF _ this(2,3)] Mem_Line show ?thesis by (simp add: loopA_unfold [of "diskann_body Py2", OF b])
  next
    case (Pre_Line l)
    with Cons.prems pre_line_round [of l s ?rest fin cur c0 m ins Py2] obtain s1 where
      b: "diskann_body Py2 s = Some (s1, Inr True)" and "lg_lines s1 = ?rest" "dk_state s1 fin cur c0 m ins" by auto
    from step [OF _ this(2,3)] Pre_Line show ?thesis by (simp add: loopA_unfold [of "diskann_body Py2", OF b])
  next
    case (Query_Lines p q c a t r)
    with Cons.prems pre_line_round [of p s "q # ?rest" fin cur c0 m ins Py2] obtain s0 where
      b0: "diskann_body Py2 s = Some (s0, Inr True)" and s0: "lg_lines s0 = q # ?rest" "dk_pre s0 = Some (split_ws p)" "dk_state s0 fin cur c0 m ins" by auto
    have wf: "wf_diskann (Query_Lines p q c a t r)" using Query_Lines Cons.prems(1) by simp
    from queries_line_round [OF wf s0(1,3,2)] obtain s1 where b1: "diskann_body Py2 s0 = Some (s1, Inr True)" and s1: "lg_lines s1 = ?rest"
      "if c < c0 then dk_state s1 (fin @ [cur]) [(a, t, r, m)] c m ins else dk_state s1 fin (cur @ [(a, t, r, m)]) c m ins" by blast
    have l: "loopA (diskann_body Py2) s = loopA (diskann_body Py2) s1"
      by (simp add: loopA_unfold [of "diskann_body Py2", OF b0] loopA_unfold [of "diskann_body Py2", OF b1])
    show ?thesis
    proof (cases "c < c0")
      case True
      with s1(2) have "dk_state s1 (fin @ [cur]) [(a, t, r, m)] c m ins" by simp
      from step [OF l s1(1) this] True Query_Lines show ?thesis by simp
    next
      case False
      with s1(2) have "dk_state s1 fin (cur @ [(a, t, r, m)]) c m ins" by simp
      from step [OF l s1(1) this] False Query_Lines show ?thesis by simp
    qed
  next
    case (Inserted_Line l x)
    with Cons.prems inserted_line_round [of l x s ?rest fin cur c0 m ins Py2] obtain s1 where
      b: "diskann_body Py2 s = Some (s1, Inr True)" and "lg_lines s1 = ?rest" "dk_state s1 fin cur c0 m (ins @ [x])" by auto
    from step [OF _ this(2,3)] Inserted_Line show ?thesis by (simp add: loopA_unfold [of "diskann_body Py2", OF b])
  qed
qed

lemma split_runs_not_Nil [simp]: "split_runs c0 cur qs \<noteq> []"
  by (induction c0 cur qs rule: split_runs.induct) auto

lemma split_runs_last: "qs \<noteq> [] \<or> cur \<noteq> [] \<Longrightarrow> last (split_runs c0 cur qs) \<noteq> []"
  by (induction c0 cur qs rule: split_runs.induct) auto

lemma fdiv_nonzero: "x \<noteq> FFin 0 \<Longrightarrow> fdiv y x = Inr (ieee_div y x)"
  by (cases x) auto

text \<open>C22: the table of \<open>process_diskann.py\<close> under Python 2. For a log of memory lines, statistics lines each followed
  by its \<open>Queries\<close> line, insert lines and other lines, the runs of queries are cut where the count
  decreases, and the columns hold of every run the values at positions 0, d, 2d and 3d, for d a
  quarter of its length rounded down, with the memory in force divided by 1024 twice; the last column
  holds a million over each insert rate. A log with no query raises IndexError.\<close>

theorem process_diskann_table:
  assumes "fs argv1 = Some c" and "lines_of (as_text c) = concat (map diskann_lines es)" and "\<forall>e\<in>set es. wf_diskann e"
    and "qs = queries (CInt 0) es" and "pts = concat (map quarter_points (split_runs 0 [] qs))"
    and "rates = concat (map entry_rate es)" and "\<forall>x\<in>set rates. x \<noteq> FFin 0"
  shows "process_diskann Py2 fs argv1 = Some (if qs = [] then Inl IndexError else Inr (zip_columns
      [CStr ''Search'' # CStr ''Avg Latency'' # map (\<lambda>p. CFloat (fst p)) pts,
       CStr '' '' # CStr ''Tail Latency'' # map (\<lambda>p. CFloat (fst (snd p))) pts,
       CStr '''' # CStr ''Throughput'' # map (\<lambda>p. CFloat (fst (snd (snd p)))) pts,
       CStr '''' # CStr ''RSS'' # map (\<lambda>p. mem_mb (snd (snd (snd p)))) pts,
       CStr ''Insert'' # CStr ''Avg Latency'' # map (\<lambda>x. CFloat (ieee_div (FFin 1000000) x)) rates @
         replicate (length pts - length rates) (CStr '''')]))"
proof -
  define s0 where "s0 = diskann_start\<lparr>lg_lines := concat (map diskann_lines es)\<rparr>"
  have s0: "lg_lines s0 = concat (map diskann_lines es)" "dk_state s0 [] [] 0 (CInt 0) []"
    by (simp_all add: s0_def diskann_start_def dk_state_def outputs_def batch_of_def is_number_def)
  from diskann_entries [OF assms(3) s0] obtain s1 fin cur c1 m1 where loop: "loopA (diskann_body Py2) s0 = Some (s1, Inr ())"
    and st: "dk_state s1 fin cur c1 m1 rates" and runs: "fin @ [cur] = split_runs 0 [] qs" unfolding assms(4,6) by auto
  have run: "diskann_run Py2 fs argv1 diskann_start = sample_batch Py2 s1"
    using assms(1,2) loop by (simp add: diskann_run_def open_log_def open_file_def bindA_def flip: s0_def)
  show ?thesis
  proof (cases "qs = []")
    case True
    with runs have "cur = []" by simp
    with st have "dk_avg_batch s1 = []" by (simp add: dk_state_def batch_of_def)
    with True run show ?thesis
      by (simp add: process_diskann_def sample_batch_def sample_point_def point_index_def bindA_def)
  next
    case False
    then have "last (split_runs 0 [] qs) \<noteq> []" by (simp add: split_runs_last)
    with runs have "cur \<noteq> []" by (metis last_snoc)
    then have s: "sample_batch Py2 s1 = Some (s1\<lparr>dk_avg := dk_avg s1 @ map pt_avg (quarter_points cur), dk_tail := dk_tail s1 @ map pt_tail (quarter_points cur),
        dk_throughput := dk_throughput s1 @ map pt_qps (quarter_points cur), dk_rss := dk_rss s1 @ map (mem_mb \<circ> pt_mem) (quarter_points cur)\<rparr>, Inr ())"
      using st by (intro sample_batch_run) (auto simp: dk_state_def)
    have pts: "pts = concat (map quarter_points fin) @ quarter_points cur" using assms(5) by (simp flip: runs)
    have rate: "fdiv (FFin 1000000) x = Inr (ieee_div (FFin 1000000) x)" if "x \<in> set rates" for x
      using that assms(7) by (intro fdiv_nonzero) blast
    have "mapE (\<lambda>x. bindE (fdiv (FFin 1000000) x) (\<lambda>y. Inr (CFloat y))) rates = Inr (map (\<lambda>x. CFloat (ieee_div (FFin 1000000) x)) rates)"
      by (rule mapE_total) (simp add: rate del: fdiv.simps ieee_div.simps)
    with run s st False pts show ?thesis
      by (simp add: process_diskann_def diskann_table_def dk_state_def outputs_def comp_def del: fdiv.simps ieee_div.simps)
  qed
qed

definition sample_diskann_log :: "byte list" where
  "sample_diskann_log = as_bytes (''memory 1 2 3 4 5 0'' @ [nl] @ ''s 8 4 0 0 0 0 9'' @ [nl] @ ''Queries processed 5'' @ [nl] @
     ''s 7 6 0 0 0 0 3'' @ [nl] @ ''Queries processed 2'' @ [nl])"

theorem process_diskann_table_witness:
  "process_diskann Py2 [''l'' \<mapsto> sample_diskann_log] ''l'' = Some (Inr (zip_columns
      [CStr ''Search'' # CStr ''Avg Latency'' # map (\<lambda>p. CFloat (fst p)) (replicate 4 (FFin 4, FFin 9, FFin 8, CFloat (FFin 0)) @ replicate 4 (FFin 6, FFin 3, FFin 7, CFloat (FFin 0))),
       CStr '' '' # CStr ''Tail Latency'' # map (\<lambda>p. CFloat (fst (snd p))) (replicate 4 (FFin 4, FFin 9, FFin 8, CFloat (FFin 0)) @ replicate 4 (FFin 6, FFin 3, FFin 7, CFloat (FFin 0))),
       CStr '''' # CStr ''Throughput'' # map (\<lambda>p. CFloat (fst (snd (snd p)))) (replicate 4 (FFin 4, FFin 9, FFin 8, CFloat (FFin 0)) @ replicate 4 (FFin 6, FFin 3, FFin 7, CFloat (FFin 0))),
       CStr '''' # CStr ''RSS'' # map (\<lambda>p. mem_mb (snd (snd (snd p)))) (replicate 4 (FFin 4, FFin 9, FFin 8, CFloat (FFin 0)) @ replicate 4 (FFin 6, FFin 3, FFin 7, CFloat (FFin 0))),
       CStr ''Insert'' # CStr ''Avg Latency'' # replicate 8 (CStr '''')]))"
proof -
  let ?es = "[Mem_Line (''memory 1 2 3 4 5 0'' @ [nl]) (FFin 0), Query_Lines (''s 8 4 0 0 0 0 9'' @ [nl]) (''Queries processed 5'' @ [nl]) 5 (FFin 4) (FFin 9) (FFin 8),
    Query_Lines (''s 7 6 0 0 0 0 3'' @ [nl]) (''Queries processed 2'' @ [nl]) 2 (FFin 6) (FFin 3) (FFin 7)]"
  have c: "[''l'' \<mapsto> sample_diskann_log] ''l'' = Some sample_diskann_log" by simp
  have lines: "lines_of (as_text sample_diskann_log) = concat (map diskann_lines ?es)" and wf: "\<forall>e\<in>set ?es. wf_diskann e"
    by code_simp+
  have qs: "queries (CInt 0) ?es = [(5, FFin 4, FFin 9, FFin 8, CFloat (FFin 0)), (2, FFin 6, FFin 3, FFin 7, CFloat (FFin 0))]" by simp
  have pts: "concat (map quarter_points (split_runs 0 [] (queries (CInt 0) ?es))) =
      replicate 4 (FFin 4, FFin 9, FFin 8, CFloat (FFin 0)) @ replicate 4 (FFin 6, FFin 3, FFin 7, CFloat (FFin 0))"
    unfolding qs by code_simp
  have rates: "concat (map entry_rate ?es) = []" by simp
  have r: "\<forall>x\<in>set (concat (map entry_rate ?es)). x \<noteq> FFin 0" by simp
  from process_diskann_table [of "[''l'' \<mapsto> sample_diskann_log]" "''l''", OF c lines wf refl refl refl r] show ?thesis
    unfolding pts rates unfolding qs by simp
qed

end
