(* ===== verification/Py_Csv.thy ===== *)
theory Py_Csv
  imports Py_Str
begin

text \<open>
  Python's \<open>csv\<close> module in the dialect the scripts use (\<open>delimiter=','\<close>, double quotes, minimal quoting): the
  reader as the state machine of the library, over the characters of each line and an end-of-line
  mark, and the text the writer produces. Reading back what was written gives the rows again.
\<close>

definition cr :: char where "cr = CHR 0x0D"

abbreviation quote :: char where "quote \<equiv> CHR 0x22"

section \<open>The reader\<close>

datatype csv_state = Start_Record | Start_Field | In_Field | In_Quoted | Quote_In_Quoted | Eat_Crnl

definition csv_eol :: "char option \<Rightarrow> bool" where
  "csv_eol c \<longleftrightarrow> c = None \<or> c = Some nl \<or> c = Some cr"

definition csv_close :: "char option \<Rightarrow> csv_state" where
  "csv_close c = (if c = None then Start_Record else Eat_Crnl)"

type_synonym csv_record = "csv_state \<times> string list \<times> string"

text \<open>One character (\<open>None\<close> for the end of the line) in a state, with the fields so far and the current field.\<close>

definition csv_field_start :: "char option \<Rightarrow> string list \<Rightarrow> string \<Rightarrow> csv_record" where
  "csv_field_start c fs f =
     (if csv_eol c then (csv_close c, fs @ [f], [])
      else if c = Some quote then (In_Quoted, fs, f)
      else if c = Some (CHR '','') then (Start_Field, fs @ [f], [])
      else (In_Field, fs, f @ [the c]))"

fun csv_char :: "char option \<Rightarrow> csv_record \<Rightarrow> csv_record result" where
  "csv_char c (Start_Record, fs, f) =
     Inr (if c = None then (Start_Record, fs, f) else if csv_eol c then (Eat_Crnl, fs, f) else csv_field_start c fs f)"
| "csv_char c (Start_Field, fs, f) = Inr (csv_field_start c fs f)"
| "csv_char c (In_Field, fs, f) =
     Inr (if csv_eol c then (csv_close c, fs @ [f], [])
          else if c = Some (CHR '','') then (Start_Field, fs @ [f], [])
          else (In_Field, fs, f @ [the c]))"
| "csv_char c (In_Quoted, fs, f) =
     Inr (if c = None then (In_Quoted, fs, f)
          else if c = Some quote then (Quote_In_Quoted, fs, f)
          else (In_Quoted, fs, f @ [the c]))"
| "csv_char c (Quote_In_Quoted, fs, f) =
     Inr (if c = Some quote then (In_Quoted, fs, f @ [quote])
          else if c = Some (CHR '','') then (Start_Field, fs @ [f], [])
          else if csv_eol c then (csv_close c, fs @ [f], [])
          else (In_Field, fs, f @ [the c]))"
| "csv_char c (Eat_Crnl, fs, f) =
     (if c = Some nl \<or> c = Some cr then Inr (Eat_Crnl, fs, f)
      else if c = None then Inr (Start_Record, fs, f)
      else Inl (ThirdParty ''csv.Error''))"

definition csv_line :: "string \<Rightarrow> csv_record \<Rightarrow> csv_record result" where
  "csv_line l r = forE (map Some l @ [None]) csv_char r"

fun csv_rows :: "csv_record \<Rightarrow> string list \<Rightarrow> string list list result" where
  "csv_rows (st, fs, f) [] = Inr (if f \<noteq> [] \<or> st = In_Quoted then [fs @ [f]] else [])"
| "csv_rows r (l # ls) = bindE (csv_line l r) (\<lambda>(st, fs, f).
     if st = Start_Record then bindE (csv_rows (Start_Record, [], []) ls) (\<lambda>rows. Inr (fs # rows))
     else csv_rows (st, fs, f) ls)"

definition csv_reader :: "string list \<Rightarrow> string list list result" where
  "csv_reader ls = csv_rows (Start_Record, [], []) ls"

section \<open>The writer\<close>

definition csv_special :: "char \<Rightarrow> bool" where
  "csv_special c \<longleftrightarrow> c = CHR '','' \<or> c = quote \<or> c = nl \<or> c = cr"

fun csv_double :: "string \<Rightarrow> string" where
  "csv_double [] = []"
| "csv_double (c # s) = (if c = quote then [quote, quote] else [c]) @ csv_double s"

definition csv_field :: "bool \<Rightarrow> string \<Rightarrow> string" where
  "csv_field quote_empty s =
     (if (\<exists>c\<in>set s. csv_special c) \<or> (s = [] \<and> quote_empty) then quote # csv_double s @ [quote] else s)"

definition csv_row :: "string list \<Rightarrow> string" where
  "csv_row row = join '','' (map (csv_field (length row = 1)) row) @ [cr, nl]"

definition csv_text :: "string list list \<Rightarrow> string" where
  "csv_text rows = concat (map csv_row rows)"

section \<open>Round trip\<close>

definition one_line :: "string \<Rightarrow> bool" where
  "one_line s \<longleftrightarrow> nl \<notin> set s \<and> cr \<notin> set s"

lemma csv_consts [simp]: "nl \<noteq> cr" "quote \<noteq> nl" "quote \<noteq> cr" "CHR '','' \<noteq> nl" "CHR '','' \<noteq> cr" "nl \<noteq> quote" "cr \<noteq> quote" "cr \<noteq> nl" "nl \<noteq> CHR '',''" "cr \<noteq> CHR '',''"
  by (simp_all add: nl_def cr_def)

lemma csv_eol_simps [simp]: "csv_eol None" "csv_eol (Some c) \<longleftrightarrow> c = nl \<or> c = cr"
  by (auto simp: csv_eol_def)

lemma plain_chars:
  assumes "\<forall>c\<in>set s. \<not> csv_special c"
  shows "forE (map Some s) csv_char (In_Field, fs, f) = Inr (In_Field, fs, f @ s)"
  using assms by (induction s arbitrary: f) (auto simp: csv_special_def)

lemma quoted_chars: "forE (map Some (csv_double s)) csv_char (In_Quoted, fs, f) = Inr (In_Quoted, fs, f @ s)"
  by (induction s arbitrary: f) auto

text \<open>After the text of a field the machine is where a delimiter or an end of line saves that field.\<close>

definition saves :: "csv_state \<Rightarrow> string list \<Rightarrow> string \<Rightarrow> string \<Rightarrow> bool" where
  "saves st fs f s \<longleftrightarrow> (f = s \<and> (st = In_Field \<or> st = Quote_In_Quoted \<or> (st = Start_Field \<and> s = [])))"

lemma field_read:
  "\<exists>st f. forE (map Some (csv_field q s)) csv_char (Start_Field, fs, []) = Inr (st, fs, f) \<and> saves st fs f s"
proof (cases "(\<exists>c\<in>set s. csv_special c) \<or> (s = [] \<and> q)")
  case True
  then have "csv_field q s = quote # csv_double s @ [quote]" by (simp add: csv_field_def)
  then have "forE (map Some (csv_field q s)) csv_char (Start_Field, fs, []) = Inr (Quote_In_Quoted, fs, s)"
    by (simp add: forE_append quoted_chars csv_field_start_def)
  then show ?thesis by (simp add: saves_def)
next
  case False
  then have f: "csv_field q s = s" and plain: "\<forall>c\<in>set s. \<not> csv_special c" by (auto simp: csv_field_def)
  show ?thesis
  proof (cases s)
    case Nil
    with f show ?thesis by (simp add: saves_def)
  next
    case (Cons c s')
    have "csv_char (Some c) (Start_Field, fs, []) = Inr (In_Field, fs, [c])"
      using plain Cons by (auto simp: csv_field_start_def csv_special_def)
    then have "forE (map Some (csv_field q s)) csv_char (Start_Field, fs, []) = Inr (In_Field, fs, s)"
      unfolding f using plain plain_chars [of s' fs "[c]"] Cons by simp
    then show ?thesis by (simp add: saves_def)
  qed
qed

lemma saves_comma: "saves st fs f s \<Longrightarrow> csv_char (Some (CHR '','')) (st, fs, f) = Inr (Start_Field, fs @ [s], [])"
  by (auto simp: saves_def csv_field_start_def)

lemma saves_end: "saves st fs f s \<Longrightarrow> forE [Some cr, Some nl, None] csv_char (st, fs, f) = Inr (Start_Record, fs @ [s], [])"
  by (auto simp: saves_def csv_field_start_def csv_close_def)

lemma fields_read:
  assumes "row \<noteq> []"
  shows "forE (map Some (join '','' (map (csv_field q) row)) @ [Some cr, Some nl, None]) csv_char (Start_Field, fs, []) = Inr (Start_Record, fs @ row, [])"
  using assms
proof (induction row arbitrary: fs)
  case (Cons s row)
  from field_read [of q s fs] obtain st f where r: "forE (map Some (csv_field q s)) csv_char (Start_Field, fs, []) = Inr (st, fs, f)" "saves st fs f s" by blast
  show ?case
  proof (cases row)
    case Nil
    then show ?thesis by (simp only: list.map join.simps forE_append r(1) bindE_Inr saves_end [OF r(2)])
  next
    case (Cons s' row')
    with Cons.IH [of "fs @ [s]"] show ?thesis
      by (simp add: forE_append r(1) saves_comma [OF r(2)] del: csv_char.simps)
  qed
qed simp

lemma row_text_start:
  assumes "row \<noteq> []" and "\<forall>s\<in>set row. one_line s"
  shows "\<exists>c cs. join '','' (map (csv_field (length row = 1)) row) = c # cs \<and> c \<noteq> nl \<and> c \<noteq> cr"
proof -
  obtain s row' where row: "row = s # row'" using assms(1) by (cases row) auto
  show ?thesis
  proof (cases "csv_field (length row = 1) s")
    case Nil
    then have "row' \<noteq> []" using row by (auto simp: csv_field_def split: if_splits)
    with Nil row show ?thesis by (cases row') auto
  next
    case (Cons c cs)
    then have "c = quote \<or> c \<in> set s" by (auto simp: csv_field_def split: if_splits)
    with assms(2) row have "c \<noteq> nl \<and> c \<noteq> cr" by (auto simp: one_line_def)
    with Cons row show ?thesis by (cases row') auto
  qed
qed

lemma row_read:
  assumes "\<forall>s\<in>set row. one_line s"
  shows "csv_line (csv_row row) (Start_Record, [], []) = Inr (Start_Record, row, [])"
proof (cases "row = []")
  case True
  then show ?thesis by (simp add: csv_line_def csv_row_def)
next
  case False
  let ?t = "join '','' (map (csv_field (length row = 1)) row)"
  from row_text_start [OF False assms] obtain c cs where c: "?t = c # cs" "c \<noteq> nl" "c \<noteq> cr" by blast
  have "csv_line (csv_row row) (Start_Record, [], []) = forE (map Some ?t @ [Some cr, Some nl, None]) csv_char (Start_Record, [], [])"
    by (simp add: csv_line_def csv_row_def)
  also have "\<dots> = forE (map Some ?t @ [Some cr, Some nl, None]) csv_char (Start_Field, [], [])"
    using c by simp
  also have "\<dots> = Inr (Start_Record, row, [])" using fields_read [OF False, of "length row = 1" "[]"] by simp
  finally show ?thesis .
qed

lemma csv_double_set: "set (csv_double s) \<subseteq> set s \<union> {quote}"
  by (induction s) auto

lemma csv_field_no_nl:
  assumes "one_line s"
  shows "nl \<notin> set (csv_field q s)"
  using assms csv_double_set [of s] by (auto simp: csv_field_def one_line_def)

lemma row_lines:
  assumes "\<forall>s\<in>set row. one_line s"
  shows "lines_of (csv_row row @ t) = csv_row row # lines_of t"
proof -
  have "nl \<notin> set (join '','' (map (csv_field (length row = 1)) row))"
    using assms csv_field_no_nl set_join [of "'',''" "map (csv_field (length row = 1)) row"] by fastforce
  then show ?thesis
    using lines_of_append_nl [of "join '','' (map (csv_field (length row = 1)) row) @ [cr]" t] by (simp add: csv_row_def)
qed

lemma rows_read:
  assumes "\<forall>row\<in>set rows. \<forall>s\<in>set row. one_line s"
  shows "csv_rows (Start_Record, [], []) (lines_of (csv_text rows)) = Inr rows"
  using assms by (induction rows) (simp_all add: csv_text_def row_lines row_read)

text \<open>The csv reader applied to the lines of what the csv writer wrote gives the same rows again, whatever
  commas and quotes their cells hold and also for empty cells and empty rows, as long as no cell
  has a line break.\<close>

lemma csv_roundtrip:
  assumes "\<forall>row\<in>set rows. \<forall>s\<in>set row. one_line s"
  shows "csv_reader (lines_of (csv_text rows)) = Inr rows"
  using rows_read [OF assms] by (simp add: csv_reader_def)

end
