(* ===== verification/Ae_Merge.thy ===== *)
theory Ae_Merge
  imports Ae_Diskann Py_Csv
begin

text \<open>
  \<open>Figure6/OverallPerformance_merge_result.py\<close>: the recalls of 101 logs of each of three systems as columns of
  402 cells, and two tables that put them beside the rows of the three csv files of the other
  scripts. \<open>sys.argv\<close> is a list of strings; the tables are rows of cells.
\<close>

section \<open>Accuracies\<close>

record merge_log = log +
  mg_list :: "cell list"

definition is_recall_word :: "string list \<Rightarrow> bool" where
  "is_recall_word g \<longleftrightarrow> word_is g 1 ''Recall10@10:''"

definition recall_body :: "(merge_log, bool) act" where
  "recall_body = bindA readline (\<lambda>l.
     if l = '''' then ret False
     else bindA regroup (\<lambda>g.
       seqA (whenA (is_recall_word g)
         (bindA (liftE (float_at g 2)) (\<lambda>x. modifyA (\<lambda>s. s\<lparr>mg_list := mg_list s @ [CFloat x]\<rparr>))))
      (ret True)))"

definition recall_file :: "filesys \<Rightarrow> string \<Rightarrow> int \<Rightarrow> (merge_log, unit) act" where
  "recall_file fs prefix i = seqA (open_log fs (prefix @ str_int i)) (loopA recall_body)"

text \<open>\<open>while len(templist) != 402: templist.append('')\<close>.\<close>

definition pad_body :: "(merge_log, bool) act" where
  "pad_body = bindA (getsA mg_list) (\<lambda>xs.
     if length xs \<noteq> 402 then seqA (modifyA (\<lambda>s. s\<lparr>mg_list := mg_list s @ [CStr '''']\<rparr>)) (ret True) else ret False)"

definition merge_indices :: "int list" where
  "merge_indices = [-1..99]"

definition accuracy_column :: "filesys \<Rightarrow> string \<Rightarrow> (merge_log, cell list) act" where
  "accuracy_column fs prefix =
     seqA (modifyA (\<lambda>s. s\<lparr>mg_list := [CStr '''', CStr ''Accuracy'']\<rparr>))
    (seqA (forA merge_indices (recall_file fs prefix))
    (seqA (loopA pad_body) (getsA mg_list)))"

section \<open>The tables\<close>

definition merge_step :: pyfloat where
  "merge_step = fl64 (2 / 10)"

definition batch_cells :: "cell list" where
  "batch_cells = CStr '''' # CStr ''Batch'' #
     concat (map (\<lambda>i. map (\<lambda>x. CFloat (fadd (FFin (of_int i)) x))
        [merge_step, fmul merge_step (FFin 2), fmul merge_step (FFin 3), fmul merge_step (FFin 4)]) [0..99])"

definition text_cells :: "string list \<Rightarrow> cell list" where
  "text_cells row = map CStr row"

definition merge_row :: "cell list \<Rightarrow> cell list list \<Rightarrow> int \<Rightarrow> string list \<times> string list \<times> string list \<Rightarrow> cell list result" where
  "merge_row batch acc i rows = (case rows of (row1, row2, row3) \<Rightarrow>
     bindE (py_get batch i) (\<lambda>b.
     bindE (bindE (py_get acc 0) (\<lambda>a. py_get a i)) (\<lambda>a0.
     bindE (bindE (py_get acc 2) (\<lambda>a. py_get a i)) (\<lambda>a2.
     bindE (bindE (py_get acc 1) (\<lambda>a. py_get a i)) (\<lambda>a1.
       Inr ([b, CStr ''''] @ text_cells row1 @ [CStr '''', a0, CStr ''''] @ text_cells row2 @
            [CStr '''', a2, CStr ''''] @ text_cells row3 @ [CStr '''', a1]))))))"

definition merge_row2 :: "cell list \<Rightarrow> cell list list \<Rightarrow> int \<Rightarrow> string list \<times> string list \<times> string list \<Rightarrow> cell list result" where
  "merge_row2 batch acc i rows = (case rows of (row1, row2, row3) \<Rightarrow>
     bindE (py_get batch i) (\<lambda>b.
     bindE (py_get row1 4) (\<lambda>r1. bindE (bindE (py_get acc 0) (\<lambda>a. py_get a i)) (\<lambda>a0.
     bindE (py_get row2 4) (\<lambda>r2. bindE (bindE (py_get acc 2) (\<lambda>a. py_get a i)) (\<lambda>a2.
     bindE (py_get row3 4) (\<lambda>r3. bindE (bindE (py_get acc 1) (\<lambda>a. py_get a i)) (\<lambda>a1.
       Inr [b, CStr r1, CStr '''', a0, CStr r2, CStr '''', a2, CStr r3, CStr '''', a1]))))))))"

text \<open>The loop over the zipped rows with its counter \<open>i\<close>, and the second loop with its \<open>break\<close> at 101.\<close>

fun merge_rows :: "(int \<Rightarrow> 'r \<Rightarrow> cell list result) \<Rightarrow> int option \<Rightarrow> int \<Rightarrow> 'r list \<Rightarrow> table result" where
  "merge_rows f stop i [] = Inr []"
| "merge_rows f stop i (r # rs) =
     (if stop = Some i then Inr []
      else bindE (f i r) (\<lambda>line. bindE (merge_rows f stop (i + 1) rs) (\<lambda>t. Inr (line # t))))"

definition read_csv :: "filesys \<Rightarrow> string list \<Rightarrow> int \<Rightarrow> string list list result" where
  "read_csv fs argv j = bindE (py_get argv j) (\<lambda>name. bindE (open_file fs name) (\<lambda>c. csv_reader (lines_of (as_text c))))"

definition zip3_rows :: "filesys \<Rightarrow> string list \<Rightarrow> (string list \<times> string list \<times> string list) list result" where
  "zip3_rows fs argv =
     bindE (read_csv fs argv 4) (\<lambda>spfresh. bindE (read_csv fs argv 5) (\<lambda>spann. bindE (read_csv fs argv 6) (\<lambda>diskann.
       Inr (zip spfresh (zip diskann spann)))))"

definition batch_cells2 :: "cell list" where
  "batch_cells2 = CStr '''' # CStr ''Batch'' # map CInt [0..100]"

definition merge_tables :: "filesys \<Rightarrow> string list \<Rightarrow> cell list list \<Rightarrow> (table \<times> table) result" where
  "merge_tables fs argv acc =
     bindE (zip3_rows fs argv) (\<lambda>rows. bindE (merge_rows (merge_row batch_cells acc) None 0 rows) (\<lambda>t1.
     bindE (zip3_rows fs argv) (\<lambda>rows'. bindE (merge_rows (merge_row2 batch_cells2 acc) (Some 101) 0 rows') (\<lambda>t2.
       Inr (t1, t2)))))"

definition merge_start :: merge_log where
  "merge_start = \<lparr>lg_lines = [], lg_line = '''', lg_group = [], lg_count = 0, mg_list = []\<rparr>"

definition merge_accuracies :: "filesys \<Rightarrow> string list \<Rightarrow> (merge_log, cell list list) act" where
  "merge_accuracies fs argv =
     bindA (bindA (liftE (py_get argv 1)) (accuracy_column fs)) (\<lambda>a.
     bindA (bindA (liftE (py_get argv 2)) (accuracy_column fs)) (\<lambda>b.
     bindA (bindA (liftE (py_get argv 3)) (accuracy_column fs)) (\<lambda>c. ret [a, b, c])))"

definition merge_result :: "filesys \<Rightarrow> string list \<Rightarrow> (table \<times> table) result option" where
  "merge_result fs argv =
     (case merge_accuracies fs argv merge_start of
        None \<Rightarrow> None | Some (s, Inl e) \<Rightarrow> Some (Inl e) | Some (s, Inr acc) \<Rightarrow> Some (merge_tables fs argv acc))"

section \<open>The accuracy columns\<close>

datatype recall_entry = Recall_Of string pyfloat | Not_Recall string

fun recall_lines :: "recall_entry \<Rightarrow> string list" where
  "recall_lines (Recall_Of l x) = [l]"
| "recall_lines (Not_Recall l) = [l]"

fun wf_recall :: "recall_entry \<Rightarrow> bool" where
  "wf_recall (Recall_Of l x) \<longleftrightarrow> is_recall_word (split_ws l) \<and> float_at (split_ws l) 2 = Inr x"
| "wf_recall (Not_Recall l) \<longleftrightarrow> l \<noteq> '''' \<and> \<not> is_recall_word (split_ws l)"

fun recall_of :: "recall_entry \<Rightarrow> cell list" where
  "recall_of (Recall_Of l x) = [CFloat x]"
| "recall_of _ = []"

lemma recall_round:
  assumes "wf_recall e" and "lg_lines s = recall_lines e @ rest"
  shows "\<exists>s'. recall_body s = Some (s', Inr True) \<and> lg_lines s' = rest \<and> mg_list s' = mg_list s @ recall_of e"
  using assms by (cases e) (auto simp: recall_body_def bindA_def is_recall_word_def word_is_def)

interpretation recall_entries: entry_loop recall_body recall_lines wf_recall mg_list "\<lambda>e xs. xs @ recall_of e"
proof
  fix e rest and s :: merge_log
  assume "wf_recall e" and "lg_lines s = recall_lines e @ rest"
  from recall_round [OF this] obtain s' where b: "recall_body s = Some (s', Inr True)"
    and s': "lg_lines s' = rest" "mg_list s' = mg_list s @ recall_of e" by blast
  then show "\<exists>s'. loopA recall_body s = loopA recall_body s' \<and> lg_lines s' = rest \<and> mg_list s' = mg_list s @ recall_of e"
    by (auto simp: loopA_unfold [of recall_body, OF b])
next
  fix s :: merge_log
  assume "lg_lines s = []"
  then show "\<exists>s'. recall_body s = Some (s', Inr False) \<and> mg_list s' = mg_list s"
    by (simp add: recall_body_def bindA_def)
qed

lemma fold_recall: "fold (\<lambda>e xs. xs @ recall_of e) es xs = xs @ concat (map recall_of es)"
  by (induction es arbitrary: xs) auto

lemma pad_returns:
  assumes "length (mg_list s) \<le> 402"
  shows "\<exists>s'. loopA pad_body s = Some (s', Inr ()) \<and> mg_list s' = mg_list s @ replicate (402 - length (mg_list s)) (CStr '''')"
  using assms
proof (induction "402 - length (mg_list s)" arbitrary: s)
  case 0
  then have b: "pad_body s = Some (s, Inr False)" by (simp add: pad_body_def)
  from 0 show ?case by (auto simp: loopA_unfold [of pad_body, OF b])
next
  case (Suc n)
  let ?t = "s\<lparr>mg_list := mg_list s @ [CStr '''']\<rparr>"
  have b: "pad_body s = Some (?t, Inr True)" using Suc by (simp add: pad_body_def)
  have "\<exists>s'. loopA pad_body ?t = Some (s', Inr ()) \<and> mg_list s' = mg_list ?t @ replicate (402 - length (mg_list ?t)) (CStr '''')"
    by (rule Suc.hyps) (use Suc in auto)
  moreover have "402 - length (mg_list s) = Suc (402 - length (mg_list ?t))" using Suc by simp
  ultimately show ?case by (simp add: loopA_unfold [of pad_body, OF b])
qed

lemma pad_diverges:
  assumes "402 < length (mg_list s)"
  shows "loopA pad_body s = None"
  by (rule loopA_diverges [where P = "\<lambda>s. 402 < length (mg_list s)"]) (use assms in \<open>auto simp: pad_body_def\<close>)

definition recall_logs :: "filesys \<Rightarrow> string \<Rightarrow> (int \<Rightarrow> recall_entry list) \<Rightarrow> bool" where
  "recall_logs fs prefix es \<longleftrightarrow> (\<forall>i\<in>set merge_indices. \<exists>c. fs (prefix @ str_int i) = Some c \<and>
     lines_of (as_text c) = concat (map recall_lines (es i)) \<and> (\<forall>e\<in>set (es i). wf_recall e))"

definition recalls :: "(int \<Rightarrow> recall_entry list) \<Rightarrow> cell list" where
  "recalls es = concat (map (\<lambda>i. concat (map recall_of (es i))) merge_indices)"

lemma recall_files:
  assumes "recall_logs fs prefix es"
  shows "\<exists>t. forA merge_indices (recall_file fs prefix) s = Some (t, Inr ()) \<and> mg_list t = mg_list s @ recalls es"
proof -
  define P where "P i t \<longleftrightarrow> mg_list t = mg_list s @ concat (map (\<lambda>i. concat (map recall_of (es i))) (take i merge_indices))" for i and t :: merge_log
  have "\<exists>t. forA merge_indices (recall_file fs prefix) s = Some (t, Inr ()) \<and> P (length merge_indices) t"
  proof (rule forA_steps)
    show "P 0 s" by (simp add: P_def)
  next
    fix i t assume i: "i < length merge_indices" and P: "P i t"
    let ?p = "merge_indices ! i"
    from assms i obtain c where c: "fs (prefix @ str_int ?p) = Some c" "lines_of (as_text c) = concat (map recall_lines (es ?p))"
      and wf: "\<forall>e\<in>set (es ?p). wf_recall e" unfolding recall_logs_def by (meson nth_mem)
    have "lg_lines (t\<lparr>lg_lines := concat (map recall_lines (es ?p))\<rparr>) = concat (map recall_lines (es ?p))" by simp
    from recall_entries.entries [OF wf this] obtain u where
      u: "loopA recall_body (t\<lparr>lg_lines := concat (map recall_lines (es ?p))\<rparr>) = Some (u, Inr ())"
        "mg_list u = mg_list t @ concat (map recall_of (es ?p))" by (auto simp: fold_recall)
    have "recall_file fs prefix ?p t = Some (u, Inr ())"
      using c u(1) by (simp add: recall_file_def open_log_def open_file_def bindA_def)
    moreover have "P (Suc i) u" using P u(2) i by (simp add: P_def take_Suc_conv_app_nth)
    ultimately show "\<exists>s'. recall_file fs prefix ?p t = Some (s', Inr ()) \<and> P (Suc i) s'" by blast
  qed
  then show ?thesis by (auto simp: P_def recalls_def)
qed

lemma accuracy_column_run:
  assumes "recall_logs fs prefix es"
  shows "if length (recalls es) \<le> 400 then
      (\<exists>t. accuracy_column fs prefix s = Some (t, Inr (CStr '''' # CStr ''Accuracy'' # recalls es @ replicate (400 - length (recalls es)) (CStr ''''))))
    else accuracy_column fs prefix s = None"
proof -
  let ?s = "s\<lparr>mg_list := [CStr '''', CStr ''Accuracy'']\<rparr>"
  from recall_files [OF assms, of ?s] obtain t where t: "forA merge_indices (recall_file fs prefix) ?s = Some (t, Inr ())"
    "mg_list t = CStr '''' # CStr ''Accuracy'' # recalls es" by auto
  show ?thesis
  proof (cases "length (recalls es) \<le> 400")
    case True
    with t(2) pad_returns [of t] obtain u where "loopA pad_body t = Some (u, Inr ())"
      "mg_list u = CStr '''' # CStr ''Accuracy'' # recalls es @ replicate (400 - length (recalls es)) (CStr '''')" by auto
    with t True show ?thesis by (auto simp: accuracy_column_def bindA_def)
  next
    case False
    with t(2) have "loopA pad_body t = None" by (intro pad_diverges) simp
    with t False show ?thesis by (auto simp: accuracy_column_def bindA_def)
  qed
qed

definition accuracy_cells :: "(int \<Rightarrow> recall_entry list) \<Rightarrow> cell list" where
  "accuracy_cells es = CStr '''' # CStr ''Accuracy'' # recalls es @ replicate (400 - length (recalls es)) (CStr '''')"

lemma length_accuracy_cells: "length (recalls es) \<le> 400 \<Longrightarrow> length (accuracy_cells es) = 402"
  by (simp add: accuracy_cells_def)

section \<open>The merged tables\<close>

lemma merge_rows_all:
  assumes "\<And>k. k < length rs \<Longrightarrow> stop \<noteq> Some (i + int k) \<and> f (i + int k) (rs ! k) = Inr (g (i + int k) (rs ! k))"
  shows "merge_rows f stop i rs = Inr (map (\<lambda>k. g (i + int k) (rs ! k)) [0..<length rs])"
  using assms
proof (induction rs arbitrary: i)
  case (Cons r rs)
  have "merge_rows f stop (i + 1) rs = Inr (map (\<lambda>k. g (i + 1 + int k) (rs ! k)) [0..<length rs])"
  proof (rule Cons.IH)
    fix k assume "k < length rs"
    with Cons.prems [of "Suc k"] show "stop \<noteq> Some (i + 1 + int k) \<and> f (i + 1 + int k) (rs ! k) = Inr (g (i + 1 + int k) (rs ! k))"
      by (simp add: algebra_simps)
  qed
  moreover have "stop \<noteq> Some i" "f i r = Inr (g i r)" using Cons.prems [of 0] by simp_all
  moreover have "map (\<lambda>k. g (i + int k) ((r # rs) ! k)) [0..<length (r # rs)] = g i r # map (\<lambda>k. g (i + 1 + int k) (rs ! k)) [0..<length rs]"
    by (simp add: upt_conv_Cons map_Suc_upt [symmetric] add.assoc del: upt_Suc)
  ultimately show ?case by simp
qed simp

lemma merge_rows_stop: "merge_rows f (Some (i + int (length rs))) i (rs @ rs') = merge_rows f (Some (i + int (length rs))) i rs"
proof (induction rs arbitrary: i)
  case Nil
  then show ?case by (cases rs') simp_all
next
  case (Cons r rs)
  from Cons.IH [of "i + 1"] show ?case by (simp add: add.assoc)
qed

lemma length_batch_cells: "length batch_cells = 402"
proof -
  have "length (concat (map (\<lambda>i. map (\<lambda>x. CFloat (fadd (FFin (of_int i)) x))
        [merge_step, fmul merge_step (FFin 2), fmul merge_step (FFin 3), fmul merge_step (FFin 4)]) is)) = 4 * length is" for "is" :: "int list"
    by (induction "is") auto
  then show ?thesis by (simp add: batch_cells_def)
qed

lemma length_batch_cells2: "length batch_cells2 = 103"
  by (simp add: batch_cells2_def)

lemma merge_row_run:
  assumes "i < 402" and "length a = 402" and "length b = 402" and "length c = 402"
  shows "merge_row batch_cells [a, b, c] (int i) (r1, r2, r3) =
    Inr ([batch_cells ! i, CStr ''''] @ map CStr r1 @ [CStr '''', a ! i, CStr ''''] @ map CStr r2 @ [CStr '''', c ! i, CStr ''''] @ map CStr r3 @ [CStr '''', b ! i])"
  using assms by (simp add: merge_row_def length_batch_cells text_cells_def)

lemma merge_row2_run:
  assumes "i < 101" and "length a = 402" and "length b = 402" and "length c = 402" and "4 < length r1" and "4 < length r2" and "4 < length r3"
  shows "merge_row2 batch_cells2 [a, b, c] (int i) (r1, r2, r3) =
    Inr [batch_cells2 ! i, CStr (r1 ! 4), CStr '''', a ! i, CStr (r2 ! 4), CStr '''', c ! i, CStr (r3 ! 4), CStr '''', b ! i]"
  using assms by (simp add: merge_row2_def length_batch_cells2)

lemma merge_accuracies_run:
  assumes "argv = [a0, a1, a2, a3, a4, a5, a6]"
    and "recall_logs fs a1 e1" "recall_logs fs a2 e2" "recall_logs fs a3 e3"
    and "length (recalls e1) \<le> 400" "length (recalls e2) \<le> 400" "length (recalls e3) \<le> 400"
  shows "\<exists>t. merge_accuracies fs argv s = Some (t, Inr [accuracy_cells e1, accuracy_cells e2, accuracy_cells e3])"
proof -
  from accuracy_column_run [OF assms(2), of s] assms(5) obtain s1 where s1: "accuracy_column fs a1 s = Some (s1, Inr (accuracy_cells e1))"
    by (auto simp: accuracy_cells_def)
  from accuracy_column_run [OF assms(3), of s1] assms(6) obtain s2 where s2: "accuracy_column fs a2 s1 = Some (s2, Inr (accuracy_cells e2))"
    by (auto simp: accuracy_cells_def)
  from accuracy_column_run [OF assms(4), of s2] assms(7) obtain s3 where s3: "accuracy_column fs a3 s2 = Some (s3, Inr (accuracy_cells e3))"
    by (auto simp: accuracy_cells_def)
  from s1 s2 s3 show ?thesis by (simp add: merge_accuracies_def assms(1) bindA_def)
qed

definition merged_row :: "cell list \<Rightarrow> cell list \<Rightarrow> cell list \<Rightarrow> nat \<Rightarrow> string list \<Rightarrow> string list \<Rightarrow> string list \<Rightarrow> cell list" where
  "merged_row a b c i r1 r2 r3 =
     [batch_cells ! i, CStr ''''] @ map CStr r1 @ [CStr '''', a ! i, CStr ''''] @ map CStr r2 @ [CStr '''', c ! i, CStr ''''] @ map CStr r3 @ [CStr '''', b ! i]"

definition merged_row2 :: "cell list \<Rightarrow> cell list \<Rightarrow> cell list \<Rightarrow> nat \<Rightarrow> string list \<Rightarrow> string list \<Rightarrow> string list \<Rightarrow> cell list" where
  "merged_row2 a b c i r1 r2 r3 =
     [batch_cells2 ! i, CStr (r1 ! 4), CStr '''', a ! i, CStr (r2 ! 4), CStr '''', c ! i, CStr (r3 ! 4), CStr '''', b ! i]"

lemma merge_first_table:
  assumes "length rs \<le> 402" and "length a = 402" "length b = 402" "length c = 402"
  shows "merge_rows (merge_row batch_cells [a, b, c]) None 0 rs =
    Inr (map (\<lambda>k. merged_row a b c k (fst (rs ! k)) (fst (snd (rs ! k))) (snd (snd (rs ! k)))) [0..<length rs])"
proof -
  have "merge_rows (merge_row batch_cells [a, b, c]) None 0 rs =
      Inr (map (\<lambda>k. (\<lambda>i r. merged_row a b c (nat i) (fst r) (fst (snd r)) (snd (snd r))) (0 + int k) (rs ! k)) [0..<length rs])"
  proof (rule merge_rows_all)
    fix k assume "k < length rs"
    then show "None \<noteq> Some (0 + int k) \<and> merge_row batch_cells [a, b, c] (0 + int k) (rs ! k) =
        Inr (merged_row a b c (nat (0 + int k)) (fst (rs ! k)) (fst (snd (rs ! k))) (snd (snd (rs ! k))))"
      using merge_row_run [of k a b c "fst (rs ! k)" "fst (snd (rs ! k))" "snd (snd (rs ! k))"] assms by (simp add: merged_row_def)
  qed
  then show ?thesis by simp
qed

lemma merge_second_table:
  assumes "length a = 402" "length b = 402" "length c = 402"
    and wide: "\<forall>r\<in>set rs. 4 < length (fst r) \<and> 4 < length (fst (snd r)) \<and> 4 < length (snd (snd r))"
  shows "merge_rows (merge_row2 batch_cells2 [a, b, c]) (Some 101) 0 rs =
    Inr (map (\<lambda>k. merged_row2 a b c k (fst (rs ! k)) (fst (snd (rs ! k))) (snd (snd (rs ! k)))) [0..<min 101 (length rs)])"
proof -
  let ?rs = "take 101 rs"
  have cut: "merge_rows (merge_row2 batch_cells2 [a, b, c]) (Some 101) 0 rs = merge_rows (merge_row2 batch_cells2 [a, b, c]) (Some 101) 0 ?rs"
  proof (cases "101 \<le> length rs")
    case True
    then have "int (length ?rs) = 101" by simp
    with merge_rows_stop [of "merge_row2 batch_cells2 [a, b, c]" 0 ?rs "drop 101 rs"] show ?thesis by simp
  qed simp
  have "merge_rows (merge_row2 batch_cells2 [a, b, c]) (Some 101) 0 ?rs =
      Inr (map (\<lambda>k. (\<lambda>i r. merged_row2 a b c (nat i) (fst r) (fst (snd r)) (snd (snd r))) (0 + int k) (?rs ! k)) [0..<length ?rs])"
  proof (rule merge_rows_all)
    fix k assume "k < length ?rs"
    then show "Some 101 \<noteq> Some (0 + int k) \<and> merge_row2 batch_cells2 [a, b, c] (0 + int k) (?rs ! k) =
        Inr (merged_row2 a b c (nat (0 + int k)) (fst (?rs ! k)) (fst (snd (?rs ! k))) (snd (snd (?rs ! k))))"
      using merge_row2_run [of k a b c "fst (rs ! k)" "fst (snd (rs ! k))" "snd (snd (rs ! k))"] assms by (auto simp: merged_row2_def)
  qed
  then show ?thesis by (simp add: cut min.commute)
qed

text \<open>C19: the merged tables. If each of the 303 logs has lines with recalls and other lines, with at most 400
  recalls for each system, and the three csv files hold, as csv text, at most 402 common rows of at
  least five cells, then row i of the first table has the i-th batch mark and the i-th rows of
  SPFresh, DiskANN and SPANN each followed by the recall of its own system, and the second table, of
  at most 101 rows, has the insert column of each. More than 400 recalls of the first system make
  the script run for ever.\<close>

theorem merge_result_tables:
  assumes "argv = [a0, a1, a2, a3, a4, a5, a6]"
    and "recall_logs fs a1 e1" "recall_logs fs a2 e2" "recall_logs fs a3 e3"
    and "length (recalls e2) \<le> 400" "length (recalls e3) \<le> 400"
    and "fs a4 = Some c4" "fs a5 = Some c5" "fs a6 = Some c6"
    and "as_text c4 = csv_text r1" "as_text c5 = csv_text r3" "as_text c6 = csv_text r2"
    and "\<forall>row\<in>set (r1 @ r2 @ r3). 4 < length row \<and> (\<forall>s\<in>set row. one_line s)"
    and "n = min (length r1) (min (length r2) (length r3))" "n \<le> 402"
    and "a = accuracy_cells e1" "b = accuracy_cells e2" "c = accuracy_cells e3"
  shows "merge_result fs argv = (if length (recalls e1) \<le> 400 then
      Some (Inr (map (\<lambda>i. merged_row a b c i (r1 ! i) (r2 ! i) (r3 ! i)) [0..<n],
                 map (\<lambda>i. merged_row2 a b c i (r1 ! i) (r2 ! i) (r3 ! i)) [0..<min 101 n])) else None)"
proof (cases "length (recalls e1) \<le> 400")
  case True
  let ?rs = "zip r1 (zip r2 r3)"
  from merge_accuracies_run [OF assms(1-4) True assms(5,6)] obtain t where
    acc: "merge_accuracies fs argv merge_start = Some (t, Inr [a, b, c])" unfolding assms(16-18) by blast
  have len: "length a = 402" "length b = 402" "length c = 402" using True assms(5,6) by (simp_all add: assms(16-18) length_accuracy_cells)
  have rows: "zip3_rows fs argv = Inr ?rs"
  proof -
    have "csv_reader (lines_of (as_text c4)) = Inr r1" "csv_reader (lines_of (as_text c5)) = Inr r3" "csv_reader (lines_of (as_text c6)) = Inr r2"
      using rows_read [of r1] rows_read [of r2] rows_read [of r3] assms(10-13) by (auto simp: csv_reader_def)
    then show ?thesis using assms(1,7-9) by (simp add: zip3_rows_def read_csv_def open_file_def)
  qed
  have "\<forall>r\<in>set ?rs. 4 < length (fst r) \<and> 4 < length (fst (snd r)) \<and> 4 < length (snd (snd r))"
    using assms(13) by (auto simp: set_zip)
  from merge_second_table [OF len this] merge_first_table [of ?rs, OF _ len] have tables:
    "merge_rows (merge_row batch_cells [a, b, c]) None 0 ?rs = Inr (map (\<lambda>i. merged_row a b c i (r1 ! i) (r2 ! i) (r3 ! i)) [0..<n])"
    "merge_rows (merge_row2 batch_cells2 [a, b, c]) (Some 101) 0 ?rs = Inr (map (\<lambda>i. merged_row2 a b c i (r1 ! i) (r2 ! i) (r3 ! i)) [0..<min 101 n])"
    using assms(14,15) by (auto simp: min_def)
  with acc rows True show ?thesis by (simp add: merge_result_def merge_tables_def)
next
  case False
  with accuracy_column_run [OF assms(2), of merge_start] show ?thesis
    by (simp add: merge_result_def merge_accuracies_def assms(1) bindA_def)
qed

definition sample_merge_files :: filesys where
  "sample_merge_files name = (if name = ''x'' then Some (as_bytes (csv_text [[''a'', ''b'', ''c'', ''d'', ''e'']]))
     else Some (as_bytes (''r Recall10@10: 1'' @ [nl])))"

lemma sample_merge_logs: "recall_logs sample_merge_files (CHR ''p'' # w) (\<lambda>_. [Recall_Of (''r Recall10@10: 1'' @ [nl]) (FFin 1)])"
proof -
  have "lines_of (as_text (as_bytes (''r Recall10@10: 1'' @ [nl]))) = concat (map recall_lines [Recall_Of (''r Recall10@10: 1'' @ [nl]) (FFin 1)])"
    "wf_recall (Recall_Of (''r Recall10@10: 1'' @ [nl]) (FFin 1))" by code_simp+
  then show ?thesis by (simp add: recall_logs_def sample_merge_files_def)
qed

lemma sample_merge_recalls: "length (recalls (\<lambda>_. [Recall_Of (''r Recall10@10: 1'' @ [nl]) (FFin 1)])) \<le> 400"
  by (simp add: recalls_def merge_indices_def length_concat comp_def)

theorem merge_result_tables_witness:
  "\<exists>a. merge_result sample_merge_files [''m'', ''p'', ''pp'', ''ppp'', ''x'', ''x'', ''x''] =
     Some (Inr (map (\<lambda>i. merged_row a a a i ([[''a'', ''b'', ''c'', ''d'', ''e'']] ! i) ([[''a'', ''b'', ''c'', ''d'', ''e'']] ! i) ([[''a'', ''b'', ''c'', ''d'', ''e'']] ! i)) [0..<1],
                map (\<lambda>i. merged_row2 a a a i ([[''a'', ''b'', ''c'', ''d'', ''e'']] ! i) ([[''a'', ''b'', ''c'', ''d'', ''e'']] ! i) ([[''a'', ''b'', ''c'', ''d'', ''e'']] ! i)) [0..<min 101 1]))"
proof -
  let ?es = "\<lambda>_ :: int. [Recall_Of (''r Recall10@10: 1'' @ [nl]) (FFin 1)]" and ?rows = "[[''a'', ''b'', ''c'', ''d'', ''e'']]"
  have x: "sample_merge_files ''x'' = Some (as_bytes (csv_text ?rows))" by (simp add: sample_merge_files_def)
  have t: "as_text (as_bytes (csv_text ?rows)) = csv_text ?rows" by code_simp
  have ok: "\<forall>row\<in>set (?rows @ ?rows @ ?rows). 4 < length row \<and> (\<forall>s\<in>set row. one_line s)" by code_simp
  have n: "1 = min (length ?rows) (min (length ?rows) (length ?rows))" and n402: "1 \<le> (402 :: nat)" by simp_all
  from merge_result_tables [OF refl sample_merge_logs sample_merge_logs sample_merge_logs sample_merge_recalls sample_merge_recalls x x x t t t ok n n402 refl refl refl,
      of "''m''"] sample_merge_recalls show ?thesis by (simp only: if_True) (rule exI, rule refl)
qed

end
