(* ===== verification/Py_Inv.thy ===== *)
theory Py_Inv
  imports Py_Prelude
begin

text \<open>
  Invariants of actions. An action preserves a property of the state, up to the exceptions in a set, if the property
  still holds when the action returns and when it raises one of them: these are the exceptions a
  handler around the action will catch. The rules follow the way actions are composed.
\<close>

definition preserves :: "py_error set \<Rightarrow> ('s \<Rightarrow> bool) \<Rightarrow> ('s, 'a) act \<Rightarrow> bool" where
  "preserves E P m \<longleftrightarrow> (\<forall>s t r. P s \<longrightarrow> m s = Some (t, r) \<longrightarrow> (case r of Inl e \<Rightarrow> e \<in> E \<longrightarrow> P t | Inr x \<Rightarrow> P t))"

lemma preservesI:
  assumes "\<And>s t r. P s \<Longrightarrow> m s = Some (t, r) \<Longrightarrow> (case r of Inl e \<Rightarrow> e \<in> E \<longrightarrow> P t | Inr x \<Rightarrow> P t)"
  shows "preserves E P m"
  using assms by (simp add: preserves_def)

lemma preservesD:
  assumes "preserves E P m" and "P s" and "m s = Some (t, r)"
  shows "case r of Inl e \<Rightarrow> e \<in> E \<longrightarrow> P t | Inr x \<Rightarrow> P t"
  using assms by (simp add: preserves_def)

lemma preserves_returns: "preserves E P m \<Longrightarrow> P s \<Longrightarrow> m s = Some (t, Inr x) \<Longrightarrow> P t"
  using preservesD [of E P m s t "Inr x"] by simp

lemma preserves_all: "preserves UNIV P m \<Longrightarrow> P s \<Longrightarrow> m s = Some (t, r) \<Longrightarrow> P t"
  using preservesD [of UNIV P m s t r] by (cases r) simp_all

lemma preserves_mono:
  assumes "preserves E P m" and "F \<subseteq> E"
  shows "preserves F P m"
proof (rule preservesI)
  fix s t r assume "P s" and "m s = Some (t, r)"
  from preservesD [OF assms(1) this] assms(2) show "case r of Inl e \<Rightarrow> e \<in> F \<longrightarrow> P t | Inr x \<Rightarrow> P t" by (cases r) auto
qed

lemma preserves_pure: "preserves E P (ret x)" "preserves E P (getsA f)" "preserves E P (raiseA e)" "preserves E P (liftE r)"
  by (auto simp: preserves_def split: sum.splits)

lemma preserves_modifyA: "(\<And>s. P s \<Longrightarrow> P (f s)) \<Longrightarrow> preserves E P (modifyA f)"
  by (simp add: preserves_def)

lemma preserves_bindA:
  assumes "preserves E P m" and "\<And>x. preserves E P (f x)"
  shows "preserves E P (bindA m f)"
proof (rule preservesI)
  fix s t r assume "P s" and run: "bindA m f s = Some (t, r)"
  from run obtain s1 r1 where m: "m s = Some (s1, r1)" by (cases "m s") (auto simp: bindA_def)
  note s1 = preservesD [OF assms(1) \<open>P s\<close> m]
  show "case r of Inl e \<Rightarrow> e \<in> E \<longrightarrow> P t | Inr x \<Rightarrow> P t"
  proof (cases r1)
    case (Inl e)
    with run m s1 show ?thesis by (auto simp: bindA_def)
  next
    case (Inr x)
    with run m have "f x s1 = Some (t, r)" by (simp add: bindA_def)
    from preservesD [OF assms(2) _ this] s1 Inr show ?thesis by simp
  qed
qed

lemma preserves_seqA: "preserves E P m \<Longrightarrow> preserves E P n \<Longrightarrow> preserves E P (seqA m n)"
  unfolding seqA_def by (rule preserves_bindA)

lemma preserves_if: "(b \<Longrightarrow> preserves E P m) \<Longrightarrow> (\<not> b \<Longrightarrow> preserves E P n) \<Longrightarrow> preserves E P (if b then m else n)"
  by simp

lemma preserves_whenA: "(b \<Longrightarrow> preserves E P m) \<Longrightarrow> preserves E P (whenA b m)"
  by (simp add: whenA_def preserves_pure)

lemma preserves_forA: "(\<And>x. preserves E P (f x)) \<Longrightarrow> preserves E P (forA xs f)"
  by (induction xs) (simp_all add: preserves_seqA preserves_pure)

lemma preserves_catchA:
  assumes "preserves (E \<union> F) P m" and "\<And>e. preserves E P (h e)"
  shows "preserves E P (catchA m F h)"
proof (rule preservesI)
  fix s t r assume "P s" and run: "catchA m F h s = Some (t, r)"
  from run obtain s1 r1 where m: "m s = Some (s1, r1)" by (cases "m s") (auto simp: catchA_def)
  note s1 = preservesD [OF assms(1) \<open>P s\<close> m]
  show "case r of Inl e \<Rightarrow> e \<in> E \<longrightarrow> P t | Inr x \<Rightarrow> P t"
  proof (cases "\<exists>e. r1 = Inl e \<and> e \<in> F")
    case True
    then obtain e where e: "r1 = Inl e" "e \<in> F" by blast
    with run m have "h e s1 = Some (t, r)" by (simp add: catchA_def)
    from preservesD [OF assms(2) _ this] s1 e show ?thesis by simp
  next
    case False
    with run m have "t = s1 \<and> r = r1" by (auto simp: catchA_def split: sum.splits)
    with s1 show ?thesis by (auto split: sum.splits)
  qed
qed

lemma preserves_loopA:
  assumes "preserves E P body"
  shows "preserves E P (loopA body)"
proof (rule preservesI)
  fix s t r assume "P s" and "loopA body s = Some (t, r)"
  from this(2) have "body = body \<longrightarrow> P s \<longrightarrow> (case snd (t, r) of Inl e \<Rightarrow> e \<in> E \<longrightarrow> P (fst (t, r)) | Inr x \<Rightarrow> P (fst (t, r)))"
  proof (rule loopA.raw_induct [where P = "\<lambda>b s q. b = body \<longrightarrow> P s \<longrightarrow> (case snd q of Inl e \<Rightarrow> e \<in> E \<longrightarrow> P (fst q) | Inr x \<Rightarrow> P (fst q))", rotated])
    fix loop b u q
    assume IH: "\<And>b s q. loop b s = Some q \<Longrightarrow> b = body \<longrightarrow> P s \<longrightarrow> (case snd q of Inl e \<Rightarrow> e \<in> E \<longrightarrow> P (fst q) | Inr x \<Rightarrow> P (fst q))"
      and eq: "(case b u of None \<Rightarrow> None
        | Some (s', r) \<Rightarrow> (case r of Inl e \<Rightarrow> Some (s', Inl e) | Inr go \<Rightarrow> (if go then loop b s' else Some (s', Inr ())))) = Some q"
    show "b = body \<longrightarrow> P u \<longrightarrow> (case snd q of Inl e \<Rightarrow> e \<in> E \<longrightarrow> P (fst q) | Inr x \<Rightarrow> P (fst q))"
    proof (intro impI)
      assume b: "b = body" and "P u"
      with eq obtain u1 r1 where u1: "body u = Some (u1, r1)" by (auto split: option.splits)
      note p1 = preservesD [OF assms \<open>P u\<close> u1]
      show "case snd q of Inl e \<Rightarrow> e \<in> E \<longrightarrow> P (fst q) | Inr x \<Rightarrow> P (fst q)"
      proof (cases "r1 = Inr True")
        case True
        with eq u1 b have "loop body u1 = Some q" by simp
        from IH [OF this] p1 True show ?thesis by simp
      next
        case False
        with eq u1 b p1 show ?thesis by (auto split: sum.splits if_splits)
      qed
    qed
  qed
  with \<open>P s\<close> show "case r of Inl e \<Rightarrow> e \<in> E \<longrightarrow> P t | Inr x \<Rightarrow> P t" by (cases r) simp_all
qed

lemmas preserves_rules = preserves_pure preserves_bindA preserves_seqA preserves_if preserves_whenA preserves_forA preserves_loopA

end
