(* ===== verification/Ae_Stress.thy ===== *)
theory Ae_Stress
  imports Ae_Diskann Py_Inv
begin

text \<open>
  \<open>Figure8/process_stress_test.py\<close>: the sampling blocks of the log are gathered in runs, a run ends where the number of
  processed vectors decreases, and three points of each run are kept; the insert latencies are read in
  a second pass as in the SPANN script. The index of a point is computed with \<open>/\<close>, which makes it a float in
  Python 3. The list of KIOPS of a run is not emptied at its end.
\<close>

record stress_log = spann_log +
  st_kiops :: "pyfloat list"
  st_avg_batch :: "pyfloat list"
  st_tail_batch :: "pyfloat list"
  st_throughput_batch :: "pyfloat list"
  st_rss_batch :: "int list"
  st_kiops_batch :: "pyfloat list"
  st_last :: int
  st_this :: "int option"

section \<open>Sampling a run\<close>

definition stress_index :: "pyver \<Rightarrow> nat \<Rightarrow> int \<Rightarrow> int result" where
  "stress_index ver batch_len i = (case ver of Py2 \<Rightarrow> Inr (i * (int batch_len div 3)) | Py3 \<Rightarrow> Inl TypeError)"

definition stress_point :: "pyver \<Rightarrow> nat \<Rightarrow> int \<Rightarrow> (stress_log, unit) act" where
  "stress_point ver batch_len i =
     bindA (liftE (stress_index ver batch_len i)) (\<lambda>j. bindA (getsA (\<lambda>s. s)) (\<lambda>s.
     bindA (liftE (py_get (st_avg_batch s) j)) (\<lambda>x. bindA (modifyA (\<lambda>s. s\<lparr>sp_avg := sp_avg s @ [x]\<rparr>)) (\<lambda>_.
     bindA (liftE (py_get (st_tail_batch s) j)) (\<lambda>y. bindA (modifyA (\<lambda>s. s\<lparr>sp_tail := sp_tail s @ [y]\<rparr>)) (\<lambda>_.
     bindA (liftE (py_get (st_throughput_batch s) j)) (\<lambda>z. bindA (modifyA (\<lambda>s. s\<lparr>sp_throughput := sp_throughput s @ [z]\<rparr>)) (\<lambda>_.
     bindA (liftE (py_get (st_rss_batch s) j)) (\<lambda>r. bindA (modifyA (\<lambda>s. s\<lparr>sp_rss := sp_rss s @ [r]\<rparr>)) (\<lambda>_.
     bindA (liftE (py_get (st_kiops_batch s) j)) (\<lambda>k. modifyA (\<lambda>s. s\<lparr>st_kiops := st_kiops s @ [k]\<rparr>))))))))))))"

definition stress_sample :: "pyver \<Rightarrow> (stress_log, unit) act" where
  "stress_sample ver = bindA (getsA (\<lambda>s. length (st_avg_batch s))) (\<lambda>batch_len. forA [0, 1, 2] (stress_point ver batch_len))"


section \<open>A sampling block\<close>






section \<open>The script\<close>








section \<open>The KIOPS column\<close>

definition kiops_inv :: "stress_log \<Rightarrow> bool" where
  "kiops_inv s \<longleftrightarrow> 3 dvd length (st_kiops s) \<and>
     (\<forall>k. 3 * k < length (st_kiops s) \<longrightarrow> st_kiops_batch s \<noteq> [] \<and> st_kiops s ! (3 * k) = st_kiops_batch s ! 0)"


lemma kiops_inv_updates [simp]:
  "kiops_inv (s\<lparr>lg_lines := a, lg_line := l, lg_count := n\<rparr>) = kiops_inv s"
  "kiops_inv (s\<lparr>lg_group := g\<rparr>) = kiops_inv s" "kiops_inv (s\<lparr>lg_lines := a\<rparr>) = kiops_inv s"
  "kiops_inv (s\<lparr>sp_insert := xs\<rparr>) = kiops_inv s" "kiops_inv (s\<lparr>st_last := i\<rparr>) = kiops_inv s" "kiops_inv (s\<lparr>st_this := p\<rparr>) = kiops_inv s"
  "kiops_inv (s\<lparr>st_rss_batch := ns\<rparr>) = kiops_inv s" "kiops_inv (s\<lparr>st_throughput_batch := xs\<rparr>) = kiops_inv s"
  "kiops_inv (s\<lparr>st_avg_batch := xs\<rparr>) = kiops_inv s" "kiops_inv (s\<lparr>st_tail_batch := xs\<rparr>) = kiops_inv s"
  "kiops_inv (s\<lparr>st_avg_batch := xs, st_tail_batch := ys, st_throughput_batch := zs, st_rss_batch := ns\<rparr>) = kiops_inv s"
  by (simp_all add: kiops_inv_def)












text \<open>In Python 3 no run is sampled: the first index is a float.\<close>

lemma stress_sample_Py3: "stress_sample Py3 s = Some (s, Inl TypeError)"
  by (simp add: stress_sample_def stress_point_def stress_index_def bindA_def)











end
