(* ===== verification/Kv_Client.thy ===== *)
theory Kv_Client
  imports Py_Str
begin

text \<open>
  \<open>aerospace_client/kv_benchmark.py\<close> and \<open>aerospace_client/verify_persistance.py\<close>. The Aerospike client is an argument: the
  record \<open>kv\<close> of what \<open>connect\<close>, \<open>put\<close> and \<open>get\<close> do on a database of any type. A record of the database is a
  map from bin names to values. The clock is a function from the number of readings so far to the
  time read. Console output is not modelled, except for the numbers it divides.
\<close>

datatype kv_value = KInt int | KStr string

type_synonym kv_record = "string \<rightharpoonup> kv_value"
type_synonym kv_key = "string \<times> string \<times> string"

record 'db kv =
  kv_connect :: "'db \<Rightarrow> 'db \<times> unit result"
  kv_put :: "'db \<Rightarrow> kv_key \<Rightarrow> kv_record \<Rightarrow> 'db \<times> unit result"
  kv_get :: "'db \<Rightarrow> kv_key \<Rightarrow> 'db \<times> kv_record result"

definition record_count :: nat where "record_count = 10000"

definition doc_key :: "nat \<Rightarrow> kv_key" where
  "doc_key i = (''sptag_data'', ''vectors'', ''doc_'' @ str_int (int i))"

definition doc_content :: "nat \<Rightarrow> string" where
  "doc_content i = ''This is the payload for document '' @ str_int (int i)"

definition doc_record :: "nat \<Rightarrow> kv_record" where
  "doc_record i = [''vector_id'' \<mapsto> KInt (int i), ''status'' \<mapsto> KStr ''active'', ''content'' \<mapsto> KStr (doc_content i)]"

text \<open>\<open>record[name]\<close>, and \<open>!=\<close> of a bin and a value.\<close>

definition kv_bin :: "kv_record \<Rightarrow> string \<Rightarrow> kv_value result" where
  "kv_bin r name = (case r name of None \<Rightarrow> Inl KeyError | Some v \<Rightarrow> Inr v)"

fun put_all :: "'db kv \<Rightarrow> nat list \<Rightarrow> 'db \<Rightarrow> 'db \<times> unit result" where
  "put_all kv [] db = (db, Inr ())"
| "put_all kv (i # is) db =
     (case kv_put kv db (doc_key i) (doc_record i) of (db', Inl e) \<Rightarrow> (db', Inl e) | (db', Inr _) \<Rightarrow> put_all kv is db')"

definition doc_mismatch :: "nat \<Rightarrow> kv_record \<Rightarrow> bool result" where
  "doc_mismatch i r = bindE (kv_bin r ''vector_id'') (\<lambda>v.
     if v \<noteq> KInt (int i) then Inr True
     else bindE (kv_bin r ''content'') (\<lambda>c. Inr (c \<noteq> KStr (doc_content i))))"

definition id_mismatch :: "nat \<Rightarrow> kv_record \<Rightarrow> bool result" where
  "id_mismatch i r = bindE (kv_bin r ''vector_id'') (\<lambda>v. Inr (v \<noteq> KInt (int i)))"

text \<open>The loop that counts errors: a mismatch, or any exception of the body.\<close>

fun count_errors :: "'db kv \<Rightarrow> (nat \<Rightarrow> kv_record \<Rightarrow> bool result) \<Rightarrow> nat list \<Rightarrow> 'db \<Rightarrow> nat \<Rightarrow> 'db \<times> nat" where
  "count_errors kv bad [] db errors = (db, errors)"
| "count_errors kv bad (i # is) db errors =
     (case kv_get kv db (doc_key i) of (db', r) \<Rightarrow>
        count_errors kv bad is db' (case bindE r (bad i) of Inr False \<Rightarrow> errors | _ \<Rightarrow> errors + 1))"

definition elapsed :: "(nat \<Rightarrow> pyfloat) \<Rightarrow> nat \<Rightarrow> pyfloat" where
  "elapsed clock n = fadd (clock (Suc n)) (fneg (clock n))"

definition ops_per_second :: "pyfloat \<Rightarrow> pyfloat result" where
  "ops_per_second t = fdiv (FFin (of_nat record_count)) t"

text \<open>The benchmark gives the number of errors it counted and the database it leaves; a failed connection exits
  with status 1.\<close>

definition kv_benchmark :: "'db kv \<Rightarrow> (nat \<Rightarrow> pyfloat) \<Rightarrow> 'db \<Rightarrow> 'db \<times> nat result" where
  "kv_benchmark kv clock db =
     (case kv_connect kv db of
        (db1, Inl e) \<Rightarrow> (db1, Inl (SystemExit ''1''))
      | (db1, Inr _) \<Rightarrow>
         (case put_all kv [0..<record_count] db1 of
            (db2, Inl e) \<Rightarrow> (db2, Inl e)
          | (db2, Inr _) \<Rightarrow>
             (case ops_per_second (elapsed clock 0) of
                Inl e \<Rightarrow> (db2, Inl e)
              | Inr _ \<Rightarrow>
                 (case count_errors kv doc_mismatch [0..<record_count] db2 0 of
                    (db3, errors) \<Rightarrow> (db3, bindE (ops_per_second (elapsed clock 2)) (\<lambda>_. Inr errors))))))"

definition verify_persistance :: "'db kv \<Rightarrow> 'db \<Rightarrow> 'db \<times> nat result" where
  "verify_persistance kv db =
     (case kv_connect kv db of
        (db1, Inl e) \<Rightarrow> (db1, Inl e)
      | (db1, Inr _) \<Rightarrow> (case count_errors kv id_mismatch [0..<record_count] db1 0 of (db2, errors) \<Rightarrow> (db2, Inr errors)))"

section \<open>What the scripts rely on, and what they find\<close>

text \<open>The documented behaviour of the client on healthy databases: connecting succeeds; a write is acknowledged
  and, under the default policy, adds its bins to the record stored under that key or replaces their
  values there, leaving the record's other bins (\<open>bins_after\<close>), and makes a new record where there is none; a
  read gives the record stored under its key; neither reading nor connecting changes what is stored.\<close>

definition bins_after :: "kv_record option \<Rightarrow> kv_record \<Rightarrow> kv_record" where
  "bins_after old r = (case old of None \<Rightarrow> r | Some q \<Rightarrow> q ++ r)"

definition kv_laws :: "'db kv \<Rightarrow> ('db \<Rightarrow> bool) \<Rightarrow> ('db \<Rightarrow> kv_key \<Rightarrow> kv_record option) \<Rightarrow> bool" where
  "kv_laws kv healthy stored \<longleftrightarrow> (\<forall>db. healthy db \<longrightarrow>
     (\<exists>db'. kv_connect kv db = (db', Inr ()) \<and> healthy db' \<and> stored db' = stored db) \<and>
     (\<forall>k r. \<exists>db'. kv_put kv db k r = (db', Inr ()) \<and> healthy db' \<and> stored db' = (stored db)(k \<mapsto> bins_after (stored db k) r)) \<and>
     (\<forall>k. healthy (fst (kv_get kv db k)) \<and> stored (fst (kv_get kv db k)) = stored db \<and>
        (case stored db k of Some x \<Rightarrow> snd (kv_get kv db k) = Inr x | None \<Rightarrow> isl (snd (kv_get kv db k)))))"

definition is_bad :: "(nat \<Rightarrow> kv_record \<Rightarrow> bool result) \<Rightarrow> (kv_key \<Rightarrow> kv_record option) \<Rightarrow> nat \<Rightarrow> bool" where
  "is_bad bad m i \<longleftrightarrow> (case m (doc_key i) of None \<Rightarrow> True | Some r \<Rightarrow> bad i r \<noteq> Inr False)"

lemma doc_key_inj: "doc_key i = doc_key j \<longleftrightarrow> i = j"
  using str_int_inj [of "int i" "int j"] by (auto simp: doc_key_def)

lemma kv_law:
  assumes "kv_laws kv healthy stored" and "healthy db"
  shows kv_law_connect: "\<exists>db'. kv_connect kv db = (db', Inr ()) \<and> healthy db' \<and> stored db' = stored db"
    and kv_law_put: "\<exists>db'. kv_put kv db k r = (db', Inr ()) \<and> healthy db' \<and> stored db' = (stored db)(k \<mapsto> bins_after (stored db k) r)"
    and kv_law_get: "healthy (fst (kv_get kv db k)) \<and> stored (fst (kv_get kv db k)) = stored db \<and>
        (case stored db k of Some x \<Rightarrow> snd (kv_get kv db k) = Inr x | None \<Rightarrow> isl (snd (kv_get kv db k)))"
proof -
  note L = assms(1) [unfolded kv_laws_def, THEN spec, THEN mp, OF assms(2)]
  show "\<exists>db'. kv_connect kv db = (db', Inr ()) \<and> healthy db' \<and> stored db' = stored db" by (rule L [THEN conjunct1])
  show "\<exists>db'. kv_put kv db k r = (db', Inr ()) \<and> healthy db' \<and> stored db' = (stored db)(k \<mapsto> bins_after (stored db k) r)"
    by (rule L [THEN conjunct2, THEN conjunct1, THEN spec, THEN spec])
  show "healthy (fst (kv_get kv db k)) \<and> stored (fst (kv_get kv db k)) = stored db \<and>
        (case stored db k of Some x \<Rightarrow> snd (kv_get kv db k) = Inr x | None \<Rightarrow> isl (snd (kv_get kv db k)))"
    by (rule L [THEN conjunct2, THEN conjunct2, THEN spec])
qed

lemma put_all_run:
  assumes laws: "kv_laws kv healthy stored" and "healthy db" and "distinct is"
  shows "\<exists>db'. put_all kv is db = (db', Inr ()) \<and> healthy db' \<and>
    (\<forall>i\<in>set is. stored db' (doc_key i) = Some (bins_after (stored db (doc_key i)) (doc_record i))) \<and>
    (\<forall>k. k \<notin> doc_key ` set is \<longrightarrow> stored db' k = stored db k)"
  using assms(2,3)
proof (induction "is" arbitrary: db)
  case (Cons i "is")
  from kv_law_put [OF laws Cons.prems(1)] obtain db1 where db1: "kv_put kv db (doc_key i) (doc_record i) = (db1, Inr ())" "healthy db1"
    "stored db1 = (stored db)(doc_key i \<mapsto> bins_after (stored db (doc_key i)) (doc_record i))" by blast
  have i: "doc_key i \<notin> doc_key ` set is" and dist: "distinct is" using Cons.prems(2) by (auto simp: doc_key_inj)
  from Cons.IH [OF db1(2) dist] obtain db' where db': "put_all kv is db1 = (db', Inr ())" "healthy db'"
    "\<forall>i\<in>set is. stored db' (doc_key i) = Some (bins_after (stored db1 (doc_key i)) (doc_record i))"
    "\<forall>k. k \<notin> doc_key ` set is \<longrightarrow> stored db' k = stored db1 k" by blast
  have "stored db' (doc_key i) = Some (bins_after (stored db (doc_key i)) (doc_record i))"
    using db'(4) [rule_format, OF i] db1(3) by simp
  moreover have "stored db' (doc_key j) = Some (bins_after (stored db (doc_key j)) (doc_record j))" if "j \<in> set is" for j
    using db'(3) [rule_format, OF that] db1(3) Cons.prems(2) that by (auto simp: doc_key_inj)
  moreover have "stored db' k = stored db k" if "k \<notin> doc_key ` set (i # is)" for k
    using db'(4) [rule_format, of k] db1(3) that by auto
  ultimately show ?case using db1(1) db'(1,2) by auto
qed simp

lemma count_errors_run:
  assumes laws: "kv_laws kv healthy stored" and "healthy db"
  shows "\<exists>db'. count_errors kv bad is db n = (db', n + length (filter (is_bad bad (stored db)) is)) \<and> healthy db' \<and> stored db' = stored db"
  using assms(2)
proof (induction "is" arbitrary: db n)
  case (Cons i "is")
  obtain db1 r where g: "kv_get kv db (doc_key i) = (db1, r)" by (cases "kv_get kv db (doc_key i)")
  with kv_law_get [OF laws Cons.prems, of "doc_key i"] have db1: "healthy db1" "stored db1 = stored db"
    and r: "case stored db (doc_key i) of Some x \<Rightarrow> r = Inr x | None \<Rightarrow> isl r" by (simp_all cong: option.case_cong)
  have "(case bindE r (bad i) of Inr False \<Rightarrow> n | _ \<Rightarrow> n + 1) = n + (if is_bad bad (stored db) i then 1 else 0)"
  proof (cases "stored db (doc_key i)")
    case None
    with r obtain e where "r = Inl e" by (auto simp: isl_def)
    with None show ?thesis by (simp add: is_bad_def)
  next
    case (Some x)
    with r show ?thesis by (cases "bad i x") (auto simp: is_bad_def split: bool.splits)
  qed
  with g Cons.IH [OF db1(1), of "n + (if is_bad bad (stored db) i then 1 else 0)"] db1 show ?case by auto
qed simp

lemma fdiv_count: "t \<noteq> FFin 0 \<Longrightarrow> \<exists>x. ops_per_second t = Inr x"
  unfolding ops_per_second_def by (cases t) auto

lemma good_record:
  "doc_mismatch i (bins_after old (doc_record i)) = Inr False" "id_mismatch i (bins_after old (doc_record i)) = Inr False"
  by (cases old; simp add: doc_mismatch_def id_mismatch_def kv_bin_def doc_record_def bins_after_def)+

lemma no_errors:
  assumes "\<forall>i\<in>set is. m (doc_key i) = Some (bins_after (old i) (doc_record i))"
  shows "filter (is_bad doc_mismatch m) is = []" and "filter (is_bad id_mismatch m) is = []"
  using assms by (auto simp: is_bad_def good_record filter_empty_conv)

text \<open>C27: on a client that keeps the key-value laws, and with a clock that advances, the benchmark writes the three
  bins of all 10000 documents (a document that had other bins before keeps them), counts no error,
  and changes no other record; and on any later healthy database that
  still stores the same records the persistence check counts no error either. With a clock that does
  not advance during the writes it raises ZeroDivisionError.\<close>

theorem kv_benchmark_persists:
  assumes laws: "kv_laws kv healthy stored" and "healthy db"
    and "elapsed clock 0 \<noteq> FFin 0" and "elapsed clock 2 \<noteq> FFin 0" and "elapsed stuck 0 = FFin 0"
  shows "\<exists>db'. kv_benchmark kv clock db = (db', Inr 0) \<and> healthy db' \<and>
      (\<forall>i<record_count. stored db' (doc_key i) = Some (bins_after (stored db (doc_key i)) (doc_record i))) \<and>
      (\<forall>k. (\<forall>i<record_count. k \<noteq> doc_key i) \<longrightarrow> stored db' k = stored db k) \<and>
      (\<forall>later. healthy later \<longrightarrow> stored later = stored db' \<longrightarrow> snd (verify_persistance kv later) = Inr 0) \<and>
      snd (kv_benchmark kv stuck db) = Inl ZeroDivisionError"
proof -
  let ?is = "[0..<record_count]"
  from kv_law_connect [OF laws assms(2)] obtain db1 where db1: "kv_connect kv db = (db1, Inr ())" "healthy db1" "stored db1 = stored db" by blast
  from put_all_run [OF laws db1(2), of ?is, OF distinct_upt] obtain db2 where db2: "put_all kv ?is db1 = (db2, Inr ())" "healthy db2"
    and st: "\<forall>i\<in>set ?is. stored db2 (doc_key i) = Some (bins_after (stored db1 (doc_key i)) (doc_record i))" "\<forall>k. k \<notin> doc_key ` set ?is \<longrightarrow> stored db2 k = stored db1 k" by blast
  from count_errors_run [OF laws db2(2), of doc_mismatch ?is 0] no_errors(1) [OF st(1)] obtain db3 where
    db3: "count_errors kv doc_mismatch ?is db2 0 = (db3, 0)" "healthy db3" "stored db3 = stored db2" by auto
  from fdiv_count [OF assms(3)] fdiv_count [OF assms(4)] obtain x y where "ops_per_second (elapsed clock 0) = Inr x" "ops_per_second (elapsed clock 2) = Inr y" by blast
  then have run: "kv_benchmark kv clock db = (db3, Inr 0)" using db1(1) db2(1) db3(1) by (simp add: kv_benchmark_def)
  have "snd (verify_persistance kv later) = Inr 0" if later: "healthy later" "stored later = stored db3" for later
  proof -
    from kv_law_connect [OF laws later(1)] obtain l1 where l1: "kv_connect kv later = (l1, Inr ())" "healthy l1" "stored l1 = stored later" by blast
    have "\<forall>i\<in>set ?is. stored l1 (doc_key i) = Some (bins_after (stored db1 (doc_key i)) (doc_record i))" using st(1) by (simp add: l1(3) later(2) db3(3))
    from count_errors_run [OF laws l1(2), of id_mismatch ?is 0] no_errors(2) [OF this] l1(1) show ?thesis
      by (auto simp: verify_persistance_def)
  qed
  moreover have "stored db3 k = stored db k" if "\<forall>i<record_count. k \<noteq> doc_key i" for k
  proof -
    have "k \<notin> doc_key ` set ?is" using that by auto
    from st(2) [rule_format, OF this] show ?thesis by (simp only: db3(3) db1(3))
  qed
  moreover have "snd (kv_benchmark kv stuck db) = Inl ZeroDivisionError"
    using db1(1) db2(1) assms(5) by (simp add: kv_benchmark_def ops_per_second_def)
  ultimately show ?thesis using run db3(2,3) st(1) db1(3) by auto
qed

text \<open>C28: the persistence check reports exactly the number of the 10000 documents that are missing or whose
  \<open>vector_id\<close> is absent or wrong; a damaged payload alone is not counted.\<close>

theorem verify_persistance_counts:
  assumes laws: "kv_laws kv healthy stored" and "healthy db"
  shows "snd (verify_persistance kv db) = Inr (card {i. i < record_count \<and>
    (case stored db (doc_key i) of None \<Rightarrow> True | Some r \<Rightarrow> r ''vector_id'' \<noteq> Some (KInt (int i)))})"
proof -
  let ?is = "[0..<record_count]"
  from kv_law_connect [OF laws assms(2)] obtain db1 where db1: "kv_connect kv db = (db1, Inr ())" "healthy db1" "stored db1 = stored db" by blast
  from count_errors_run [OF laws db1(2), of id_mismatch ?is 0] obtain db2 where
    c: "count_errors kv id_mismatch ?is db1 0 = (db2, length (filter (is_bad id_mismatch (stored db)) ?is))" by (auto simp: db1(3))
  have bad: "is_bad id_mismatch (stored db) = (\<lambda>i. case stored db (doc_key i) of None \<Rightarrow> True | Some r \<Rightarrow> r ''vector_id'' \<noteq> Some (KInt (int i)))"
    by (auto simp: is_bad_def id_mismatch_def kv_bin_def fun_eq_iff split: option.splits)
  have "length (filter P ?is) = card {i. i < record_count \<and> P i}" for P
    by (subst distinct_card [symmetric]) (auto intro: arg_cong [where f = card])
  with c bad db1(1) show ?thesis by (simp add: verify_persistance_def)
qed

definition map_store :: "(kv_key \<rightharpoonup> kv_record) kv" where
  "map_store = \<lparr>kv_connect = (\<lambda>db. (db, Inr ())), kv_put = (\<lambda>db k r. (db(k \<mapsto> bins_after (db k) r), Inr ())),
     kv_get = (\<lambda>db k. (db, case db k of None \<Rightarrow> Inl (ThirdParty ''RecordNotFound'') | Some r \<Rightarrow> Inr r))\<rparr>"

lemma map_store_laws: "kv_laws map_store (\<lambda>_. True) (\<lambda>db. db)"
  by (auto simp: kv_laws_def map_store_def split: option.splits)

definition tick :: "nat \<Rightarrow> pyfloat" where "tick n = FFin (of_nat (n mod 4))"

text \<open>A database in which one document already has a record with another bin.\<close>

definition old_store :: "kv_key \<rightharpoonup> kv_record" where
  "old_store = [doc_key 3 \<mapsto> [''extra'' \<mapsto> KInt 1, ''vector_id'' \<mapsto> KInt 9]]"

theorem kv_benchmark_persists_witness:
  "\<exists>db'. kv_benchmark map_store tick old_store = (db', Inr 0) \<and> True \<and>
      (\<forall>i<record_count. db' (doc_key i) = Some (bins_after (old_store (doc_key i)) (doc_record i))) \<and>
      (\<forall>k. (\<forall>i<record_count. k \<noteq> doc_key i) \<longrightarrow> db' k = old_store k) \<and>
      (\<forall>later. True \<longrightarrow> later = db' \<longrightarrow> snd (verify_persistance map_store later) = Inr 0) \<and>
      snd (kv_benchmark map_store (\<lambda>_. FFin 1) old_store) = Inl ZeroDivisionError"
proof (rule kv_benchmark_persists [OF map_store_laws])
  show "elapsed tick 0 \<noteq> FFin 0" "elapsed tick 2 \<noteq> FFin 0" "elapsed (\<lambda>_. FFin 1) 0 = FFin 0" by code_simp+
qed simp

theorem verify_persistance_counts_witness:
  "snd (verify_persistance map_store Map.empty) = Inr (card {i. i < record_count \<and>
    (case Map.empty (doc_key i) of None \<Rightarrow> True | Some r \<Rightarrow> r ''vector_id'' \<noteq> Some (KInt (int i)))})"
  by (rule verify_persistance_counts [OF map_store_laws]) simp

end
