(* ===== verification/Ae_Dataset.thy ===== *)
theory Ae_Dataset
  imports Data_Reader
begin

text \<open>
  \<open>Script_AE/generate_dataset.py\<close> and \<open>Script_AE/data_clustering_sift.py\<close>: the first vectors of a data file as a
  file of their own, and the split of a data file by a clustering. A data file is two 32-bit
  integers, the number of rows and the number of bytes of a row, followed by the rows. The files are
  a map from names to bytes; a script gives the files it leaves and its result, or \<open>None\<close> if it never
  ends. The clustering of scikit-learn is an argument.
\<close>

section \<open>Shared operations\<close>

text \<open>\<open>open(args.src, "rb")\<close>: an option that was not given is \<open>None\<close>, which \<open>open\<close> refuses.\<close>

definition open_arg :: "filesys \<Rightarrow> string option \<Rightarrow> bytes result" where
  "open_arg fs name = (case name of None \<Rightarrow> Inl TypeError | Some n \<Rightarrow> open_file fs n)"

definition read_header :: "bytes \<Rightarrow> (int \<times> int \<times> bytes \<times> bytes) result" where
  "read_header c =
     (let (row_bin, f1) = fread 4 c
      in bindE (assertE (row_bin \<noteq> []) AssertionError) (\<lambda>_. bindE (unpack_i row_bin) (\<lambda>row.
           let (dim_bin, f2) = fread 4 f1
           in bindE (assertE (dim_bin \<noteq> []) AssertionError) (\<lambda>_. bindE (unpack_i dim_bin) (\<lambda>vdim.
                Inr (row, vdim, dim_bin, f2))))))"

text \<open>\<open>with open(dst, "wb") as f\<close> and three writes: the file exists, empty, before the header is packed.\<close>

definition write_dataset :: "filesys \<Rightarrow> string option \<Rightarrow> int \<Rightarrow> bytes \<Rightarrow> bytes \<Rightarrow> filesys \<times> unit result" where
  "write_dataset fs dst n dim_bin vecs =
     (case dst of None \<Rightarrow> (fs, Inl TypeError)
      | Some d \<Rightarrow>
         (case pack_i n of Inl e \<Rightarrow> (fs(d \<mapsto> []), Inl e) | Inr h \<Rightarrow> (fs(d \<mapsto> h @ dim_bin @ vecs), Inr ())))"

text \<open>\<open>vecs += f.read(n)\<close> where \<open>vecs\<close> started as \<open>""\<close>: text and bytes do not add in Python 3.\<close>

definition add_text :: "pyver \<Rightarrow> bytes \<Rightarrow> bytes \<Rightarrow> bytes result" where
  "add_text ver vecs chunk = (case ver of Py2 \<Rightarrow> Inr (vecs @ chunk) | Py3 \<Rightarrow> Inl TypeError)"

section \<open>The first vectors\<close>

record gen_args =
  ga_src :: "string option"
  ga_dst :: "string option"
  ga_topk :: "int option"

definition gen_option :: "string \<times> string \<Rightarrow> gen_args \<Rightarrow> gen_args result" where
  "gen_option = (\<lambda>(name, v) a.
     if name = ''--src'' then Inr (a\<lparr>ga_src := Some v\<rparr>)
     else if name = ''--dst'' then Inr (a\<lparr>ga_dst := Some v\<rparr>)
     else if name = ''--topk'' then
       (case py_int v of Inl _ \<Rightarrow> Inl (SystemExit ''2'') | Inr n \<Rightarrow> Inr (a\<lparr>ga_topk := Some n\<rparr>))
     else Inl (SystemExit ''2''))"

definition gen_process_args :: "(string \<times> string) list \<Rightarrow> gen_args result" where
  "gen_process_args argv = forE argv gen_option \<lparr>ga_src = None, ga_dst = None, ga_topk = None\<rparr>"

definition gen_body :: "pyver \<Rightarrow> int \<Rightarrow> int option \<Rightarrow> (bytes \<times> bytes \<times> int, bool) act" where
  "gen_body ver vdim topk = (\<lambda>(rest, vecs, i).
     (case fread vdim rest of (vec, rest') \<Rightarrow>
       (case add_text ver vecs vec of
          Inl e \<Rightarrow> Some ((rest', vecs, i), Inl e)
        | Inr vecs' \<Rightarrow> Some ((rest', vecs', i + 1), Inr (Some (i + 1) \<noteq> topk)))))"

definition generate_dataset :: "pyver \<Rightarrow> gen_args \<Rightarrow> filesys \<Rightarrow> (filesys \<times> unit result) option" where
  "generate_dataset ver args fs =
     (case bindE (open_arg fs (ga_src args)) read_header of
        Inl e \<Rightarrow> Some (fs, Inl e)
      | Inr (row, vdim, dim_bin, rest) \<Rightarrow>
         (case loopA (gen_body ver vdim (ga_topk args)) (rest, [], 0) of
            None \<Rightarrow> None
          | Some (s, Inl e) \<Rightarrow> Some (fs, Inl e)
          | Some ((_, vecs, _), Inr _) \<Rightarrow>
              Some (write_dataset fs (ga_dst args) (case ga_topk args of None \<Rightarrow> 0 | Some n \<Rightarrow> n) dim_bin vecs)))"

section \<open>The split by a clustering\<close>

record cluster_args =
  ca_src :: "string option"
  ca_dst :: "string option"

definition cluster_option :: "string \<times> string \<Rightarrow> cluster_args \<Rightarrow> cluster_args result" where
  "cluster_option = (\<lambda>(name, v) a.
     if name = ''--src'' then Inr (a\<lparr>ca_src := Some v\<rparr>)
     else if name = ''--dst'' then Inr (a\<lparr>ca_dst := Some v\<rparr>)
     else Inl (SystemExit ''2''))"

definition cluster_process_args :: "(string \<times> string) list \<Rightarrow> cluster_args result" where
  "cluster_process_args argv = forE argv cluster_option \<lparr>ca_src = None, ca_dst = None\<rparr>"

text \<open>\<open>struct.unpack('b' * dim, data)\<close>: as many signed bytes as the format asks for, exactly.\<close>

definition unpack_row :: "int \<Rightarrow> bytes \<Rightarrow> int list result" where
  "unpack_row vdim bs = (if length bs = nat vdim then mapE (\<lambda>b. unpack_b [b]) bs else Inl StructError)"

definition read_rows_body :: "int \<Rightarrow> int \<Rightarrow> (bytes \<times> int list list \<times> int, bool) act" where
  "read_rows_body vdim row = (\<lambda>(rest, vecs, i).
     (case fread vdim rest of (chunk, rest') \<Rightarrow>
       (case unpack_row vdim chunk of
          Inl e \<Rightarrow> Some ((rest', vecs, i), Inl e)
        | Inr vec \<Rightarrow> Some ((rest', vecs @ [vec], i + 1), Inr (i + 1 \<noteq> row)))))"

definition read_rows :: "int \<Rightarrow> int \<Rightarrow> bytes \<Rightarrow> int list list result option" where
  "read_rows vdim row rest =
     (case loopA (read_rows_body vdim row) (rest, [], 0) of
        None \<Rightarrow> None | Some (s, Inl e) \<Rightarrow> Some (Inl e) | Some ((_, vecs, _), Inr _) \<Rightarrow> Some (Inr vecs))"

definition select_body :: "pyver \<Rightarrow> int list \<Rightarrow> int \<Rightarrow> int \<Rightarrow> int \<Rightarrow> (bytes \<times> bytes \<times> int \<times> int, bool) act" where
  "select_body ver labels c vdim row = (\<lambda>(rest, vecs, num, j).
     (case py_get labels j of
        Inl e \<Rightarrow> Some ((rest, vecs, num, j), Inl e)
      | Inr l \<Rightarrow>
         (case fread vdim rest of (chunk, rest') \<Rightarrow>
            if l = c then
              (case add_text ver vecs chunk of
                 Inl e \<Rightarrow> Some ((rest', vecs, num, j), Inl e)
               | Inr vecs' \<Rightarrow> Some ((rest', vecs', num + 1, j + 1), Inr (j + 1 \<noteq> row)))
            else Some ((rest', vecs, num, j + 1), Inr (j + 1 \<noteq> row)))))"

text \<open>The rows of one cluster: the file is opened and its header read again. The result is their number, their
  bytes, and the header values, which the code after the loop uses.\<close>

definition select_cluster :: "pyver \<Rightarrow> filesys \<Rightarrow> string option \<Rightarrow> int list \<Rightarrow> int \<Rightarrow> (int \<times> bytes \<times> int \<times> bytes) result option" where
  "select_cluster ver fs src labels c =
     (case bindE (open_arg fs src) read_header of
        Inl e \<Rightarrow> Some (Inl e)
      | Inr (row, vdim, dim_bin, rest) \<Rightarrow>
         (case loopA (select_body ver labels c vdim row) (rest, [], 0, 0) of
            None \<Rightarrow> None
          | Some (s, Inl e) \<Rightarrow> Some (Inl e)
          | Some ((_, vecs, num, _), Inr _) \<Rightarrow> Some (Inr (num, vecs, row, dim_bin))))"

text \<open>The result files: one per cluster, and the file of all, whose loop names the undefined variable \<open>clusers\<close>
  after the header has been written.\<close>

definition cluster_name :: "string option \<Rightarrow> int \<Rightarrow> string result" where
  "cluster_name dst i = (case dst of None \<Rightarrow> Inl TypeError | Some d \<Rightarrow> Inr (d @ str_int i))"

definition write_cluster :: "string option \<Rightarrow> int \<Rightarrow> int \<Rightarrow> bytes \<Rightarrow> bytes \<Rightarrow> filesys \<Rightarrow> filesys \<times> unit result" where
  "write_cluster dst i n dim_bin vecs fs =
     (case cluster_name dst i of Inl e \<Rightarrow> (fs, Inl e) | Inr name \<Rightarrow> write_dataset fs (Some name) n dim_bin vecs)"

definition write_clusters :: "string option \<Rightarrow> int \<times> bytes \<Rightarrow> int \<times> bytes \<Rightarrow> int \<Rightarrow> bytes \<Rightarrow> filesys \<Rightarrow> filesys \<times> unit result" where
  "write_clusters dst c0 c1 row dim_bin fs =
     (case write_cluster dst 0 (fst c0) dim_bin (snd c0) fs of (fs0, Inl e) \<Rightarrow> (fs0, Inl e)
      | (fs0, Inr _) \<Rightarrow>
         (case write_cluster dst 1 (fst c1) dim_bin (snd c1) fs0 of (fs1, Inl e) \<Rightarrow> (fs1, Inl e)
          | (fs1, Inr _) \<Rightarrow>
             (case write_cluster dst 2 row dim_bin [] fs1 of (fs2, Inl e) \<Rightarrow> (fs2, Inl e)
              | (fs2, Inr _) \<Rightarrow> (fs2, Inl NameError))))"

definition data_clustering :: "pyver \<Rightarrow> (int list list \<Rightarrow> int list result) \<Rightarrow> cluster_args \<Rightarrow> filesys \<Rightarrow> (filesys \<times> unit result) option" where
  "data_clustering ver kmeans args fs =
     (case bindE (open_arg fs (ca_src args)) read_header of
        Inl e \<Rightarrow> Some (fs, Inl e)
      | Inr (row, vdim, dim_bin, rest) \<Rightarrow>
         (case read_rows vdim row rest of
            None \<Rightarrow> None
          | Some (Inl e) \<Rightarrow> Some (fs, Inl e)
          | Some (Inr vecs) \<Rightarrow>
             (case bindE (assertE (int (length vecs) = row) AssertionError) (\<lambda>_. kmeans vecs) of
                Inl e \<Rightarrow> Some (fs, Inl e)
              | Inr labels \<Rightarrow>
                 (case select_cluster ver fs (ca_src args) labels 0 of
                    None \<Rightarrow> None
                  | Some (Inl e) \<Rightarrow> Some (fs, Inl e)
                  | Some (Inr (n0, v0, _)) \<Rightarrow>
                     (case select_cluster ver fs (ca_src args) labels 1 of
                        None \<Rightarrow> None
                      | Some (Inl e) \<Rightarrow> Some (fs, Inl e)
                      | Some (Inr (n1, v1, row', dim_bin')) \<Rightarrow>
                          Some (write_clusters (ca_dst args) (n0, v0) (n1, v1) row' dim_bin' fs))))))"

section \<open>Reading the header\<close>

lemma read_header_data:
  assumes "- 2147483648 \<le> row" "row < 2147483648" "- 2147483648 \<le> vdim" "vdim < 2147483648"
  shows "read_header (le_bytes 4 row @ le_bytes 4 vdim @ body) = Inr (row, vdim, le_bytes 4 vdim, body)"
proof -
  have "le_bytes 4 n \<noteq> []" for n by (metis length_le_bytes list.size(3) zero_neq_numeral)
  with assms show ?thesis by (simp add: read_header_def)
qed

lemma fread_dim: "0 \<le> vdim \<Longrightarrow> fread vdim f = (take (nat vdim) f, drop (nat vdim) f)"
  by (simp add: fread_def)

section \<open>What the scripts write\<close>

lemma gen_loop:
  assumes "0 \<le> vdim" and "0 < topk"
  shows "loopA (gen_body Py2 vdim (Some topk)) (body, [], 0) =
    Some ((drop (nat topk * nat vdim) body, take (nat topk * nat vdim) body, topk), Inr ())"
proof -
  define f where "f i = (drop (i * nat vdim) body, take (i * nat vdim) body, int i)" for i
  have "loopA (gen_body Py2 vdim (Some topk)) (f 0) = Some (f (nat topk), Inr ())"
  proof (rule loopA_count)
    fix i assume "i < nat topk"
    moreover have "take (Suc i * nat vdim) body = take (i * nat vdim) body @ take (nat vdim) (drop (i * nat vdim) body)"
      by (simp add: add.commute flip: take_add)
    ultimately show "gen_body Py2 vdim (Some topk) (f i) = Some (f (Suc i), Inr (Suc i \<noteq> nat topk))"
      using assms by (auto simp: gen_body_def f_def fread_dim add_text_def add.commute)
  qed (use assms in simp)
  with assms show ?thesis by (simp add: f_def)
qed

lemma gen_hangs:
  assumes "case topk of None \<Rightarrow> True | Some n \<Rightarrow> n \<le> 0"
  shows "loopA (gen_body Py2 vdim topk) (body, [], 0) = None"
proof (rule loopA_diverges [where P = "\<lambda>(rest, vecs, i). 0 \<le> i"])
  fix s :: "bytes \<times> bytes \<times> int"
  assume "case s of (rest, vecs, i) \<Rightarrow> 0 \<le> i"
  then show "\<exists>s'. gen_body Py2 vdim topk s = Some (s', Inr True) \<and> (case s' of (rest, vecs, i) \<Rightarrow> 0 \<le> i)"
    using assms by (cases s; cases topk) (auto simp: gen_body_def add_text_def split: prod.splits)
qed simp

text \<open>C29: \<open>generate_dataset.py\<close> on a data file, with \<open>dim\<close> not negative. Under Python 2 and with a positive \<open>topk\<close> it
  writes the header (topk, dim) and the first topk rows, or all there are if the file has fewer. With
  a \<open>topk\<close> that is not positive, or not given, it runs for ever. Under Python 3 it raises TypeError and
  writes nothing.\<close>

theorem generate_dataset_prefix:
  assumes "fs src = Some (le_bytes 4 row @ le_bytes 4 vdim @ body)"
    and "- 2147483648 \<le> row" "row < 2147483648" "0 \<le> vdim" "vdim < 2147483648" and "0 < topk" "topk < 2147483648"
    and "case bad of None \<Rightarrow> True | Some n \<Rightarrow> n \<le> 0"
  shows "generate_dataset Py2 \<lparr>ga_src = Some src, ga_dst = Some dst, ga_topk = Some topk\<rparr> fs =
      Some (fs(dst \<mapsto> le_bytes 4 topk @ le_bytes 4 vdim @ take (nat topk * nat vdim) body), Inr ())
    \<and> generate_dataset Py2 \<lparr>ga_src = Some src, ga_dst = Some dst, ga_topk = bad\<rparr> fs = None
    \<and> generate_dataset Py3 \<lparr>ga_src = Some src, ga_dst = dst', ga_topk = bad'\<rparr> fs = Some (fs, Inl TypeError)"
proof (intro conjI)
  have h: "bindE (open_arg fs (Some src)) read_header = Inr (row, vdim, le_bytes 4 vdim, body)"
    using assms(1-5) by (simp add: open_arg_def open_file_def read_header_data)
  show "generate_dataset Py2 \<lparr>ga_src = Some src, ga_dst = Some dst, ga_topk = Some topk\<rparr> fs =
      Some (fs(dst \<mapsto> le_bytes 4 topk @ le_bytes 4 vdim @ take (nat topk * nat vdim) body), Inr ())"
    using assms(4,6,7) by (simp add: generate_dataset_def h gen_loop write_dataset_def pack_i_ok)
  show "generate_dataset Py2 \<lparr>ga_src = Some src, ga_dst = Some dst, ga_topk = bad\<rparr> fs = None"
    using assms(8) by (simp add: generate_dataset_def h gen_hangs)
  have "gen_body Py3 vdim bad' (body, [], 0) = Some ((snd (fread vdim body), [], 0), Inl TypeError)"
    by (simp add: gen_body_def add_text_def split: prod.splits)
  then show "generate_dataset Py3 \<lparr>ga_src = Some src, ga_dst = dst', ga_topk = bad'\<rparr> fs = Some (fs, Inl TypeError)"
    by (simp add: generate_dataset_def h loopA_raise)
qed

theorem generate_dataset_prefix_witness:
  "generate_dataset Py2 \<lparr>ga_src = Some ''a'', ga_dst = Some ''b'', ga_topk = Some 1\<rparr> [''a'' \<mapsto> le_bytes 4 2 @ le_bytes 4 3 @ [1, 2, 3, 4, 5, 6]] =
      Some ([''a'' \<mapsto> le_bytes 4 2 @ le_bytes 4 3 @ [1, 2, 3, 4, 5, 6]](''b'' \<mapsto> le_bytes 4 1 @ le_bytes 4 3 @ take (nat 1 * nat 3) [1, 2, 3, 4, 5, 6]), Inr ())
    \<and> generate_dataset Py2 \<lparr>ga_src = Some ''a'', ga_dst = Some ''b'', ga_topk = Some 0\<rparr> [''a'' \<mapsto> le_bytes 4 2 @ le_bytes 4 3 @ [1, 2, 3, 4, 5, 6]] = None
    \<and> generate_dataset Py3 \<lparr>ga_src = Some ''a'', ga_dst = Some ''b'', ga_topk = Some 1\<rparr> [''a'' \<mapsto> le_bytes 4 2 @ le_bytes 4 3 @ [1, 2, 3, 4, 5, 6]] =
      Some ([''a'' \<mapsto> le_bytes 4 2 @ le_bytes 4 3 @ [1, 2, 3, 4, 5, 6]], Inl TypeError)"
  by (rule generate_dataset_prefix [where row = 2]) simp_all

text \<open>The rows of a file, and those with a given label.\<close>

definition labelled :: "int \<Rightarrow> int list \<Rightarrow> bytes list \<Rightarrow> bytes list" where
  "labelled c labels rows = map snd (filter (\<lambda>(l, r). l = c) (zip labels rows))"

lemma unpack_row_ok: "length bs = nat vdim \<Longrightarrow> \<exists>v. unpack_row vdim bs = Inr v"
proof -
  have "unpack_b [b] \<noteq> Inl e" for b e by (simp add: unpack_b_def unpack_int_def Let_def)
  then have "\<exists>ys. mapE (\<lambda>b. unpack_b [b]) xs = Inr ys" for xs
  proof (induction xs)
    case (Cons x xs)
    then show ?case by (cases "unpack_b [x]") auto
  qed simp
  then show "length bs = nat vdim \<Longrightarrow> \<exists>v. unpack_row vdim bs = Inr v" by (simp add: unpack_row_def)
qed

definition row_values :: "int \<Rightarrow> bytes \<Rightarrow> int list" where
  "row_values vdim bs = (case unpack_row vdim bs of Inr v \<Rightarrow> v | Inl _ \<Rightarrow> [])"

lemma drop_rows:
  assumes "\<forall>r\<in>set rows. length r = d" and "i < length rows"
  shows "take d (concat (drop i rows) @ extra) = rows ! i" and "drop d (concat (drop i rows) @ extra) = concat (drop (Suc i) rows) @ extra"
proof -
  have "drop i rows = rows ! i # drop (Suc i) rows" using assms(2) by (simp add: Cons_nth_drop_Suc)
  moreover have "length (rows ! i) = d" using assms by simp
  ultimately show "take d (concat (drop i rows) @ extra) = rows ! i" and "drop d (concat (drop i rows) @ extra) = concat (drop (Suc i) rows) @ extra" by simp_all
qed

lemma read_rows_file:
  assumes "\<forall>r\<in>set rows. length r = nat vdim" and "0 \<le> vdim" and "rows \<noteq> []"
  shows "read_rows vdim (int (length rows)) (concat rows @ extra) = Some (Inr (map (row_values vdim) rows))"
proof -
  define f where "f i = (concat (drop i rows) @ extra, map (row_values vdim) (take i rows), int i)" for i
  have "loopA (read_rows_body vdim (int (length rows))) (f 0) = Some (f (length rows), Inr ())"
  proof (rule loopA_count)
    fix i assume i: "i < length rows"
    obtain v where v: "unpack_row vdim (rows ! i) = Inr v" using unpack_row_ok [of "rows ! i" vdim] assms(1) i by auto
    show "read_rows_body vdim (int (length rows)) (f i) = Some (f (Suc i), Inr (Suc i \<noteq> length rows))"
      using i v assms(2) by (auto simp: read_rows_body_def f_def fread_dim drop_rows [OF assms(1) i] take_Suc_conv_app_nth row_values_def simp del: take_append drop_append)
  qed (use assms(3) in simp)
  then show ?thesis by (simp add: read_rows_def f_def)
qed

lemma labelled_Suc:
  assumes "i < length rows" and "length labels = length rows"
  shows "labelled c (take (Suc i) labels) (take (Suc i) rows) = labelled c (take i labels) (take i rows) @ (if labels ! i = c then [rows ! i] else [])"
  using assms by (simp add: labelled_def take_Suc_conv_app_nth)

lemma select_loop:
  assumes "\<forall>r\<in>set rows. length r = nat vdim" and "0 \<le> vdim" and "rows \<noteq> []" and "length labels = length rows"
  shows "\<exists>s. loopA (select_body Py2 labels c vdim (int (length rows))) (concat rows @ extra, [], 0, 0) =
    Some ((s, concat (labelled c labels rows), int (length (labelled c labels rows)), int (length rows)), Inr ())"
proof -
  define f where "f i = (concat (drop i rows) @ extra, concat (labelled c (take i labels) (take i rows)), int (length (labelled c (take i labels) (take i rows))), int i)" for i
  have "loopA (select_body Py2 labels c vdim (int (length rows))) (f 0) = Some (f (length rows), Inr ())"
  proof (rule loopA_count)
    fix i assume i: "i < length rows"
    show "select_body Py2 labels c vdim (int (length rows)) (f i) = Some (f (Suc i), Inr (Suc i \<noteq> length rows))"
      using i assms(2,4) by (auto simp: select_body_def f_def fread_dim drop_rows [OF assms(1) i] labelled_Suc add_text_def simp del: take_append drop_append)
  qed (use assms(3) in simp)
  then show ?thesis using assms(4) by (simp add: f_def labelled_def)
qed

text \<open>C30: \<open>data_clustering_sift.py\<close> under Python 2, on a data file of n rows that the clustering labels: the file of
  each of the two clusters gets its number of rows, the dimension, and its rows in their order. The
  file meant for all rows gets only its header, and the script always ends with NameError.\<close>

theorem data_clustering_splits:
  assumes "fs src = Some (le_bytes 4 (int (length rows)) @ le_bytes 4 vdim @ concat rows @ extra)"
    and "\<forall>r\<in>set rows. length r = nat vdim" and "0 \<le> vdim" "vdim < 2147483648" and "rows \<noteq> []" "length rows < 2147483648"
    and "kmeans (map (row_values vdim) rows) = Inr labels" and "length labels = length rows"
    and "r0 = labelled 0 labels rows" and "r1 = labelled 1 labels rows"
  shows "data_clustering Py2 kmeans \<lparr>ca_src = Some src, ca_dst = Some dst\<rparr> fs = Some
    (fs(dst @ ''0'' \<mapsto> le_bytes 4 (int (length r0)) @ le_bytes 4 vdim @ concat r0,
        dst @ ''1'' \<mapsto> le_bytes 4 (int (length r1)) @ le_bytes 4 vdim @ concat r1,
        dst @ ''2'' \<mapsto> le_bytes 4 (int (length rows)) @ le_bytes 4 vdim), Inl NameError)"
proof -
  have h: "bindE (open_arg fs (Some src)) read_header = Inr (int (length rows), vdim, le_bytes 4 vdim, concat rows @ extra)"
    using assms(1,3,4,6) by (simp add: open_arg_def open_file_def read_header_data)
  have small: "length (labelled c labels rows) < 2147483648" for c
  proof -
    have "length (labelled c labels rows) \<le> length (zip labels rows)" unfolding labelled_def by (simp only: length_map length_filter_le)
    with assms(6) show ?thesis by simp
  qed
  have sel: "select_cluster Py2 fs (Some src) labels c =
      Some (Inr (int (length (labelled c labels rows)), concat (labelled c labels rows), int (length rows), le_bytes 4 vdim))" for c
    using select_loop [OF assms(2,3,5,8), of c extra] by (auto simp: select_cluster_def h)
  have names: "str_int 0 = ''0''" "str_int 1 = ''1''" "str_int 2 = ''2''" by code_simp+
  have packs: "pack_i (int (length (labelled c labels rows))) = Inr (le_bytes 4 (int (length (labelled c labels rows))))"
    "pack_i (int (length rows)) = Inr (le_bytes 4 (int (length rows)))" for c
    using small [of c] assms(6) by (simp_all add: pack_i_ok)
  show ?thesis
    by (simp add: data_clustering_def h read_rows_file [OF assms(2,3,5)] assms(7) sel write_clusters_def write_cluster_def cluster_name_def names
        write_dataset_def packs assms(9,10))
qed

theorem data_clustering_splits_witness:
  "data_clustering Py2 (\<lambda>vecs. Inr [1, 0]) \<lparr>ca_src = Some ''a'', ca_dst = Some ''b''\<rparr>
      [''a'' \<mapsto> le_bytes 4 (int (length [[1, 2], [3, 4 :: byte]])) @ le_bytes 4 2 @ concat [[1, 2], [3, 4]] @ []] = Some
    ([''a'' \<mapsto> le_bytes 4 (int (length [[1, 2], [3, 4 :: byte]])) @ le_bytes 4 2 @ concat [[1, 2], [3, 4]] @ []]
      (''b'' @ ''0'' \<mapsto> le_bytes 4 (int (length [[3, 4 :: byte]])) @ le_bytes 4 2 @ concat [[3, 4]],
       ''b'' @ ''1'' \<mapsto> le_bytes 4 (int (length [[1, 2 :: byte]])) @ le_bytes 4 2 @ concat [[1, 2]],
       ''b'' @ ''2'' \<mapsto> le_bytes 4 (int (length [[1, 2], [3, 4 :: byte]])) @ le_bytes 4 2), Inl NameError)"
  by (rule data_clustering_splits [where rows = "[[1, 2], [3, 4]]" and labels = "[1, 0]"]) (simp_all add: labelled_def)

end
