(* ===== verification/Py_Fs.thy ===== *)
theory Py_Fs
  imports Py_Struct "HOL-Library.Sublist"
begin

text \<open>
  The file system as \<open>os\<close> and \<open>shutil\<close> see it below the working directory, on POSIX: a path is the list of its
  components, the empty path is the working directory itself, and a backslash is a character of a
  name. A tree is well formed when whatever is on a path lies in a directory; every operation keeps
  that.
\<close>

datatype node = Dir | File bytes

type_synonym path = "string list"
type_synonym tree = "path \<rightharpoonup> node"

definition is_dir :: "tree \<Rightarrow> path \<Rightarrow> bool" where
  "is_dir t p \<longleftrightarrow> p = [] \<or> t p = Some Dir"

definition path_exists :: "tree \<Rightarrow> path \<Rightarrow> bool" where
  "path_exists t p \<longleftrightarrow> p = [] \<or> t p \<noteq> None"

definition wf_tree :: "tree \<Rightarrow> bool" where
  "wf_tree t \<longleftrightarrow> (\<forall>p. t p \<noteq> None \<longrightarrow> p \<noteq> [] \<and> is_dir t (butlast p))"

section \<open>Operations\<close>

text \<open>\<open>shutil.rmtree(p)\<close>, and with \<open>ignore_errors=True\<close>.\<close>

definition rmtree :: "path \<Rightarrow> tree \<Rightarrow> tree result" where
  "rmtree p t =
     (case t p of None \<Rightarrow> Inl FileNotFoundError | Some (File _) \<Rightarrow> Inl IOErr
      | Some Dir \<Rightarrow> Inr (\<lambda>q. if prefix p q then None else t q))"

definition rmtree_quiet :: "path \<Rightarrow> tree \<Rightarrow> tree" where
  "rmtree_quiet p t = (case rmtree p t of Inl _ \<Rightarrow> t | Inr t' \<Rightarrow> t')"

text \<open>\<open>shutil.copytree(src, dst)\<close> for a new name \<open>dst\<close> in an existing directory.\<close>

definition copytree :: "path \<Rightarrow> path \<Rightarrow> tree \<Rightarrow> tree result" where
  "copytree src dst t =
     (case t src of None \<Rightarrow> Inl FileNotFoundError | Some (File _) \<Rightarrow> Inl IOErr
      | Some Dir \<Rightarrow>
          if path_exists t dst then Inl FileExistsError
          else Inr (\<lambda>q. if prefix dst q then t (src @ drop (length dst) q) else t q))"

definition mkdir :: "path \<Rightarrow> tree \<Rightarrow> tree result" where
  "mkdir p t =
     (if path_exists t p then Inl FileExistsError
      else if \<not> is_dir t (butlast p) then Inl FileNotFoundError
      else Inr (t(p \<mapsto> Dir)))"

text \<open>\<open>open(p, 'w')\<close> and the bytes written before it is closed.\<close>

definition write_new :: "path \<Rightarrow> bytes \<Rightarrow> tree \<Rightarrow> tree result" where
  "write_new p c t =
     (if is_dir t p then Inl IOErr
      else if \<not> path_exists t (butlast p) then Inl FileNotFoundError
      else if \<not> is_dir t (butlast p) then Inl IOErr
      else Inr (t(p \<mapsto> File c)))"

definition read_path :: "path \<Rightarrow> tree \<Rightarrow> bytes result" where
  "read_path p t = (case t p of None \<Rightarrow> if p = [] then Inl IOErr else Inl FileNotFoundError | Some Dir \<Rightarrow> Inl IOErr | Some (File c) \<Rightarrow> Inr c)"

text \<open>\<open>shutil.copy(src, dst)\<close>: into \<open>dst\<close> if that is a directory.\<close>

definition copy_file :: "path \<Rightarrow> path \<Rightarrow> tree \<Rightarrow> tree result" where
  "copy_file src dst t =
     bindE (read_path src t) (\<lambda>c. write_new (if is_dir t dst then dst @ [last src] else dst) c t)"

section \<open>Well-formedness is kept\<close>

lemma wf_treeD: "wf_tree t \<Longrightarrow> t p = Some n \<Longrightarrow> p \<noteq> [] \<and> is_dir t (butlast p)"
  by (auto simp: wf_tree_def)

lemma prefix_butlast: "prefix p (butlast q) \<Longrightarrow> prefix p q"
  using prefix_order.trans prefixeq_butlast by blast

lemma rmtree_wf:
  assumes "wf_tree t" and "rmtree p t = Inr t'"
  shows "wf_tree t'"
proof -
  have t': "t' = (\<lambda>q. if prefix p q then None else t q)" using assms(2) by (auto simp: rmtree_def split: option.splits node.splits)
  show ?thesis
    unfolding wf_tree_def
  proof (intro allI impI)
    fix q assume "t' q \<noteq> None"
    then have q: "\<not> prefix p q" "t q \<noteq> None" by (auto simp: t' split: if_splits)
    with assms(1) have "q \<noteq> [] \<and> is_dir t (butlast q)" by (auto simp: wf_tree_def)
    moreover have "\<not> prefix p (butlast q)" using q(1) prefix_butlast by blast
    ultimately show "q \<noteq> [] \<and> is_dir t' (butlast q)" by (auto simp: is_dir_def t')
  qed
qed

lemma update_wf:
  assumes "wf_tree t" and "p \<noteq> []" and "is_dir t (butlast p)" and "n = Dir \<or> t p \<noteq> Some Dir"
  shows "wf_tree (t(p \<mapsto> n))"
  unfolding wf_tree_def
proof (intro allI impI)
  fix q assume q: "(t(p \<mapsto> n)) q \<noteq> None"
  have ne: "butlast p \<noteq> p" using assms(2) by (metis append_butlast_last_id append_self_conv not_Cons_self2)
  show "q \<noteq> [] \<and> is_dir (t(p \<mapsto> n)) (butlast q)"
  proof (cases "q = p")
    case True
    with assms(2,3) ne show ?thesis by (simp add: is_dir_def)
  next
    case False
    with q obtain m where "t q = Some m" by auto
    from wf_treeD [OF assms(1) this] assms(2,4) show ?thesis by (auto simp: is_dir_def)
  qed
qed

lemma write_new_wf:
  assumes "wf_tree t" and "write_new p c t = Inr t'"
  shows "wf_tree t'"
  using assms update_wf [OF assms(1), of p "File c"] by (auto simp: write_new_def is_dir_def split: if_splits)

lemma mkdir_wf:
  assumes "wf_tree t" and "mkdir p t = Inr t'"
  shows "wf_tree t'"
  using assms update_wf [OF assms(1), of p Dir] by (auto simp: mkdir_def path_exists_def split: if_splits)

lemma copytree_wf:
  assumes "wf_tree t" and "copytree src dst t = Inr t'" and "is_dir t (butlast dst)"
  shows "wf_tree t'"
proof -
  have t': "t' = (\<lambda>q. if prefix dst q then t (src @ drop (length dst) q) else t q)" and src: "t src = Some Dir" and dst: "dst \<noteq> []" "t dst = None"
    using assms(2) by (auto simp: copytree_def path_exists_def split: option.splits node.splits if_splits)
  have no_dst: "\<not> prefix dst (butlast q)" if "\<not> prefix dst q" for q using that prefix_butlast by blast
  show ?thesis
    unfolding wf_tree_def
  proof (intro allI impI)
    fix q assume q: "t' q \<noteq> None"
    show "q \<noteq> [] \<and> is_dir t' (butlast q)"
    proof (cases "prefix dst q")
      case True
      then obtain r where r: "q = dst @ r" by (auto simp: prefix_def)
      show ?thesis
      proof (cases "r = []")
        case True
        have "\<not> prefix dst (butlast dst)" using dst(1) by (metis append_butlast_last_id length_append_singleton not_less_eq_eq prefix_length_le order_refl)
        with True r dst assms(3) show ?thesis by (auto simp: is_dir_def t')
      next
        case False
        have "t (src @ r) \<noteq> None" using q r by (simp add: t')
        then have "is_dir t (butlast (src @ r))" using assms(1) by (auto simp: wf_tree_def)
        then have "is_dir t (src @ butlast r)" using False by (simp add: butlast_append)
        moreover have "src \<noteq> []" using assms(1) src by (auto simp: wf_tree_def)
        ultimately show ?thesis using False r dst by (auto simp: is_dir_def t' butlast_append)
      qed
    next
      case False
      with q assms(1) no_dst [OF False] show ?thesis by (auto simp: wf_tree_def is_dir_def t')
    qed
  qed
qed

lemma copy_file_wf: "wf_tree t \<Longrightarrow> copy_file src dst t = Inr t' \<Longrightarrow> wf_tree t'"
  by (auto simp: copy_file_def bindE_eq_Inr intro: write_new_wf)

lemma rmtree_quiet_wf: "wf_tree t \<Longrightarrow> wf_tree (rmtree_quiet p t)"
  by (auto simp: rmtree_quiet_def intro: rmtree_wf split: sum.splits)

lemmas tree_wf = rmtree_wf write_new_wf mkdir_wf copytree_wf copy_file_wf rmtree_quiet_wf

text \<open>Nothing lies below a path that does not exist.\<close>

lemma absent_below:
  assumes "wf_tree t" and "t p = None" and "p \<noteq> []"
  shows "t (p @ r) = None"
proof (induction r rule: rev_induct)
  case (snoc x r)
  have "is_dir t (p @ r)" if "t (p @ r @ [x]) = Some n" for n
    using wf_treeD [OF assms(1) that] assms(3) by (simp add: butlast_append flip: append_assoc)
  with snoc assms(3) show ?case by (cases "t (p @ r @ [x])") (auto simp: is_dir_def)
qed (simp add: assms(2))

lemma rmtree_quiet_gone:
  assumes "wf_tree t" and "\<forall>c. t p \<noteq> Some (File c)" and "p \<noteq> []" and "prefix p q"
  shows "rmtree_quiet p t q = None"
proof (cases "t p")
  case None
  with assms(4) absent_below [OF assms(1) None assms(3)] show ?thesis by (auto simp: rmtree_quiet_def rmtree_def prefix_def)
next
  case (Some n)
  with assms(2,4) show ?thesis by (cases n) (auto simp: rmtree_quiet_def rmtree_def)
qed

end
