(* ===== verification/Setup_Py.thy ===== *)
theory Setup_Py
  imports Py_Fs Py_Str Py_Inv
begin

text \<open>
  \<open>SPTAG/setup.py\<close> on POSIX: the arguments it adds, the packages it assembles from the build directory, the
  texts of the NuGet specifications, and the commands \<open>build\<close>, \<open>develop\<close> and \<open>clean\<close>. What \<open>setuptools\<close> and the
  super classes of the commands do are arguments. The state is the tree of files. The order in which
  \<open>glob\<close> lists the working directory is an argument as well.
\<close>

record setup_env =
  se_release :: "string option"
  se_nuget :: "string option"
  se_major :: int
  se_minor :: int

text \<open>A literal text in which the two characters that HOL strings have no direct way to write are spelled as
  backquote (for the double quote) and bar (for the backslash); the source has neither.\<close>

definition dq :: "string \<Rightarrow> string" where
  "dq s = map (\<lambda>c. if c = CHR ''`'' then CHR 0x22 else if c = CHR ''|'' then CHR 0x5C else c) s"

definition tree_op :: "(tree \<Rightarrow> tree result) \<Rightarrow> (tree, unit) act" where
  "tree_op f t = (case f t of Inl e \<Rightarrow> Some (t, Inl e) | Inr t' \<Rightarrow> Some (t', Inr ()))"

section \<open>Arguments\<close>

definition starts_with :: "string \<Rightarrow> string \<Rightarrow> bool" where
  "starts_with p s \<longleftrightarrow> take (length p) s = p"

definition setup_argv :: "setup_env \<Rightarrow> string list \<Rightarrow> string list" where
  "setup_argv env argv =
     (if ''bdist_wheel'' \<in> set argv \<and> \<not> (\<exists>a\<in>set argv. starts_with ''--python-tag'' a)
      then argv @ [''--python-tag'', ''py'' @ str_int (se_major env) @ str_int (se_minor env)] else argv)"

section \<open>Packages\<close>

definition sptag_files :: "tree \<Rightarrow> string" where
  "sptag_files t =
     concat (map (\<lambda>fw. if path_exists t [dq ''lib|'' @ fw @ dq ''|Microsoft.ANN.SPTAGManaged.dll''] then
         dq ''<file src=`lib|'' @ fw @ dq ''|Microsoft.ANN.SPTAGManaged.dll` target=`lib|'' @ fw @ dq ''|Microsoft.ANN.SPTAGManaged.dll` />'' @
         dq ''<file src=`lib|'' @ fw @ dq ''|Microsoft.ANN.SPTAGManaged.pdb` target=`lib|'' @ fw @ dq ''|Microsoft.ANN.SPTAGManaged.pdb` />''
       else []) [''net5.0'', ''net472'']) @
     (if path_exists t [dq ''x64|Release|libzstd.dll''] then dq ''<file src=`x64|Release|libzstd.dll` target=`runtimes|win-x64|native|libzstd.dll` />'' else []) @
     (if path_exists t [dq ''x64|Release|Ijwhost.dll''] then dq ''<file src=`x64|Release|Ijwhost.dll` target=`runtimes|win-x64|native|Ijwhost.dll` />'' else []) @
     dq ''<file src=`SPTAG.targets` target=`build|MSSPTAG.Managed.Library.targets` />''"

definition percent_s :: "string option \<Rightarrow> string" where
  "percent_s v = (case v of None \<Rightarrow> ''None'' | Some s \<Rightarrow> s)"

definition text_lines :: "string list \<Rightarrow> string" where
  "text_lines ls = concat (map (\<lambda>l. l @ [nl]) ls)"

definition nuspec_text :: "string \<Rightarrow> string \<Rightarrow> string" where
  "nuspec_text version sfiles = text_lines
     [dq ''<?xml version=`1.0` encoding=`utf-8`?>'',
      dq ''<package xmlns=`http://schemas.microsoft.com/packaging/2011/08/nuspec.xsd`>'',
      ''  <metadata>'',
      ''    <id>MSSPTAG.Managed.Library</id>'',
      ''    <version>'' @ version @ ''</version>'',
      ''    <title>MSSPTAG.Managed.Library</title>'',
      ''    <authors>cheqi,haidwa,mingqli</authors>'',
      ''    <owners>cheqi,haidwa,mingqli</owners>'',
      ''    <requireLicenseAcceptance>false</requireLicenseAcceptance>'',
      ''    <licenseUrl>https://github.com/microsoft/SPTAG</licenseUrl>'',
      ''    <projectUrl>https://github.com/microsoft/SPTAG</projectUrl>'',
      ''    <description>SPTAG (Space Partition Tree And Graph) is a library for large scale vector approximate nearest neighbor search scenario released by Microsoft Research (MSR) and Microsoft Bing.</description>'',
      ''    <copyright>Copyright @ Microsoft</copyright>'',
      ''  </metadata>'',
      ''  <files>'',
      sfiles,
      ''  </files>'',
      ''</package>'']"

definition winrt_text :: "string \<Rightarrow> string" where
  "winrt_text version = text_lines
     [dq ''<?xml version=`1.0` encoding=`utf-8`?>'',
      dq ''<package xmlns=`http://schemas.microsoft.com/packaging/2011/08/nuspec.xsd`>'',
      ''  <metadata>'',
      ''    <id>MSSPTAG.WinRT</id>'',
      ''    <version>'' @ version @ ''</version>'',
      ''    <title>MSSPTAG.WinRT</title>'',
      ''    <authors>cheqi,haidwa,mingqli</authors>'',
      ''    <owners>cheqi,haidwa,mingqli</owners>'',
      ''    <requireLicenseAcceptance>false</requireLicenseAcceptance>'',
      ''    <licenseUrl>https://github.com/microsoft/SPTAG</licenseUrl>'',
      ''    <projectUrl>https://github.com/microsoft/SPTAG</projectUrl>'',
      ''    <description>SPTAG (Space Partition Tree And Graph) is a library for large scale vector approximate nearest neighbor search scenario released by Microsoft Research (MSR) and Microsoft Bing.</description>'',
      ''    <copyright>Copyright @ Microsoft</copyright>'',
      ''    <dependencies>'',
      dq ''      <group targetFramework=`uap10.0`>'',
      dq ''        <dependency id=`Zstandard.dyn.x64` version=`1.4.0` />'',
      ''      </group>'',
      dq ''      <group targetFramework=`native`>'',
      dq ''        <dependency id=`Zstandard.dyn.x64` version=`1.4.0` />'',
      ''      </group>'',
      ''    </dependencies>'',
      ''  </metadata>'',
      ''  <files>'',
      dq ''    <file src=`Wrappers|WinRT|SPTAG.WinRT.targets` target=`build|native` />'',
      dq ''    <file src=`x64|Release|SPTAG.WinRT|SPTAG.winmd` target=`lib|uap10.0` />'',
      dq ''    <file src=`x64|Release|SPTAG.WinRT|SPTAG.dll` target=`runtimes|win10-x64|native` />'',
      dq ''    <file src=`readme.md` />'',
      dq ''    <file src=`LICENSE` />'',
      ''  </files>'',
      ''</package>'']"

definition unless_exists :: "path \<Rightarrow> (tree, unit) act \<Rightarrow> (tree, unit) act" where
  "unless_exists p m = bindA (getsA (\<lambda>t. path_exists t p)) (\<lambda>b. whenA (\<not> b) m)"

definition net472 :: string where "net472 = dq ''lib|net472''"

text \<open>The branch for a Windows build tree. On POSIX the pattern of \<open>glob\<close>, which has doubled backslashes, selects
  names of the working directory.\<close>

definition nuget_part :: "setup_env \<Rightarrow> (tree \<Rightarrow> string list) \<Rightarrow> (tree, unit) act" where
  "nuget_part env listing =
     seqA (tree_op (copytree [''x64'', ''Release''] [''sptag'']))
    (seqA (unless_exists [''lib''] (tree_op (mkdir [''lib''])))
    (seqA (unless_exists [net472] (tree_op (mkdir [net472])))
    (seqA (bindA (getsA listing) (\<lambda>names.
        forA (filter (starts_with (dq ''x64||Release||Microsoft.ANN.SPTAGManaged.'')) names)
          (\<lambda>file. tree_op (copy_file [file] [net472 @ dq ''|'']))))
    (bindA (getsA sptag_files) (\<lambda>sfiles.
       seqA (tree_op (write_new [''sptag.nuspec''] (as_bytes (nuspec_text (percent_s (se_nuget env)) sfiles))))
         (tree_op (write_new [''sptag.winrt.nuspec''] (as_bytes (winrt_text (percent_s (se_nuget env)))))))))))"

definition find_python_packages :: "setup_env \<Rightarrow> (tree \<Rightarrow> string list) \<Rightarrow> (tree, string list) act" where
  "find_python_packages env listing =
     bindA (getsA (\<lambda>t. path_exists t [''sptag''])) (\<lambda>stale.
     seqA (whenA stale (tree_op (rmtree [''sptag''])))
    (bindA (getsA (\<lambda>t. path_exists t [''Release''])) (\<lambda>linux.
     bindA (getsA (\<lambda>t. path_exists t [''x64'', ''Release''])) (\<lambda>windows.
     seqA (if linux then tree_op (copytree [''Release''] [''sptag'']) else if windows then nuget_part env listing else ret ())
    (seqA (tree_op (write_new [''sptag'', ''__init__.py''] []))
    (ret [''sptag'']))))))"

section \<open>Setup and its commands\<close>




definition version_text :: "string \<Rightarrow> bytes" where
  "version_text v = as_bytes (''__version__ = '' @ [CHR 0x27] @ v @ [CHR 0x27])"

definition Build_run :: "setup_env \<Rightarrow> (tree, unit) act \<Rightarrow> (tree, unit) act" where
  "Build_run env super =
     (if se_release env = None \<or> se_release env = Some [] then raiseA (SystemExit (dq ''Please set environment variable `SPTAG_RELEASE=<release_version>`''))
      else seqA (tree_op (write_new [''sptag'', ''version.py''] (version_text (percent_s (se_release env))))) super)"

definition Develop_run :: "(tree, unit) act \<Rightarrow> (tree, unit) act" where
  "Develop_run super = seqA (tree_op (write_new [''sptag'', ''version.py''] (version_text ''0.0.0.dev''))) super"

record clean_cmd =
  cc_all :: bool
  cc_all_saved :: bool

definition Clean_finalize_options :: "(clean_cmd \<Rightarrow> clean_cmd) \<Rightarrow> clean_cmd \<Rightarrow> clean_cmd" where
  "Clean_finalize_options super c = super (c\<lparr>cc_all_saved := cc_all c, cc_all := True\<rparr>)"

definition Clean_run :: "(tree, unit) act \<Rightarrow> clean_cmd \<Rightarrow> (tree, unit) act" where
  "Clean_run super c =
     seqA super (seqA (modifyA (rmtree_quiet [''sptag.egg-info'']))
       (whenA (cc_all_saved c) (modifyA (rmtree_quiet [''dist'']))))"

section \<open>Properties\<close>

text \<open>Actions that keep the tree well formed, whether they raise or not.\<close>

abbreviation keeps_wf :: "(tree, 'a) act \<Rightarrow> bool" where
  "keeps_wf m \<equiv> preserves UNIV wf_tree m"

lemma keeps_wf_op: "(\<And>t t'. wf_tree t \<Longrightarrow> f t = Inr t' \<Longrightarrow> wf_tree t') \<Longrightarrow> keeps_wf (tree_op f)"
  by (auto simp: preserves_def tree_op_def split: sum.splits)

lemma keeps_wf_copytree: "keeps_wf (tree_op (copytree src [n]))"
  by (rule keeps_wf_op) (auto intro: copytree_wf simp: is_dir_def)

lemmas keeps_wf_ops = keeps_wf_op [OF rmtree_wf] keeps_wf_op [OF write_new_wf] keeps_wf_op [OF mkdir_wf] keeps_wf_op [OF copy_file_wf] keeps_wf_copytree

lemma find_python_packages_keeps: "keeps_wf (find_python_packages env listing)"
  unfolding find_python_packages_def nuget_part_def unless_exists_def
  by (intro preserves_rules keeps_wf_ops; assumption)

text \<open>\<open>_find_python_packages\<close> of \<open>setup.py\<close> and the commands \<open>build\<close>, \<open>develop\<close> and \<open>clean\<close> leave a well-formed tree behind,
  every file and directory in a directory, whether they return or raise, if what they inherit does.\<close>

lemma setup_keeps_tree:
  assumes "wf_tree t" and "\<forall>u u' r. wf_tree u \<longrightarrow> super u = Some (u', r) \<longrightarrow> wf_tree u'"
    and "find_python_packages env listing t = Some (t1, r1) \<or> Build_run env super t = Some (t1, r2) \<or>
      Develop_run super t = Some (t1, r2) \<or> Clean_run super c t = Some (t1, r2)"
  shows "wf_tree t1"
proof -
  have super: "keeps_wf super" using assms(2) by (auto simp: preserves_def split: sum.splits)
  have "keeps_wf (Build_run env super)" "keeps_wf (Develop_run super)"
    unfolding Build_run_def Develop_run_def by (intro preserves_rules keeps_wf_ops super; assumption)+
  moreover have "keeps_wf (Clean_run super c)"
    unfolding Clean_run_def by (intro preserves_rules preserves_modifyA rmtree_quiet_wf super; assumption)
  ultimately show ?thesis
    using assms(1,3) find_python_packages_keeps [of env listing] by (elim disjE) (erule (2) preserves_all)+
qed

section \<open>What the package directory holds\<close>

lemma stale_removed:
  assumes "\<forall>c. t [''sptag''] \<noteq> Some (File c)" and "wf_tree t"
  shows "\<exists>t1. (\<forall>m. seqA (whenA (path_exists t [''sptag'']) (tree_op (rmtree [''sptag'']))) m t = (m :: (tree, 'a) act) t1) \<and>
    (\<forall>r. t1 (''sptag'' # r) = None) \<and> (\<forall>q. take 1 q \<noteq> [''sptag''] \<longrightarrow> t1 q = t q)"
proof (cases "t [''sptag'']")
  case None
  have none: "t (''sptag'' # r) = None" for r
  proof (induction r rule: rev_induct)
    case (snoc x r)
    have "is_dir t (''sptag'' # r)" if "t (''sptag'' # r @ [x]) = Some n" for n using wf_treeD [OF assms(2) that] by (simp add: butlast_append)
    with snoc show ?case by (cases "t (''sptag'' # r @ [x])") (auto simp: is_dir_def)
  qed (rule None)
  with None assms(2) show ?thesis by (intro exI [of _ t]) (simp add: path_exists_def whenA_def)
next
  case (Some n)
  then have n: "t [''sptag''] = Some Dir" using assms(1) by (cases n) auto
  define t1 where "t1 = (\<lambda>q. if prefix [''sptag''] q then None else t q)"
  have rm: "rmtree [''sptag''] t = Inr t1" by (simp add: rmtree_def n t1_def)
  have "take 1 q = [''sptag'']" if "prefix [''sptag''] q" for q using that by (cases q) auto
  with rm rmtree_wf [OF assms(2) rm] n show ?thesis
    by (intro exI [of _ t1]) (auto simp: path_exists_def tree_op_def bindA_def t1_def)
qed

text \<open>Assembling the package, with a \<open>Release\<close> directory and without any build.\<close>

lemma find_python_packages_run:
  assumes "wf_tree t" and "\<forall>c. t [''sptag''] \<noteq> Some (File c)" and "t [''Release'', ''__init__.py''] \<noteq> Some Dir"
    and "t [''Release''] = Some Dir \<or> (t [''Release''] = None \<and> t [''x64'', ''Release''] = None)"
  shows "\<exists>t'. (if t [''Release''] = Some Dir then
        find_python_packages env listing t = Some (t', Inr [''sptag'']) \<and>
        (\<forall>r. t' (''sptag'' # r) = (if r = [''__init__.py''] then Some (File []) else t (''Release'' # r)))
      else find_python_packages env listing t = Some (t', Inl FileNotFoundError) \<and> (\<forall>r. t' (''sptag'' # r) = None)) \<and>
    (\<forall>q. take 1 q \<noteq> [''sptag''] \<longrightarrow> t' q = t q)"
proof -
  from stale_removed [OF assms(2,1)] obtain t1 where
    run: "\<forall>m. seqA (whenA (path_exists t [''sptag'']) (tree_op (rmtree [''sptag'']))) m t = (m :: (tree, string list) act) t1"
    and t1: "\<forall>r. t1 (''sptag'' # r) = None" "\<forall>q. take 1 q \<noteq> [''sptag''] \<longrightarrow> t1 q = t q" by blast
  have rel: "t1 (''Release'' # r) = t (''Release'' # r)" "t1 (''x64'' # r) = t (''x64'' # r)" for r using t1(2) by simp_all
  have rest: "find_python_packages env listing t =
      seqA (if path_exists t1 [''Release''] then tree_op (copytree [''Release''] [''sptag''])
            else if path_exists t1 [''x64'', ''Release''] then nuget_part env listing else ret ())
       (seqA (tree_op (write_new [''sptag'', ''__init__.py''] [])) (ret [''sptag''])) t1"
    unfolding find_python_packages_def by (simp add: run [rule_format] del: seqA_run)
  show ?thesis
  proof (cases "t [''Release''] = Some Dir")
    case True
    define t2 where "t2 = (\<lambda>q. if prefix [''sptag''] q then t1 ([''Release''] @ drop (length [''sptag'']) q) else t1 q)"
    have copy: "copytree [''Release''] [''sptag''] t1 = Inr t2"
      using True t1(1) rel(1) [of "[]"] by (simp add: copytree_def path_exists_def t2_def)
    have init: "write_new [''sptag'', ''__init__.py''] [] t2 = Inr (t2([''sptag'', ''__init__.py''] \<mapsto> File []))"
      using True assms(3) rel(1) by (simp add: write_new_def is_dir_def path_exists_def t2_def)
    have "find_python_packages env listing t = Some (t2([''sptag'', ''__init__.py''] \<mapsto> File []), Inr [''sptag''])"
      unfolding rest using True rel(1) [of "[]"] by (simp add: path_exists_def tree_op_def bindA_def copy init)
    moreover have "take 1 q = [''sptag'']" if "prefix [''sptag''] q" for q using that by (cases q) auto
    ultimately show ?thesis
      using True t1(2) rel(1) by (intro exI [of _ "t2([''sptag'', ''__init__.py''] \<mapsto> File [])"]) (auto simp: t2_def)
  next
    case False
    with assms(4) rel(1) [of "[]"] rel(2) [of "[''Release'']"] have "\<not> path_exists t1 [''Release'']" "\<not> path_exists t1 [''x64'', ''Release'']"
      by (auto simp: path_exists_def)
    moreover have "write_new [''sptag'', ''__init__.py''] [] t1 = Inl FileNotFoundError"
      using t1(1) by (simp add: write_new_def is_dir_def path_exists_def)
    ultimately have "find_python_packages env listing t = Some (t1, Inl FileNotFoundError)"
      unfolding rest by (simp add: tree_op_def bindA_def)
    with False t1 show ?thesis by auto
  qed
qed

text \<open>C32: what \<open>_find_python_packages\<close> leaves. With a directory \<open>Release\<close> it returns \<open>['sptag']\<close>, and the directory \<open>sptag\<close> is
  then exactly the tree of \<open>Release\<close> with an empty \<open>__init__.py\<close>, nothing of an earlier \<open>sptag\<close> remains, and
  no other path has changed. With neither \<open>Release\<close> nor \<open>x64/Release\<close> it raises FileNotFoundError after having
  removed the earlier \<open>sptag\<close>.\<close>

theorem find_python_packages_result:
  assumes "wf_tree t" and "\<forall>c. t [''sptag''] \<noteq> Some (File c)" and "t [''Release'', ''__init__.py''] \<noteq> Some Dir"
    and "t [''Release''] = Some Dir \<or> (t [''Release''] = None \<and> t [''x64'', ''Release''] = None)"
  shows "\<exists>t'. (if t [''Release''] = Some Dir then
        find_python_packages env listing t = Some (t', Inr [''sptag'']) \<and>
        (\<forall>r. t' (''sptag'' # r) = (if r = [''__init__.py''] then Some (File []) else t (''Release'' # r)))
      else find_python_packages env listing t = Some (t', Inl FileNotFoundError) \<and> (\<forall>r. t' (''sptag'' # r) = None)) \<and>
    (\<forall>q. take 1 q \<noteq> [''sptag''] \<longrightarrow> t' q = t q)"
  by (rule find_python_packages_run [OF assms])

definition sample_tree :: tree where
  "sample_tree = [[''Release''] \<mapsto> Dir, [''Release'', ''SPTAG.py''] \<mapsto> File [1], [''sptag''] \<mapsto> Dir, [''sptag'', ''old.py''] \<mapsto> File [2]]"

lemma sample_tree_wf: "wf_tree sample_tree"
  by (auto simp: wf_tree_def sample_tree_def is_dir_def split: if_splits)

theorem find_python_packages_result_witness:
  "\<exists>t'. (if sample_tree [''Release''] = Some Dir then
        find_python_packages \<lparr>se_release = None, se_nuget = None, se_major = 3, se_minor = 9\<rparr> (\<lambda>_. []) sample_tree = Some (t', Inr [''sptag'']) \<and>
        (\<forall>r. t' (''sptag'' # r) = (if r = [''__init__.py''] then Some (File []) else sample_tree (''Release'' # r)))
      else find_python_packages \<lparr>se_release = None, se_nuget = None, se_major = 3, se_minor = 9\<rparr> (\<lambda>_. []) sample_tree = Some (t', Inl FileNotFoundError) \<and> (\<forall>r. t' (''sptag'' # r) = None)) \<and>
    (\<forall>q. take 1 q \<noteq> [''sptag''] \<longrightarrow> t' q = sample_tree q)"
  by (rule find_python_packages_result [OF sample_tree_wf]) (simp_all add: sample_tree_def)

section \<open>What setup builds\<close>






text \<open>The arguments and the commands of \<open>setup.py\<close>. A \<open>bdist_wheel\<close> run always has a \<open>--python-tag\<close>, one given by the
  user is never doubled, and adding is idempotent. Without a release \<open>build\<close> exits and changes nothing;
  \<open>clean\<close> removes \<open>sptag.egg-info\<close> always and \<open>dist\<close> exactly if \<open>--all\<close> was asked for, which it forces for the
  inherited command only.\<close>

theorem setup_commands:
  assumes "se_release env = None \<or> se_release env = Some []" and "t [''sptag.egg-info''] = Some Dir" and "t [''dist''] = Some Dir"
  shows "(''bdist_wheel'' \<in> set argv \<longrightarrow> (\<exists>a\<in>set (setup_argv env argv). starts_with ''--python-tag'' a))
    \<and> setup_argv env (setup_argv env argv) = setup_argv env argv
    \<and> ((\<exists>a\<in>set argv. starts_with ''--python-tag'' a) \<longrightarrow> setup_argv env argv = argv)
    \<and> (\<exists>m. Build_run env super t = Some (t, Inl (SystemExit m)))
    \<and> (let c = Clean_finalize_options (\<lambda>c. c) \<lparr>cc_all = every, cc_all_saved = before\<rparr>
       in cc_all c \<and> (\<exists>t'. Clean_run (ret ()) c t = Some (t', Inr ()) \<and> t' [''sptag.egg-info''] = None \<and>
            (t' [''dist''] = None \<longleftrightarrow> every)))"
proof (intro conjI)
  have tag: "starts_with ''--python-tag'' ''--python-tag''" by (simp add: starts_with_def)
  then show "''bdist_wheel'' \<in> set argv \<longrightarrow> (\<exists>a\<in>set (setup_argv env argv). starts_with ''--python-tag'' a)"
    and "setup_argv env (setup_argv env argv) = setup_argv env argv"
    and "(\<exists>a\<in>set argv. starts_with ''--python-tag'' a) \<longrightarrow> setup_argv env argv = argv" by (auto simp: setup_argv_def)
  show "\<exists>m. Build_run env super t = Some (t, Inl (SystemExit m))" using assms(1) by (auto simp: Build_run_def)
  show "let c = Clean_finalize_options (\<lambda>c. c) \<lparr>cc_all = every, cc_all_saved = before\<rparr>
       in cc_all c \<and> (\<exists>t'. Clean_run (ret ()) c t = Some (t', Inr ()) \<and> t' [''sptag.egg-info''] = None \<and> (t' [''dist''] = None \<longleftrightarrow> every))"
    using assms(2,3) by (cases every) (simp_all add: Clean_finalize_options_def Clean_run_def rmtree_quiet_def rmtree_def)
qed

theorem setup_commands_witness:
  "(''bdist_wheel'' \<in> set [''bdist_wheel''] \<longrightarrow> (\<exists>a\<in>set (setup_argv \<lparr>se_release = None, se_nuget = None, se_major = 3, se_minor = 9\<rparr> [''bdist_wheel'']). starts_with ''--python-tag'' a))
    \<and> setup_argv \<lparr>se_release = None, se_nuget = None, se_major = 3, se_minor = 9\<rparr> (setup_argv \<lparr>se_release = None, se_nuget = None, se_major = 3, se_minor = 9\<rparr> [''bdist_wheel'']) =
        setup_argv \<lparr>se_release = None, se_nuget = None, se_major = 3, se_minor = 9\<rparr> [''bdist_wheel'']
    \<and> ((\<exists>a\<in>set [''bdist_wheel'']. starts_with ''--python-tag'' a) \<longrightarrow> setup_argv \<lparr>se_release = None, se_nuget = None, se_major = 3, se_minor = 9\<rparr> [''bdist_wheel''] = [''bdist_wheel''])
    \<and> (\<exists>m. Build_run \<lparr>se_release = None, se_nuget = None, se_major = 3, se_minor = 9\<rparr> (ret ()) [[''sptag.egg-info''] \<mapsto> Dir, [''dist''] \<mapsto> Dir] =
        Some ([[''sptag.egg-info''] \<mapsto> Dir, [''dist''] \<mapsto> Dir], Inl (SystemExit m)))
    \<and> (let c = Clean_finalize_options (\<lambda>c. c) \<lparr>cc_all = True, cc_all_saved = False\<rparr>
       in cc_all c \<and> (\<exists>t'. Clean_run (ret ()) c [[''sptag.egg-info''] \<mapsto> Dir, [''dist''] \<mapsto> Dir] = Some (t', Inr ()) \<and> t' [''sptag.egg-info''] = None \<and>
            (t' [''dist''] = None \<longleftrightarrow> True)))"
  by (rule setup_commands) simp_all

end
