(* ===== verification/Get_Pip.thy ===== *)
theory Get_Pip
  imports Setup_Py
begin

text \<open>
  \<open>SPTAG/get-pip.py\<close> apart from the archive it carries: the version check, the arguments for pip, the default
  certificate, the decoding of the embedded data, and the temporary directory of \<open>main\<close>. The embedded
  data, the environment, \<open>tempfile\<close>, the certificate of pip and what pip itself does are arguments. The
  command line is read by the exact names of the two options; abbreviations of them, \<open>--help\<close> and \<open>--\<close>
  are not modelled.
\<close>

section \<open>Base 85\<close>

definition b85_alphabet :: string where
  "b85_alphabet = ''0123456789ABCDEFGHIJKLMNOPQRSTUVWXYZabcdefghijklmnopqrstuvwxyz!#$%&()*+-;<=>?@^_`{|}~''"

definition b85_digit :: "char \<Rightarrow> nat result" where
  "b85_digit c = (case find (\<lambda>i. b85_alphabet ! i = c) [0..<85] of None \<Rightarrow> Inl ValueError | Some i \<Rightarrow> Inr i)"

definition value85 :: "nat list \<Rightarrow> nat" where
  "value85 ds = foldl (\<lambda>a d. a * 85 + d) 0 ds"

definition be_bytes4 :: "nat \<Rightarrow> bytes" where
  "be_bytes4 n = rev (le_bytes 4 (int n))"

definition b85_chunk :: "string \<Rightarrow> bytes result" where
  "b85_chunk cs = bindE (mapE b85_digit cs) (\<lambda>ds.
     if value85 ds < 4294967296 then Inr (be_bytes4 (value85 ds)) else Inl ValueError)"

function b85_chunks :: "string \<Rightarrow> bytes result" where
  "b85_chunks cs =
     (if cs = [] then Inr []
      else bindE (b85_chunk (take 5 cs)) (\<lambda>w. bindE (b85_chunks (drop 5 cs)) (\<lambda>ws. Inr (w @ ws))))"
  by pat_completeness auto
termination by (relation "measure length") auto

declare b85_chunks.simps [simp del]

text \<open>\<open>base64.b85decode\<close>: pad with the last digit to a multiple of five, and drop as many bytes at the end.\<close>

definition b85decode :: "string \<Rightarrow> bytes result" where
  "b85decode b =
     (let padding = (5 - length b mod 5) mod 5
      in bindE (b85_chunks (b @ replicate padding (CHR ''~''))) (\<lambda>out. Inr (take (length out - padding) out)))"

section \<open>Arguments for pip\<close>

record pip_env =
  pe_version :: "nat \<times> nat"
  pe_environ :: "string \<rightharpoonup> string"
  pe_has_module :: "string \<Rightarrow> bool"
  pe_argv :: "string list"

definition version_less :: "nat \<times> nat \<Rightarrow> nat \<times> nat \<Rightarrow> bool" where
  "version_less a b \<longleftrightarrow> fst a < fst b \<or> (fst a = fst b \<and> snd a < snd b)"

text \<open>\<open>not os.environ.get(name)\<close>: unset or empty.\<close>

definition env_unset :: "pip_env \<Rightarrow> string \<Rightarrow> bool" where
  "env_unset env name \<longleftrightarrow> pe_environ env name = None \<or> pe_environ env name = Some []"

definition include_setuptools :: "pip_env \<Rightarrow> bool \<Rightarrow> bool" where
  "include_setuptools env no_setuptools \<longleftrightarrow>
     \<not> no_setuptools \<and> env_unset env ''PIP_NO_SETUPTOOLS'' \<and> \<not> pe_has_module env ''setuptools'' \<and> version_less (pe_version env) (3, 12)"

definition include_wheel :: "pip_env \<Rightarrow> bool \<Rightarrow> bool" where
  "include_wheel env no_wheel \<longleftrightarrow>
     \<not> no_wheel \<and> env_unset env ''PIP_NO_WHEEL'' \<and> \<not> pe_has_module env ''wheel'' \<and> version_less (pe_version env) (3, 12)"

definition parse_known_args :: "string list \<Rightarrow> bool \<times> bool \<times> string list" where
  "parse_known_args argv =
     (''--no-setuptools'' \<in> set argv, ''--no-wheel'' \<in> set argv,
      filter (\<lambda>a. a \<noteq> ''--no-setuptools'' \<and> a \<noteq> ''--no-wheel'') argv)"

definition determine_pip_install_arguments :: "pip_env \<Rightarrow> string list" where
  "determine_pip_install_arguments env =
     (case parse_known_args (pe_argv env) of (no_setuptools, no_wheel, args) \<Rightarrow>
        [''install'', ''--upgrade'', ''--force-reinstall''] @ args @ [''pip<25.1''] @
        (if include_setuptools env no_setuptools then [''setuptools''] else []) @
        (if include_wheel env no_wheel then [''wheel''] else []))"

section \<open>The run\<close>

record pip_state =
  ps_tree :: tree
  ps_path :: "path list"
  ps_cert :: "path option"

record pip_lib =
  pl_mkdtemp :: "tree \<Rightarrow> path result"
  pl_cacert :: "bytes result"
  pl_main :: "string list \<Rightarrow> (pip_state, int) act"

definition on_tree :: "(tree \<Rightarrow> tree result) \<Rightarrow> (pip_state, unit) act" where
  "on_tree f s = (case f (ps_tree s) of Inl e \<Rightarrow> Some (s, Inl e) | Inr t \<Rightarrow> Some (s\<lparr>ps_tree := t\<rparr>, Inr ()))"

text \<open>The replaced \<open>parse_args\<close> of pip sets the bundled certificate as default if there is none; \<open>ps_cert\<close> is the
  path it would use.\<close>

definition monkeypatch_for_cert :: "pip_lib \<Rightarrow> path \<Rightarrow> (pip_state, unit) act" where
  "monkeypatch_for_cert lib tmpdir =
     seqA (on_tree (write_new (tmpdir @ [''cacert.pem'']) []))
    (bindA (liftE (pl_cacert lib)) (\<lambda>c.
     seqA (on_tree (write_new (tmpdir @ [''cacert.pem'']) c))
       (modifyA (\<lambda>s. s\<lparr>ps_cert := Some (tmpdir @ [''cacert.pem''])\<rparr>))))"

definition cert_parse_args :: "path option \<Rightarrow> path option \<Rightarrow> path option" where
  "cert_parse_args cert_path user_default = (case user_default of None \<Rightarrow> cert_path | Some p \<Rightarrow> Some p)"

definition bootstrap :: "pip_env \<Rightarrow> pip_lib \<Rightarrow> path \<Rightarrow> (pip_state, unit) act" where
  "bootstrap env lib tmpdir =
     seqA (monkeypatch_for_cert lib tmpdir)
       (bindA (pl_main lib (determine_pip_install_arguments env)) (\<lambda>code. raiseA (SystemExit (str_int code))))"

definition finallyA :: "('s, 'a) act \<Rightarrow> ('s \<Rightarrow> 's) \<Rightarrow> ('s, 'a) act" where
  "finallyA m f s = (case m s of None \<Rightarrow> None | Some (s', r) \<Rightarrow> Some (f s', r))"

definition no_newlines :: "string \<Rightarrow> string" where
  "no_newlines d = filter (\<lambda>c. c \<noteq> nl) d"

definition pip_body :: "string \<Rightarrow> pip_env \<Rightarrow> pip_lib \<Rightarrow> path \<Rightarrow> (pip_state, unit) act" where
  "pip_body DATA env lib tmpdir =
     seqA (on_tree (write_new (tmpdir @ [''pip.zip'']) []))
    (bindA (liftE (b85decode (no_newlines DATA))) (\<lambda>z.
     seqA (on_tree (write_new (tmpdir @ [''pip.zip'']) z))
    (seqA (modifyA (\<lambda>s. s\<lparr>ps_path := (tmpdir @ [''pip.zip'']) # ps_path s\<rparr>))
    (bootstrap env lib tmpdir))))"

definition pip_main :: "string \<Rightarrow> pip_env \<Rightarrow> pip_lib \<Rightarrow> (pip_state, unit) act" where
  "pip_main DATA env lib =
     bindA (bindA (getsA ps_tree) (\<lambda>t. liftE (pl_mkdtemp lib t))) (\<lambda>tmpdir.
       finallyA (seqA (modifyA (\<lambda>s. s\<lparr>ps_tree := (ps_tree s)(tmpdir \<mapsto> Dir)\<rparr>)) (pip_body DATA env lib tmpdir))
         (\<lambda>s. s\<lparr>ps_tree := rmtree_quiet tmpdir (ps_tree s)\<rparr>))"

definition get_pip :: "string \<Rightarrow> pip_env \<Rightarrow> pip_lib \<Rightarrow> (pip_state, unit) act" where
  "get_pip DATA env lib =
     (if version_less (pe_version env) (3, 8) then raiseA (SystemExit ''1'') else pip_main DATA env lib)"

section \<open>Decoding what was encoded\<close>

fun digits85 :: "nat \<Rightarrow> nat \<Rightarrow> nat list" where
  "digits85 0 n = []"
| "digits85 (Suc k) n = digits85 k (n div 85) @ [n mod 85]"

definition be_value :: "bytes \<Rightarrow> nat" where
  "be_value bs = nat (le_uint (rev bs))"




lemma length_digits85 [simp]: "length (digits85 k n) = k"
  by (induction k arbitrary: n) simp_all













lemma be_value_zeros [simp]: "be_value (replicate p 0) = 0"
proof -
  have "le_uint (replicate p 0) = 0" by (induction p) simp_all
  then show ?thesis by (simp add: be_value_def)
qed












section \<open>What pip is run on\<close>






section \<open>The temporary directory\<close>

definition keeps :: "('s \<Rightarrow> bool) \<Rightarrow> ('s, 'a) act \<Rightarrow> bool" where
  "keeps P m \<longleftrightarrow> (\<forall>s. P s \<longrightarrow> (\<exists>t r. m s = Some (t, r) \<and> P t))"

lemma keepsD: "keeps P m \<Longrightarrow> P s \<Longrightarrow> \<exists>t r. m s = Some (t, r) \<and> P t"
  by (simp add: keeps_def)

lemma keeps_bindA:
  assumes "keeps P m" and "\<And>x. keeps P (f x)"
  shows "keeps P (bindA m f)"
  unfolding keeps_def
proof (intro allI impI)
  fix s assume "P s"
  from keepsD [OF assms(1) this] obtain t r where m: "m s = Some (t, r)" "P t" by auto
  show "\<exists>t r. bindA m f s = Some (t, r) \<and> P t"
  proof (cases r)
    case (Inr x)
    with m keepsD [OF assms(2) m(2), of x] show ?thesis by (simp add: bindA_def)
  qed (use m in \<open>simp add: bindA_def\<close>)
qed

lemma keeps_seqA: "keeps P m \<Longrightarrow> keeps P n \<Longrightarrow> keeps P (seqA m n)"
  unfolding seqA_def by (rule keeps_bindA)

lemma keeps_pure: "keeps P (liftE x)" "keeps P (raiseA e)"
  by (simp_all add: keeps_def liftE_def raiseA_def)

lemma keeps_modifyA: "(\<And>s. P s \<Longrightarrow> P (f s)) \<Longrightarrow> keeps P (modifyA f)"
  by (simp add: keeps_def modifyA_def)

lemmas keeps_intros = keeps_bindA keeps_seqA keeps_pure keeps_modifyA

text \<open>The invariant of the run: the tree is well formed and the temporary directory has not become a file.\<close>

definition tmp_inv :: "path \<Rightarrow> pip_state \<Rightarrow> bool" where
  "tmp_inv d s \<longleftrightarrow> wf_tree (ps_tree s) \<and> (\<forall>c. ps_tree s d \<noteq> Some (File c))"

lemma tmp_inv_write:
  assumes "p \<noteq> d"
  shows "keeps (tmp_inv d) (on_tree (write_new p c))"
  unfolding keeps_def
proof (intro allI impI)
  fix s assume s: "tmp_inv d s"
  show "\<exists>t r. on_tree (write_new p c) s = Some (t, r) \<and> tmp_inv d t"
  proof (cases "write_new p c (ps_tree s)")
    case (Inr t)
    then have "t = (ps_tree s)(p \<mapsto> File c)" by (auto simp: write_new_def split: if_splits)
    with s assms write_new_wf [OF _ Inr] Inr show ?thesis by (auto simp: on_tree_def tmp_inv_def)
  qed (use s in \<open>simp add: on_tree_def\<close>)
qed

lemma tmp_inv_body:
  assumes "\<And>args. keeps (tmp_inv d) (pl_main lib args)"
  shows "keeps (tmp_inv d) (pip_body DATA env lib d)"
  unfolding pip_body_def bootstrap_def monkeypatch_for_cert_def
  by (intro keeps_intros tmp_inv_write assms) (auto simp: tmp_inv_def)

lemma pip_body_raises: "pip_body DATA env lib d s = Some (t, r) \<Longrightarrow> isl r"
  by (auto simp: pip_body_def bootstrap_def monkeypatch_for_cert_def bindA_def seqA_def raiseA_def split: option.splits prod.splits sum.splits)

lemma pip_main_run:
  assumes "pl_mkdtemp lib (ps_tree s) = Inr d" and "wf_tree (ps_tree s)"
    and fresh: "d \<noteq> []" "ps_tree s d = None" "is_dir (ps_tree s) (butlast d)"
    and pip: "\<And>args. keeps (tmp_inv d) (pl_main lib args)"
  shows "\<exists>t e. pip_main DATA env lib s = Some (t, Inl e) \<and> wf_tree (ps_tree t) \<and> (\<forall>q. prefix d q \<longrightarrow> ps_tree t q = None)"
proof -
  let ?s = "s\<lparr>ps_tree := (ps_tree s)(d \<mapsto> Dir)\<rparr>"
  have "tmp_inv d ?s" using update_wf [OF assms(2) fresh(1,3), of Dir] by (simp add: tmp_inv_def)
  from keepsD [OF tmp_inv_body [OF pip] this] obtain t r where t: "pip_body DATA env lib d ?s = Some (t, r)" "tmp_inv d t" by blast
  from pip_body_raises [OF t(1)] obtain e where e: "r = Inl e" by (cases r) auto
  have "pip_main DATA env lib s = Some (t\<lparr>ps_tree := rmtree_quiet d (ps_tree t)\<rparr>, Inl e)"
    using t(1) by (simp add: pip_main_def assms(1) finallyA_def bindA_def getsA_def liftE_def e)
  moreover have "wf_tree (rmtree_quiet d (ps_tree t))" "\<forall>q. prefix d q \<longrightarrow> rmtree_quiet d (ps_tree t) q = None"
    using t(2) rmtree_quiet_wf rmtree_quiet_gone [OF _ _ fresh(1)] by (auto simp: tmp_inv_def)
  ultimately show ?thesis by simp
qed

text \<open>C34: \<open>get-pip.py\<close> always ends by an exception, \<open>SystemExit\<close> or another, and leaves nothing at or below the temporary
  directory it made: not when the data does not decode, not when the certificate is missing, and whatever
  pip did, provided that \<open>mkdtemp\<close> names a fresh place in an existing directory, and that pip returns,
  leaves a well-formed tree and does not put a file in place of the temporary directory.\<close>

theorem get_pip_cleans:
  assumes "wf_tree (ps_tree s)"
    and "\<And>d. pl_mkdtemp lib (ps_tree s) = Inr d \<Longrightarrow> d \<noteq> [] \<and> ps_tree s d = None \<and> is_dir (ps_tree s) (butlast d)"
    and "\<And>d args. pl_mkdtemp lib (ps_tree s) = Inr d \<Longrightarrow> keeps (tmp_inv d) (pl_main lib args)"
  shows "\<exists>t e. get_pip DATA env lib s = Some (t, Inl e) \<and> wf_tree (ps_tree t) \<and>
      (\<forall>d q. pl_mkdtemp lib (ps_tree s) = Inr d \<longrightarrow> prefix d q \<longrightarrow> ps_tree t q = None)"
proof (cases "version_less (pe_version env) (3, 8)")
  case True
  have "ps_tree s q = None" if "pl_mkdtemp lib (ps_tree s) = Inr d" "prefix d q" for d q
    using assms(2) [OF that(1)] absent_below [OF assms(1), of d] that(2) by (auto simp: prefix_def)
  with True assms(1) show ?thesis by (simp add: get_pip_def raiseA_def)
next
  case False
  show ?thesis
  proof (cases "pl_mkdtemp lib (ps_tree s)")
    case (Inl e)
    with False assms(1) show ?thesis by (simp add: get_pip_def pip_main_def bindA_def getsA_def liftE_def)
  next
    case (Inr d)
    from pip_main_run [OF Inr assms(1) _ _ _ assms(3) [OF Inr]] assms(2) [OF Inr] False Inr show ?thesis by (simp add: get_pip_def)
  qed
qed

definition example_pip :: pip_lib where
  "example_pip = \<lparr>pl_mkdtemp = (\<lambda>t. if t [''tmp1''] = None then Inr [''tmp1''] else Inl FileExistsError), pl_cacert = Inr [1],
     pl_main = (\<lambda>args. getsA (\<lambda>s. if ''wheel'' \<in> set args then 0 else 1))\<rparr>"

definition example_pip_env :: pip_env where
  "example_pip_env = \<lparr>pe_version = (3, 11), pe_environ = Map.empty, pe_has_module = (\<lambda>m. m = ''setuptools''), pe_argv = [''-q'']\<rparr>"

definition example_pip_state :: pip_state where
  "example_pip_state = \<lparr>ps_tree = Map.empty, ps_path = [], ps_cert = None\<rparr>"

theorem get_pip_cleans_witness:
  "\<exists>t e. get_pip ''000'' example_pip_env example_pip example_pip_state = Some (t, Inl e) \<and> wf_tree (ps_tree t) \<and>
      (\<forall>d q. pl_mkdtemp example_pip (ps_tree example_pip_state) = Inr d \<longrightarrow> prefix d q \<longrightarrow> ps_tree t q = None)"
  by (rule get_pip_cleans) (auto simp: example_pip_def example_pip_state_def wf_tree_def is_dir_def keeps_def getsA_def)



end
