(* ===== verification/Nb_Tutorial.thy ===== *)
theory Nb_Tutorial
  imports Py_Fs Py_Str Py_Float "HOL-Library.Multiset"
begin

text \<open>
  \<open>SPTAG/docs/Tutorial.ipynb\<close>, one definition per code cell: metadata, building and saving an index (plain and
  SPANN, with and without a quantizer), searching, scanning with an iterator, reading the quantized
  vectors, and the client of a server. The module SPTAG, the external quantizer program, the client
  and numpy's random vectors are arguments. A cell acts on the tree of files. Console output is not
  modelled; the list of distances that is sorted has no NaN.
\<close>

type_synonym answer = "int list \<times> pyfloat list \<times> bytes list"
type_synonym candidate = "int \<times> pyfloat \<times> bytes"

record ('ix, 'vs, 'q, 'it) ann =
  ann_new :: "string \<Rightarrow> string \<Rightarrow> int \<Rightarrow> 'ix"
  ann_param :: "string \<Rightarrow> string \<Rightarrow> string \<Rightarrow> 'ix \<Rightarrow> 'ix"
  ann_quantizer :: "string \<Rightarrow> 'ix \<Rightarrow> (tree, 'ix \<times> bool) act"
  ann_build :: "'vs \<Rightarrow> string \<Rightarrow> int \<Rightarrow> bool \<Rightarrow> bool \<Rightarrow> 'ix \<Rightarrow> (tree, 'ix \<times> bool) act"
  ann_save :: "string \<Rightarrow> 'ix \<Rightarrow> (tree, unit) act"
  ann_load :: "string \<Rightarrow> tree \<Rightarrow> 'ix result"
  ann_adc :: "bool \<Rightarrow> 'ix \<Rightarrow> 'ix"
  ann_search :: "'q \<Rightarrow> int \<Rightarrow> 'ix \<Rightarrow> answer"
  ann_iterator :: "'q \<Rightarrow> 'ix \<Rightarrow> 'it"
  ann_next :: "int \<Rightarrow> 'it \<Rightarrow> 'it \<times> answer \<times> bool list"

section \<open>Data and index files\<close>

definition vector_number :: int where "vector_number = 1000"
definition vector_dimension :: int where "vector_dimension = 100"

text \<open>The loop \<open>m += str(i) + '\n'\<close>.\<close>

definition metadata_cell :: "int \<Rightarrow> string" where
  "metadata_cell n = foldl (\<lambda>m i. m @ str_int i @ [nl]) [] [0..n - 1]"

definition clear_dir :: "string \<Rightarrow> (tree, unit) act" where
  "clear_dir d = bindA (getsA (\<lambda>t. path_exists t [d])) (\<lambda>b. whenA b (\<lambda>t.
     case rmtree [d] t of Inl e \<Rightarrow> Some (t, Inl e) | Inr t' \<Rightarrow> Some (t', Inr ())))"

definition list_dir :: "string \<Rightarrow> (tree, unit) act" where
  "list_dir d = bindA (getsA (\<lambda>t. t [d])) (\<lambda>n.
     case n of Some Dir \<Rightarrow> ret () | Some (File _) \<Rightarrow> raiseA IOErr | None \<Rightarrow> raiseA FileNotFoundError)"

text \<open>The condition of a build cell, with the quantizer loaded first where there is one.\<close>

definition load_and_build ::
    "('ix, 'vs, 'q, 'it) ann \<Rightarrow> string option \<Rightarrow> 'vs \<Rightarrow> string \<Rightarrow> 'ix \<Rightarrow> (tree, 'ix \<times> bool) act" where
  "load_and_build lib quantizer vs m ix =
     (case quantizer of
        None \<Rightarrow> ann_build lib vs m vector_number False False ix
      | Some qf \<Rightarrow> bindA (ann_quantizer lib qf ix) (\<lambda>(ix', ok).
          if ok then ann_build lib vs m vector_number False False ix' else ret (ix', False)))"

definition build_cell ::
    "('ix, 'vs, 'q, 'it) ann \<Rightarrow> (string \<times> string \<times> string) list \<Rightarrow> string option \<Rightarrow> string \<Rightarrow> 'vs \<Rightarrow> string \<Rightarrow> 'ix \<Rightarrow> (tree, unit) act" where
  "build_cell lib params quantizer d vs m ix =
     seqA (clear_dir d)
    (bindA (load_and_build lib quantizer vs m (fold (\<lambda>(k, v, sec). ann_param lib k v sec) params ix)) (\<lambda>(ix', built).
     seqA (whenA built (ann_save lib d ix')) (list_dir d)))"

definition bkt_cell :: "('ix, 'vs, 'q, 'it) ann \<Rightarrow> 'vs \<Rightarrow> string \<Rightarrow> (tree, unit) act" where
  "bkt_cell lib x m =
     build_cell lib [(''NumberOfThreads'', ''4'', ''Index''), (''DistCalcMethod'', ''L2'', ''Index'')] None ''sptag_index'' x m
       (ann_new lib ''BKT'' ''Float'' vector_dimension)"

definition quan_bkt_cell :: "('ix, 'vs, 'q, 'it) ann \<Rightarrow> 'vs \<Rightarrow> string \<Rightarrow> (tree, unit) act" where
  "quan_bkt_cell lib quan_x m =
     build_cell lib [(''NumberOfThreads'', ''4'', ''Index''), (''DistCalcMethod'', ''L2'', ''Index'')] (Some ''quantizer.bin'') ''quan_sptag_index'' quan_x m
       (ann_new lib ''BKT'' ''UInt8'' (vector_dimension div 2))"

definition spann_params :: "string \<Rightarrow> (string \<times> string \<times> string) list \<Rightarrow> (string \<times> string \<times> string) list" where
  "spann_params d extra =
     [(''IndexAlgoType'', ''BKT'', ''Base''), (''IndexDirectory'', d, ''Base''), (''DistCalcMethod'', ''L2'', ''Base'')] @ extra @
     [(''isExecute'', ''true'', ''SelectHead''), (''NumberOfThreads'', ''4'', ''SelectHead''), (''Ratio'', ''0.2'', ''SelectHead''),
      (''isExecute'', ''true'', ''BuildHead''), (''RefineIterations'', ''3'', ''BuildHead''), (''NumberOfThreads'', ''4'', ''BuildHead''),
      (''isExecute'', ''true'', ''BuildSSDIndex''), (''BuildSsdIndex'', ''true'', ''BuildSSDIndex''),
      (''PostingPageLimit'', ''12'', ''BuildSSDIndex''), (''SearchPostingPageLimit'', ''12'', ''BuildSSDIndex''),
      (''NumberOfThreads'', ''4'', ''BuildSSDIndex''), (''InternalResultNum'', ''32'', ''BuildSSDIndex''),
      (''SearchInternalResultNum'', ''64'', ''BuildSSDIndex'')]"

definition spann_cell :: "('ix, 'vs, 'q, 'it) ann \<Rightarrow> 'vs \<Rightarrow> string \<Rightarrow> (tree, unit) act" where
  "spann_cell lib x m =
     build_cell lib (spann_params ''spann_index'' []) None ''spann_index'' x m (ann_new lib ''SPANN'' ''Float'' vector_dimension)"

definition quan_spann_cell :: "('ix, 'vs, 'q, 'it) ann \<Rightarrow> 'vs \<Rightarrow> string \<Rightarrow> (tree, unit) act" where
  "quan_spann_cell lib quan_x m =
     build_cell lib (spann_params ''spann_quan_index'' [(''QuantizerFilePath'', ''quantizer.bin'', ''Base'')]) (Some ''quantizer.bin'') ''spann_quan_index'' quan_x m
       (ann_new lib ''SPANN'' ''UInt8'' (vector_dimension div 2))"

section \<open>Searching\<close>

definition quan_search_cell :: "('ix, 'vs, 'q, 'it) ann \<Rightarrow> 'q \<Rightarrow> tree \<Rightarrow> answer result" where
  "quan_search_cell lib q t = bindE (ann_load lib ''quan_sptag_index'' t) (\<lambda>ix. Inr (ann_search lib q 12 (ann_adc lib True ix)))"

definition spann_search_cell :: "('ix, 'vs, 'q, 'it) ann \<Rightarrow> 'q \<Rightarrow> tree \<Rightarrow> answer result" where
  "spann_search_cell lib q t = bindE (ann_load lib ''spann_index'' t) (\<lambda>ix. Inr (ann_search lib q 12 ix))"

definition quan_spann_search_cell :: "('ix, 'vs, 'q, 'it) ann \<Rightarrow> 'q \<Rightarrow> tree \<Rightarrow> answer result" where
  "quan_spann_search_cell lib q t = bindE (ann_load lib ''spann_quan_index'' t) (\<lambda>ix. Inr (ann_search lib q 12 (ann_adc lib True ix)))"

text \<open>One batch of the iterator: its candidates, and whether the scan goes on.\<close>

definition batch_candidates :: "answer \<Rightarrow> candidate list result" where
  "batch_candidates = (\<lambda>(ids, ds, ms).
     mapE (\<lambda>j. bindE (py_get ids (int j)) (\<lambda>i. bindE (py_get ds (int j)) (\<lambda>d. bindE (py_get ms (int j)) (\<lambda>b. Inr (i, d, b))))) [0..<length ids])"

definition batch_continues :: "answer \<Rightarrow> bool list \<Rightarrow> bool result" where
  "batch_continues a flags = (if length (fst a) < 10 then Inr False else bindE (py_get flags 0) (\<lambda>b. Inr (\<not> b)))"

definition scan_body :: "('ix, 'vs, 'q, 'it) ann \<Rightarrow> ('it \<times> candidate list, bool) act" where
  "scan_body lib = (\<lambda>(it, results).
     case ann_next lib 10 it of (it', a, flags) \<Rightarrow>
       (case batch_candidates a of
          Inl e \<Rightarrow> Some ((it', results), Inl e)
        | Inr cs \<Rightarrow> Some ((it', results @ cs), batch_continues a flags)))"

definition candidate_key :: "candidate \<Rightarrow> nat \<times> rat" where
  "candidate_key c = frank (fst (snd c))"

text \<open>The cell gives the answer of the search and the sorted candidates of the scan, of which it prints ten.\<close>

definition search_cell :: "('ix, 'vs, 'q, 'it) ann \<Rightarrow> 'q \<Rightarrow> tree \<Rightarrow> (answer \<times> candidate list) result option" where
  "search_cell lib q t =
     (case ann_load lib ''sptag_index'' t of
        Inl e \<Rightarrow> Some (Inl e)
      | Inr ix \<Rightarrow>
          (case loopA (scan_body lib) (ann_iterator lib q ix, []) of
             None \<Rightarrow> None
           | Some (s, Inl e) \<Rightarrow> Some (Inl e)
           | Some ((_, results), Inr _) \<Rightarrow> Some (Inr (ann_search lib q 10 ix, sort_key candidate_key results))))"

section \<open>Quantized vectors\<close>

definition remove_file :: "string \<Rightarrow> (tree, unit) act" where
  "remove_file f t =
     (case t [f] of None \<Rightarrow> Some (t, Inr ()) | Some Dir \<Rightarrow> Some (t, Inl IOErr) | Some (File _) \<Rightarrow> Some (t([f] := None), Inr ()))"

definition quantizer_command :: string where
  "quantizer_command =
     ''Quantizer.exe -d '' @ str_int vector_dimension @ '' -v Float -f DEFAULT -i sptag_index'' @ [CHR 0x5C] @
     ''vectors.bin -o quan_doc_vectors.bin -oq quantizer.bin -qt PQQuantizer -qd '' @ str_int (vector_dimension div 2) @
     '' -ts '' @ str_int vector_number @ '' -norm false''"

text \<open>\<open>np.frombuffer(..., dtype=np.uint8).reshape((r, c))\<close> is the argument \<open>reshape\<close>.\<close>

definition read_quantized :: "(bytes \<Rightarrow> int \<Rightarrow> int \<Rightarrow> 'nd result) \<Rightarrow> bytes \<Rightarrow> 'nd result" where
  "read_quantized reshape f =
     (case fread 4 f of (r_bin, f1) \<Rightarrow> bindE (unpack_i r_bin) (\<lambda>r.
     (case fread 4 f1 of (c_bin, f2) \<Rightarrow> bindE (unpack_i c_bin) (\<lambda>c.
        reshape (fst (fread (r * c) f2)) r c))))"

definition quantize_cell ::
    "(string \<Rightarrow> (tree, unit) act) \<Rightarrow> (bytes \<Rightarrow> int \<Rightarrow> int \<Rightarrow> 'nd result) \<Rightarrow> (tree, 'nd) act" where
  "quantize_cell run reshape =
     seqA (remove_file ''quantizer.bin'')
    (seqA (remove_file ''quan_doc_vectors.bin'')
    (seqA (run quantizer_command)
    (bindA (bindA (getsA (read_path [''quan_doc_vectors.bin''])) liftE) (\<lambda>f. liftE (read_quantized reshape f)))))"

section \<open>Client of a server\<close>

text \<open>The loop that waits for the connection, and the search. The client is its state, the test of the connection
  changes it (time passes).\<close>

record ('cl, 'q) client =
  cl_connected :: "'cl \<Rightarrow> 'cl \<times> bool"
  cl_sleep :: "nat \<Rightarrow> 'cl \<Rightarrow> 'cl"
  cl_timeout :: "nat \<Rightarrow> 'cl \<Rightarrow> 'cl"
  cl_search :: "'q \<Rightarrow> nat \<Rightarrow> string \<Rightarrow> bool \<Rightarrow> 'cl \<Rightarrow> answer result"

definition wait_body :: "('cl, 'q) client \<Rightarrow> ('cl, bool) act" where
  "wait_body c s = (case cl_connected c s of (s', b) \<Rightarrow> if b then Some (s', Inr False) else Some (cl_sleep c 1 s', Inr True))"

definition client_cell :: "('cl, 'q) client \<Rightarrow> 'q \<Rightarrow> ('cl, answer) act" where
  "client_cell c q =
     bindA (loopA (wait_body c)) (\<lambda>_.
     seqA (modifyA (cl_timeout c 18000))
    (bindA (getsA (cl_search c q 3 ''Float'' True)) liftE))"

section \<open>The scan\<close>

definition scan_iter :: "('ix, 'vs, 'q, 'it) ann \<Rightarrow> 'it \<Rightarrow> nat \<Rightarrow> 'it" where
  "scan_iter lib it k = ((\<lambda>i. fst (ann_next lib 10 i)) ^^ k) it"

definition scan_batch :: "('ix, 'vs, 'q, 'it) ann \<Rightarrow> 'it \<Rightarrow> nat \<Rightarrow> answer \<times> bool list" where
  "scan_batch lib it k = snd (ann_next lib 10 (scan_iter lib it k))"

definition candidates :: "answer \<Rightarrow> candidate list" where
  "candidates = (\<lambda>(ids, ds, ms). zip ids (zip ds ms))"

text \<open>What the wrapper documents of a batch: one distance and one metadata per id, a flag with every full batch;
  distances are numbers.\<close>

definition batch_ok :: "answer \<times> bool list \<Rightarrow> bool" where
  "batch_ok = (\<lambda>((ids, ds, ms), flags).
     length ds = length ids \<and> length ms = length ids \<and> (10 \<le> length ids \<longrightarrow> flags \<noteq> []) \<and> FNan \<notin> set ds)"

definition goes_on :: "answer \<times> bool list \<Rightarrow> bool" where
  "goes_on = (\<lambda>((ids, _), flags). 10 \<le> length ids \<and> \<not> flags ! 0)"

lemma batch_candidates_ok:
  assumes "length ds = length ids" and "length ms = length ids"
  shows "batch_candidates (ids, ds, ms) = Inr (candidates (ids, ds, ms))"
proof -
  have "mapE (\<lambda>j. bindE (py_get ids (int j)) (\<lambda>i. bindE (py_get ds (int j)) (\<lambda>d. bindE (py_get ms (int j)) (\<lambda>b. Inr (i, d, b))))) [0..<length ids] =
      Inr (map (\<lambda>j. (ids ! j, ds ! j, ms ! j)) [0..<length ids])"
    by (rule mapE_total) (simp add: assms)
  also have "map (\<lambda>j. (ids ! j, ds ! j, ms ! j)) [0..<length ids] = zip ids (zip ds ms)"
    by (rule nth_equalityI) (simp_all add: assms)
  finally show ?thesis by (simp add: batch_candidates_def candidates_def)
qed

lemma scan_body_step:
  assumes "batch_ok (scan_batch lib it k)"
  shows "scan_body lib (scan_iter lib it k, results) =
     Some ((scan_iter lib it (Suc k), results @ candidates (fst (scan_batch lib it k))), Inr (goes_on (scan_batch lib it k)))"
proof -
  obtain it' ids ds ms flags where b: "ann_next lib 10 (scan_iter lib it k) = (it', (ids, ds, ms), flags)" by (metis prod.exhaust)
  have after: "scan_iter lib it (Suc k) = it'" using b by (simp add: scan_iter_def)
  have ok: "length ds = length ids" "length ms = length ids" "10 \<le> length ids \<longrightarrow> flags \<noteq> []"
    using assms b by (simp_all add: scan_batch_def batch_ok_def)
  have "batch_continues (ids, ds, ms) flags = Inr (goes_on ((ids, ds, ms), flags))"
    using ok(3) by (auto simp: batch_continues_def goes_on_def)
  with batch_candidates_ok [OF ok(1,2)] b show ?thesis by (simp add: scan_body_def scan_batch_def after)
qed

definition scanned :: "('ix, 'vs, 'q, 'it) ann \<Rightarrow> 'it \<Rightarrow> nat \<Rightarrow> candidate list" where
  "scanned lib it n = concat (map (\<lambda>k. candidates (fst (scan_batch lib it k))) [0..<n])"

lemma scan_returns:
  assumes "\<And>k. k \<le> n \<Longrightarrow> batch_ok (scan_batch lib it k)" and "\<And>k. k < n \<Longrightarrow> goes_on (scan_batch lib it k)" and "\<not> goes_on (scan_batch lib it n)"
  shows "loopA (scan_body lib) (it, []) = Some ((scan_iter lib it (Suc n), scanned lib it (Suc n)), Inr ())"
proof -
  have "goes_on (scan_batch lib it k) \<longleftrightarrow> Suc k \<noteq> Suc n" if "k < Suc n" for k using assms(2,3) that by (cases "k = n") auto
  then have "loopA (scan_body lib) (scan_iter lib it 0, scanned lib it 0) = Some ((scan_iter lib it (Suc n), scanned lib it (Suc n)), Inr ())"
    using assms(1) by (intro loopA_count [where f = "\<lambda>k. (scan_iter lib it k, scanned lib it k)"]) (simp_all add: scan_body_step scanned_def)
  then show ?thesis by (simp add: scan_iter_def scanned_def)
qed

lemma scan_diverges:
  assumes "\<And>k. batch_ok (scan_batch lib it k)" and "\<And>k. goes_on (scan_batch lib it k)"
  shows "loopA (scan_body lib) (it, []) = None"
proof (rule loopA_diverges [where P = "\<lambda>(i, _). \<exists>k. i = scan_iter lib it k"])
  show "case (it, []) of (i, _) \<Rightarrow> \<exists>k. i = scan_iter lib it k" by (auto simp: scan_iter_def intro: exI [of _ 0])
next
  fix s :: "'d \<times> candidate list" assume "case s of (i, _) \<Rightarrow> \<exists>k. i = scan_iter lib it k"
  then obtain k rs where "s = (scan_iter lib it k, rs)" by auto
  with scan_body_step [OF assms(1), of k rs] assms(2) [of k]
  show "\<exists>s'. scan_body lib s = Some (s', Inr True) \<and> (case s' of (i, _) \<Rightarrow> \<exists>k. i = scan_iter lib it k)" by auto
qed

lemma mset_scanned: "mset (scanned lib it n) = (\<Sum>k<n. mset (candidates (fst (scan_batch lib it k))))"
  by (induction n) (simp_all add: scanned_def add.commute)

lemma frank_fle: "x \<noteq> FNan \<Longrightarrow> y \<noteq> FNan \<Longrightarrow> frank x \<le> frank y \<Longrightarrow> fle x y"
  by (cases x; cases y) (auto simp: fle_def)

lemma scanned_numbers:
  assumes "\<And>k. k < n \<Longrightarrow> batch_ok (scan_batch lib it k)" and "c \<in> set (scanned lib it n)"
  shows "fst (snd c) \<noteq> FNan"
proof -
  from assms(2) obtain k where k: "k < n" "c \<in> set (candidates (fst (scan_batch lib it k)))" by (auto simp: scanned_def)
  obtain ids ds ms flags where b: "scan_batch lib it k = ((ids, ds, ms), flags)" by (metis prod.exhaust)
  obtain i d m where c: "c = (i, d, m)" by (cases c) auto
  from k(2) b c have "(d, m) \<in> set (zip ds ms)" by (auto simp: candidates_def dest: set_zip_rightD)
  then have "fst (snd c) \<in> set ds" using c by (auto dest: set_zip_leftD)
  with assms(1) [OF k(1)] b show ?thesis by (auto simp: batch_ok_def)
qed

text \<open>C36: the iterator scan of the tutorial. If some batch is shorter than ten or says that the scan may stop, the
  cell returns with the answer of the search and the candidates of all batches up to the first such
  one, none lost and none doubled, in the order of their distances, so that the ten it prints are
  nearest; if there is no such batch it runs for ever.\<close>

theorem search_cell_scan:
  assumes "ann_load lib ''sptag_index'' t = Inr ix" and "it = ann_iterator lib q ix"
    and ok: "\<And>k. (\<forall>j<k. goes_on (scan_batch lib it j)) \<Longrightarrow> batch_ok (scan_batch lib it k)"
  shows "if \<exists>k. \<not> goes_on (scan_batch lib it k) then
      \<exists>n results. search_cell lib q t = Some (Inr (ann_search lib q 10 ix, results)) \<and>
        n = (LEAST k. \<not> goes_on (scan_batch lib it k)) \<and>
        mset results = (\<Sum>k\<le>n. mset (candidates (fst (scan_batch lib it k)))) \<and>
        sorted_wrt (\<lambda>c d. fle (fst (snd c)) (fst (snd d))) results
    else search_cell lib q t = None"
proof (cases "\<exists>k. \<not> goes_on (scan_batch lib it k)")
  case True
  define n where "n = (LEAST k. \<not> goes_on (scan_batch lib it k))"
  have stop: "\<not> goes_on (scan_batch lib it n)" using True unfolding n_def by (rule LeastI_ex)
  have on: "goes_on (scan_batch lib it k)" if "k < n" for k using not_less_Least [OF that [unfolded n_def]] by blast
  have wf: "batch_ok (scan_batch lib it k)" if "k \<le> n" for k using that on by (intro ok) auto
  let ?rs = "sort_key candidate_key (scanned lib it (Suc n))"
  have "search_cell lib q t = Some (Inr (ann_search lib q 10 ix, ?rs))"
    using scan_returns [OF wf on stop] by (simp add: search_cell_def assms(1) flip: assms(2))
  moreover have "mset ?rs = (\<Sum>k\<le>n. mset (candidates (fst (scan_batch lib it k))))"
    using mset_scanned [of lib it "Suc n"] by (simp add: lessThan_Suc_atMost)
  moreover have "sorted_wrt (\<lambda>c d. fle (fst (snd c)) (fst (snd d))) ?rs"
  proof -
    have "sorted_wrt (\<lambda>c d. candidate_key c \<le> candidate_key d) ?rs"
      using sorted_sort_key [of candidate_key] by (simp only: sorted_map)
    then show ?thesis
      by (rule sorted_wrt_mono_rel [rotated])
        (use scanned_numbers [of "Suc n" lib it] wf frank_fle in \<open>auto simp: candidate_key_def less_Suc_eq_le\<close>)
  qed
  ultimately show ?thesis using True n_def by auto
next
  case False
  then have "loopA (scan_body lib) (it, []) = None" by (intro scan_diverges ok) auto
  with False show ?thesis by (simp add: search_cell_def assms(1) flip: assms(2))
qed

text \<open>An index that is the list of its candidates: the iterator hands them out in turn.\<close>

definition unzip3 :: "candidate list \<Rightarrow> answer" where
  "unzip3 cs = (map fst cs, map (\<lambda>c. fst (snd c)) cs, map (\<lambda>c. snd (snd c)) cs)"

definition list_ann :: "candidate list \<Rightarrow> (candidate list, unit, unit, candidate list) ann" where
  "list_ann all_cs = \<lparr>
     ann_new = (\<lambda>_ _ _. []), ann_param = (\<lambda>_ _ _ ix. ix), ann_quantizer = (\<lambda>_ ix. ret (ix, True)),
     ann_build = (\<lambda>_ _ _ _ _ _. ret (all_cs, True)),
     ann_save = (\<lambda>d _ t. Some (t([d] \<mapsto> Dir), Inr ())),
     ann_load = (\<lambda>d t. if t [d] = Some Dir then Inr all_cs else Inl IOErr),
     ann_adc = (\<lambda>_ ix. ix),
     ann_search = (\<lambda>_ k ix. unzip3 (take (nat k) (sort_key candidate_key ix))),
     ann_iterator = (\<lambda>_ ix. ix),
     ann_next = (\<lambda>k it. (drop (nat k) it, unzip3 (take (nat k) it), replicate (length (take (nat k) it)) False))\<rparr>"

lemma list_ann_batch:
  assumes "\<forall>c\<in>set cs. fst (snd c) \<noteq> FNan"
  shows "batch_ok (scan_batch (list_ann cs) cs k)"
proof -
  have it: "scan_iter (list_ann cs) cs k = drop (10 * k) cs"
    by (induction k) (simp_all add: scan_iter_def list_ann_def add.commute)
  have "scan_batch (list_ann cs) cs k = (unzip3 (take 10 (drop (10 * k) cs)), replicate (length (take 10 (drop (10 * k) cs))) False)"
    unfolding scan_batch_def it by (simp add: list_ann_def)
  then show ?thesis
    using assms by (auto simp: unzip3_def batch_ok_def dest!: in_set_takeD in_set_dropD)
qed

definition twelve :: "candidate list" where
  "twelve = map (\<lambda>i. (i, FFin (of_int ((5 * i) mod 12)), [])) [1..12]"

theorem search_cell_scan_witness:
  "if \<exists>k. \<not> goes_on (scan_batch (list_ann twelve) twelve k) then
      \<exists>n results. search_cell (list_ann twelve) () [[''sptag_index''] \<mapsto> Dir] = Some (Inr (ann_search (list_ann twelve) () 10 twelve, results)) \<and>
        n = (LEAST k. \<not> goes_on (scan_batch (list_ann twelve) twelve k)) \<and>
        mset results = (\<Sum>k\<le>n. mset (candidates (fst (scan_batch (list_ann twelve) twelve k)))) \<and>
        sorted_wrt (\<lambda>c d. fle (fst (snd c)) (fst (snd d))) results
    else search_cell (list_ann twelve) () [[''sptag_index''] \<mapsto> Dir] = None"
proof (rule search_cell_scan)
  show "ann_load (list_ann twelve) ''sptag_index'' [[''sptag_index''] \<mapsto> Dir] = Inr twelve" by (simp add: list_ann_def)
  show "twelve = ann_iterator (list_ann twelve) () twelve" by (simp add: list_ann_def)
  show "batch_ok (scan_batch (list_ann twelve) twelve k)" for k by (rule list_ann_batch) (auto simp: twelve_def)
qed

section \<open>Index files and metadata\<close>

lemma metadata_lines:
  assumes "0 \<le> n"
  shows "lines_of (metadata_cell n) = map (\<lambda>i. str_int i @ [nl]) [0..n - 1]"
proof -
  have "foldl (\<lambda>m i. m @ str_int i @ [nl]) a is = a @ concat (map (\<lambda>w. w @ [nl]) (map str_int is))" for a "is"
    by (induction "is" arbitrary: a) simp_all
  moreover have "\<forall>w\<in>set (map str_int [0..n - 1]). nl \<notin> set w" using str_int_no_ws by (fastforce simp: is_ws_def nl_def code_def)
  ultimately show ?thesis using lines_of_rows [of "map str_int [0..n - 1]"] by (simp add: metadata_cell_def comp_def)
qed

lemma clear_dir_run:
  assumes "wf_tree t" and "t [d] = Some Dir \<or> t [d] = None"
  shows "clear_dir d t = Some (\<lambda>p. if prefix [d] p then None else t p, Inr ())"
proof (cases "t [d]")
  case None
  have "t = (\<lambda>p. if prefix [d] p then None else t p)" using absent_below [OF assms(1) None] by (auto simp: prefix_def fun_eq_iff)
  with None show ?thesis by (simp add: clear_dir_def path_exists_def)
next
  case (Some n)
  then have "rmtree [d] t = Inr (\<lambda>p. if prefix [d] p then None else t p)" using assms(2) by (auto simp: rmtree_def)
  with Some show ?thesis by (simp add: clear_dir_def path_exists_def)
qed

text \<open>C37: the build cells of the tutorial. What the index directory held before makes no difference: the run is the
  one from the tree without it, so nothing of an earlier index is mixed into the new one. A cell whose
  quantizer is not loaded or whose build fails raises FileNotFoundError, with the earlier index lost,
  if the build has not made the directory; after a build and a save that made it the cell returns.\<close>

theorem build_cell_fresh:
  assumes "wf_tree t" and "t [d] = Some Dir \<or> t [d] = None"
    and "t0 = (\<lambda>p. if prefix [d] p then None else t p)"
    and "ix0 = fold (\<lambda>(k, v, sec). ann_param lib k v sec) params ix"
  shows "build_cell lib params quantizer d vs m ix t = build_cell lib params quantizer d vs m ix t0 \<and>
    (\<forall>t1 ix'. load_and_build lib quantizer vs m ix0 t0 = Some (t1, Inr (ix', False)) \<and> t1 [d] = None \<longrightarrow>
       build_cell lib params quantizer d vs m ix t = Some (t1, Inl FileNotFoundError)) \<and>
    (\<forall>t1 ix' t2. load_and_build lib quantizer vs m ix0 t0 = Some (t1, Inr (ix', True)) \<and> ann_save lib d ix' t1 = Some (t2, Inr ()) \<and> t2 [d] = Some Dir \<longrightarrow>
       build_cell lib params quantizer d vs m ix t = Some (t2, Inr ()))"
proof -
  have wf0: "wf_tree t0"
  proof (cases "t [d]")
    case None
    have "t0 = t" using absent_below [OF assms(1) None] by (auto simp: assms(3) prefix_def fun_eq_iff)
    with assms(1) show ?thesis by simp
  next
    case (Some n)
    then have "rmtree [d] t = Inr t0" using assms(2,3) by (auto simp: rmtree_def)
    with assms(1) show ?thesis by (rule rmtree_wf)
  qed
  have "(\<lambda>p. if prefix [d] p then None else t0 p) = t0" by (auto simp: assms(3))
  with clear_dir_run [OF wf0, of d] have c0: "clear_dir d t0 = Some (t0, Inr ())" by (simp add: assms(3))
  have c: "clear_dir d t = Some (t0, Inr ())" using clear_dir_run [OF assms(1,2)] by (simp add: assms(3))
  show ?thesis by (auto simp: build_cell_def list_dir_def bindA_run c c0 assms(4))
qed

definition stale_tree :: tree where
  "stale_tree = [[''sptag_index''] \<mapsto> Dir, [''sptag_index'', ''old''] \<mapsto> File [], [''notes''] \<mapsto> File [7]]"

theorem build_cell_fresh_witness:
  "build_cell (list_ann twelve) [] None ''sptag_index'' () [] [] stale_tree =
     Some ([[''notes''] \<mapsto> File [7], [''sptag_index''] \<mapsto> Dir], Inr ())"
proof -
  let ?t0 = "\<lambda>p. if prefix [''sptag_index''] p then None else stale_tree p"
  have wf: "wf_tree stale_tree" by (auto simp: stale_tree_def wf_tree_def is_dir_def)
  have t0: "?t0 = [[''notes''] \<mapsto> File [7]]" by (auto simp: stale_tree_def fun_eq_iff)
  have dir: "stale_tree [''sptag_index''] = Some Dir \<or> stale_tree [''sptag_index''] = None" by (simp add: stale_tree_def)
  have "load_and_build (list_ann twelve) None () [] [] ?t0 = Some (?t0, Inr (twelve, True))" by (simp add: load_and_build_def list_ann_def)
  moreover have "ann_save (list_ann twelve) ''sptag_index'' twelve ?t0 = Some (?t0([''sptag_index''] \<mapsto> Dir), Inr ())" by (simp add: list_ann_def)
  ultimately show ?thesis
    using build_cell_fresh [OF wf dir refl refl, where lib = "list_ann twelve" and params = "[]" and ix = "[]" and quantizer = None and vs = "()" and m = "[]"] by (auto simp: t0)
qed

section \<open>Quantized vectors\<close>

text \<open>The quantized vectors are the rows of the file the quantizer program writes in the default format: two 32-bit
  integers and the rows. A file that is too short for its header raises.\<close>

lemma read_quantized_rows:
  assumes "\<forall>row\<in>set rows. length row = c" and "length rows < 2147483648" and "c < 2147483648"
  shows "read_quantized reshape (le_bytes 4 (int (length rows)) @ le_bytes 4 (int c) @ concat rows @ rest) =
    reshape (concat rows) (int (length rows)) (int c)"
proof -
  have "int (length rows) * int c = int (length (concat rows))"
    using assms(1) by (induction rows) (auto simp: algebra_simps)
  then show ?thesis using assms(2,3) by (simp add: read_quantized_def)
qed

lemma read_quantized_short:
  assumes "length f < 8"
  shows "read_quantized reshape f = Inl StructError"
proof (cases "length f < 4")
  case False
  then obtain r where "unpack_i (take 4 f) = Inr r" using unpack_i_total [of "take 4 f"] by auto
  with assms show ?thesis by (simp add: read_quantized_def)
qed (simp add: read_quantized_def)

text \<open>The client waits as long as the server is not connected.\<close>

lemma client_waits_for_ever:
  assumes "\<And>s. snd (cl_connected c s) = False"
  shows "client_cell c q s = None"
proof -
  have "wait_body c u = Some (cl_sleep c 1 (fst (cl_connected c u)), Inr True)" for u
    using assms [of u] by (cases "cl_connected c u") (simp add: wait_body_def)
  then have "loopA (wait_body c) s = None" by (intro loopA_diverges [where P = "\<lambda>_. True"]) auto
  then show ?thesis by (simp add: client_cell_def bindA_run)
qed

end
