(* ===== verification/Features_Extractor.thy ===== *)
theory Features_Extractor
  imports Py_Str
begin

text \<open>
  \<open>SPTAG/docs/examples/features_extractor.py\<close>: finding image files, padding an image to a square, reading the images
  of one size and computing their embeddings. \<open>glob\<close>, Pillow, numpy and keras are arguments: \<open>pil\<close> has the
  operations on images, of any type, that the file calls, and \<open>keras\<close> the networks. \<open>paste\<close> changes the new
  image, which nothing else refers to, so here it returns the changed image. Names are ASCII.
\<close>

record 'img pil =
  pil_open :: "string \<Rightarrow> 'img result"
  pil_convert :: "string \<Rightarrow> 'img \<Rightarrow> 'img result"
  pil_mode :: "'img \<Rightarrow> string"
  pil_size :: "'img \<Rightarrow> int \<times> int"
  pil_new :: "string \<Rightarrow> int \<times> int \<Rightarrow> int \<Rightarrow> 'img"
  pil_paste :: "'img \<Rightarrow> 'img \<Rightarrow> int \<times> int \<Rightarrow> 'img"
  pil_resize :: "int \<times> int \<Rightarrow> 'img \<Rightarrow> 'img result"

definition get_filenames :: "(string \<Rightarrow> bool \<Rightarrow> string list) \<Rightarrow> string \<Rightarrow> bool \<Rightarrow> string list" where
  "get_filenames glob glob_pattern recursive = glob glob_pattern recursive"

definition expand2square :: "'img pil \<Rightarrow> 'img \<Rightarrow> int \<Rightarrow> 'img" where
  "expand2square lib pil_img background_color =
     (case pil_size lib pil_img of (width, height) \<Rightarrow>
        if width = height then pil_img
        else if width > height then
          pil_paste lib (pil_new lib (pil_mode lib pil_img) (width, width) background_color) pil_img (0, (width - height) div 2)
        else
          pil_paste lib (pil_new lib (pil_mode lib pil_img) (height, height) background_color) pil_img ((height - width) div 2, 0))"

text \<open>The loop of \<open>get_images\<close> and the array it makes; \<open>as_array\<close> is \<open>np.asarray\<close> on the list of images as arrays.\<close>

fun read_images :: "'img pil \<Rightarrow> int \<times> int \<Rightarrow> string \<Rightarrow> int \<Rightarrow> 'img list \<Rightarrow> string list \<Rightarrow> 'img list result" where
  "read_images lib target_size color bg_clr imgs_list [] = Inr imgs_list"
| "read_images lib target_size color bg_clr imgs_list (filename # filenames) =
     bindE (pil_open lib filename) (\<lambda>f.
     bindE (pil_convert lib color f) (\<lambda>img.
     bindE (pil_resize lib target_size (expand2square lib img bg_clr)) (\<lambda>im_res.
       read_images lib target_size color bg_clr (imgs_list @ [im_res]) filenames)))"

definition get_images :: "'img pil \<Rightarrow> ('img list \<Rightarrow> 'nd result) \<Rightarrow> string list \<Rightarrow> int \<times> int \<Rightarrow> string \<Rightarrow> int \<Rightarrow> 'nd result" where
  "get_images lib as_array filenames target_size color bg_clr =
     bindE (read_images lib target_size color bg_clr [] filenames) as_array"

section \<open>Features\<close>

datatype pooling = GlobalAveragePooling2D | GlobalMaxPooling2D
datatype network = ResNet50 | InceptionV3 | VGG19

text \<open>\<open>k_base\<close> is the constructor of a network with the ImageNet weights, without its top and for one image shape;
  \<open>k_output\<close> and \<open>k_pool\<close> the tensors; \<open>k_model\<close> the call of \<open>Model\<close>.\<close>

record ('nd, 'shape, 'net, 'tensor, 'model) keras =
  k_item_shape :: "'nd \<Rightarrow> 'shape result"
  k_base :: "network \<Rightarrow> 'shape \<Rightarrow> 'net result"
  k_output :: "'net \<Rightarrow> 'tensor"
  k_pool :: "pooling \<Rightarrow> 'tensor \<Rightarrow> 'tensor result"
  k_model :: "'net \<Rightarrow> 'tensor \<Rightarrow> 'model result"
  k_preprocess :: "network \<Rightarrow> 'nd \<Rightarrow> 'nd result"
  k_predict :: "'model \<Rightarrow> 'nd \<Rightarrow> 'nd result"

definition create_feat_extractor ::
    "('nd, 'shape, 'net, 'tensor, 'model) keras \<Rightarrow> 'net \<Rightarrow> string \<Rightarrow> 'model result" where
  "create_feat_extractor ks base_model pooling_method =
     (if pooling_method \<notin> {''avg'', ''max''} then Inl AssertionError
      else bindE
        (if pooling_method = ''avg'' then k_pool ks GlobalAveragePooling2D (k_output ks base_model)
         else if pooling_method = ''max'' then k_pool ks GlobalMaxPooling2D (k_output ks base_model)
         else Inr (k_output ks base_model))
        (\<lambda>x. k_model ks base_model x))"

definition network_of :: "string \<Rightarrow> network" where
  "network_of pretrained_model =
     (if pretrained_model = ''resnet50'' then ResNet50 else if pretrained_model = ''inception_v3'' then InceptionV3 else VGG19)"

definition extract_features ::
    "('nd, 'shape, 'net, 'tensor, 'model) keras \<Rightarrow> 'nd \<Rightarrow> string \<Rightarrow> string \<Rightarrow> 'nd result" where
  "extract_features ks imgs_np pretrained_model pooling_method =
     (let pretrained_model = map lower_char pretrained_model in
      if pretrained_model \<notin> {''resnet50'', ''inception_v3'', ''vgg19''} then Inl AssertionError
      else if pooling_method \<notin> {''avg'', ''max''} then Inl AssertionError
      else
        bindE (k_item_shape ks imgs_np) (\<lambda>input_shape.
        bindE (k_base ks (network_of pretrained_model) input_shape) (\<lambda>base.
        bindE (create_feat_extractor ks base pooling_method) (\<lambda>feat_extractor.
        bindE (k_preprocess ks (network_of pretrained_model) imgs_np) (\<lambda>imgs_np.
          k_predict ks feat_extractor imgs_np)))))"

section \<open>Padding\<close>

text \<open>What Pillow documents of \<open>new\<close> and \<open>paste\<close>: a new image has its mode and size and one colour; pasting an image of the same
  mode whose box lies inside changes the pixels of the box and nothing else. (The colours here are numbers the mode
  has; between different modes Pillow would convert.)\<close>

definition pil_laws :: "'img pil \<Rightarrow> ('img \<Rightarrow> int \<times> int \<Rightarrow> int) \<Rightarrow> bool" where
  "pil_laws lib pixel \<longleftrightarrow>
     (\<forall>m s c. pil_mode lib (pil_new lib m s c) = m \<and> pil_size lib (pil_new lib m s c) = s) \<and>
     (\<forall>m w h c x y. 0 \<le> x \<and> x < w \<and> 0 \<le> y \<and> y < h \<longrightarrow> pixel (pil_new lib m (w, h) c) (x, y) = c) \<and>
     (\<forall>r i x y w h wi hi. pil_mode lib i = pil_mode lib r \<and> pil_size lib r = (w, h) \<and> pil_size lib i = (wi, hi) \<and> 0 \<le> x \<and> 0 \<le> y \<and> x + wi \<le> w \<and> y + hi \<le> h \<longrightarrow>
        pil_mode lib (pil_paste lib r i (x, y)) = pil_mode lib r \<and> pil_size lib (pil_paste lib r i (x, y)) = (w, h) \<and>
        (\<forall>a b. 0 \<le> a \<and> a < w \<and> 0 \<le> b \<and> b < h \<longrightarrow>
           pixel (pil_paste lib r i (x, y)) (a, b) = (if x \<le> a \<and> a < x + wi \<and> y \<le> b \<and> b < y + hi then pixel i (a - x, b - y) else pixel r (a, b))))"

lemma pil_paste_laws:
  fixes c :: int
  assumes "pil_laws lib pixel" and "pil_size lib i = (wi, hi)" and "0 \<le> x" and "0 \<le> y" and "x + wi \<le> w" and "y + hi \<le> h"
  defines "m \<equiv> pil_mode lib i"
  defines "p \<equiv> pil_paste lib (pil_new lib m (w, h) c) i (x, y)"
  shows "pil_mode lib p = m" and "pil_size lib p = (w, h)"
    and "0 \<le> a \<Longrightarrow> a < w \<Longrightarrow> 0 \<le> b \<Longrightarrow> b < h \<Longrightarrow>
      pixel p (a, b) = (if x \<le> a \<and> a < x + wi \<and> y \<le> b \<and> b < y + hi then pixel i (a - x, b - y) else c)"
proof -
  have new: "pil_mode lib (pil_new lib m (w, h) c) = m" "pil_size lib (pil_new lib m (w, h) c) = (w, h)"
    "0 \<le> a \<Longrightarrow> a < w \<Longrightarrow> 0 \<le> b \<Longrightarrow> b < h \<Longrightarrow> pixel (pil_new lib m (w, h) c) (a, b) = c"
    using assms(1) unfolding pil_laws_def by simp_all
  have laws: "pil_mode lib p = pil_mode lib (pil_new lib m (w, h) c) \<and> pil_size lib p = (w, h) \<and>
      (\<forall>a b. 0 \<le> a \<and> a < w \<and> 0 \<le> b \<and> b < h \<longrightarrow>
         pixel p (a, b) = (if x \<le> a \<and> a < x + wi \<and> y \<le> b \<and> b < y + hi then pixel i (a - x, b - y) else pixel (pil_new lib m (w, h) c) (a, b)))"
    using assms(1) new(1,2) assms(2-6) unfolding pil_laws_def p_def m_def by simp
  then show "pil_mode lib p = m" "pil_size lib p = (w, h)" using new(1) by simp_all
  show "pixel p (a, b) = (if x \<le> a \<and> a < x + wi \<and> y \<le> b \<and> b < y + hi then pixel i (a - x, b - y) else c)"
    if "0 \<le> a" "a < w" "0 \<le> b" "b < h" using laws new(3) that by auto
qed

lemma half_bounds: "0 \<le> (d :: int) \<Longrightarrow> 0 \<le> d div 2 \<and> 2 * (d div 2) \<le> d \<and> d \<le> 2 * (d div 2) + 1"
  by linarith

text \<open>C35: \<open>expand2square\<close> gives a square image of the same mode whose side is the longer side of the image. The image is in
  it unchanged, at an offset that leaves equal margins on both sides up to one pixel, and every other
  pixel has the background colour.\<close>

theorem expand2square_pads:
  assumes "pil_laws lib pixel" and "pil_size lib img = (w, h)" and "0 \<le> w" and "0 \<le> h"
  shows "\<exists>ox oy. let sq = expand2square lib img bg; n = max w h in
     pil_size lib sq = (n, n) \<and> pil_mode lib sq = pil_mode lib img \<and>
     0 \<le> ox \<and> 0 \<le> oy \<and> (n - w) - 2 * ox \<in> {0, 1} \<and> (n - h) - 2 * oy \<in> {0, 1} \<and>
     (\<forall>a b. 0 \<le> a \<and> a < n \<and> 0 \<le> b \<and> b < n \<longrightarrow>
        pixel sq (a, b) = (if ox \<le> a \<and> a < ox + w \<and> oy \<le> b \<and> b < oy + h then pixel img (a - ox, b - oy) else bg))"
proof -
  consider "w = h" | "h < w" | "w < h" by linarith
  then show ?thesis
  proof cases
    case 1
    then show ?thesis using assms by (intro exI [of _ 0]) (simp add: expand2square_def)
  next
    case 2
    have off: "0 \<le> (w - h) div 2" "(w - h) div 2 + h \<le> w" "(w - h) - 2 * ((w - h) div 2) \<in> {0, 1}" using half_bounds [of "w - h"] 2 by auto
    note paste = pil_paste_laws [OF assms(1,2) order_refl off(1) _ off(2), of w]
    show ?thesis
      using 2 off paste [where c = bg] assms(2)
      by (intro exI [of _ 0] exI [of _ "(w - h) div 2"]) (simp add: expand2square_def Let_def)
  next
    case 3
    have off: "0 \<le> (h - w) div 2" "(h - w) div 2 + w \<le> h" "(h - w) - 2 * ((h - w) div 2) \<in> {0, 1}" using half_bounds [of "h - w"] 3 by auto
    note paste = pil_paste_laws [OF assms(1,2) off(1) order_refl off(2), of h]
    show ?thesis
      using 3 off paste [where c = bg] assms(2)
      by (intro exI [of _ "(h - w) div 2"] exI [of _ 0]) (simp add: expand2square_def Let_def)
  qed
qed

text \<open>A raster: mode, size and the pixels, as an instance of the operations.\<close>

type_synonym raster = "string \<times> (int \<times> int) \<times> (int \<times> int \<Rightarrow> int)"

definition raster_pil :: "(string \<rightharpoonup> raster) \<Rightarrow> raster pil" where
  "raster_pil disk = \<lparr>
     pil_open = (\<lambda>f. case disk f of None \<Rightarrow> Inl FileNotFoundError | Some i \<Rightarrow> Inr i),
     pil_convert = (\<lambda>m (_, i). Inr (m, i)),
     pil_mode = fst,
     pil_size = (\<lambda>i. fst (snd i)),
     pil_new = (\<lambda>m s c. (m, s, \<lambda>_. c)),
     pil_paste = (\<lambda>(m, s, p) (_, (w, h), q) (x, y). (m, s, \<lambda>(a, b). if x \<le> a \<and> a < x + w \<and> y \<le> b \<and> b < y + h then q (a - x, b - y) else p (a, b))),
     pil_resize = (\<lambda>(w, h) (m, _, p). if 0 < w \<and> 0 < h then Inr (m, (w, h), p) else Inl ValueError)\<rparr>"

lemma raster_laws: "pil_laws (raster_pil disk) (\<lambda>i. snd (snd i))"
  unfolding pil_laws_def raster_pil_def by (auto split: prod.splits)

definition strip_image :: raster where
  "strip_image = (''L'', (5, 2), \<lambda>(x, y). 10 * y + x)"

theorem expand2square_pads_witness:
  "\<exists>ox oy. let sq = expand2square (raster_pil Map.empty) strip_image 7; n = max 5 2 in
     pil_size (raster_pil Map.empty) sq = (n, n) \<and> pil_mode (raster_pil Map.empty) sq = pil_mode (raster_pil Map.empty) strip_image \<and>
     0 \<le> ox \<and> 0 \<le> oy \<and> (n - 5) - 2 * ox \<in> {0, 1} \<and> (n - 2) - 2 * oy \<in> {0, 1} \<and>
     (\<forall>a b. 0 \<le> a \<and> a < n \<and> 0 \<le> b \<and> b < n \<longrightarrow>
        snd (snd sq) (a, b) = (if ox \<le> a \<and> a < ox + 5 \<and> oy \<le> b \<and> b < oy + 2 then snd (snd strip_image) (a - ox, b - oy) else 7))"
  by (rule expand2square_pads [OF raster_laws]) (simp_all add: raster_pil_def strip_image_def)

section \<open>Reading and embedding\<close>

definition load_image :: "'img pil \<Rightarrow> int \<times> int \<Rightarrow> string \<Rightarrow> int \<Rightarrow> string \<Rightarrow> 'img result" where
  "load_image lib target_size color bg_clr filename =
     bindE (bindE (pil_open lib filename) (pil_convert lib color)) (\<lambda>img. pil_resize lib target_size (expand2square lib img bg_clr))"

lemma read_images_mapE:
  "read_images lib target_size color bg_clr acc filenames =
     bindE (mapE (load_image lib target_size color bg_clr) filenames) (\<lambda>imgs. Inr (acc @ imgs))"
proof (induction filenames arbitrary: acc)
  case (Cons f fs)
  show ?case
  proof (cases "load_image lib target_size color bg_clr f")
    case (Inl e)
    then show ?thesis by (auto simp: load_image_def bindE_def split: sum.splits)
  next
    case (Inr im)
    have "read_images lib target_size color bg_clr acc (f # fs) = read_images lib target_size color bg_clr (acc @ [im]) fs"
      using Inr by (auto simp: load_image_def bindE_def split: sum.splits)
    then show ?thesis by (simp add: Cons Inr) (simp add: bindE_def split: sum.splits)
  qed
qed simp

text \<open>\<open>get_images\<close> makes its array of one image per file, in the order of the files, each of the target size; a file
  that cannot be opened, converted or resized raises, whatever the other files are.\<close>

theorem get_images_result:
  assumes "\<And>size i j. pil_resize lib size i = Inr j \<Longrightarrow> pil_size lib j = size"
  shows "(\<exists>imgs. get_images lib as_array filenames target_size color bg_clr = as_array imgs \<and> length imgs = length filenames \<and>
        (\<forall>k<length filenames. load_image lib target_size color bg_clr (filenames ! k) = Inr (imgs ! k) \<and> pil_size lib (imgs ! k) = target_size)) \<or>
     (\<exists>k<length filenames. \<exists>e. load_image lib target_size color bg_clr (filenames ! k) = Inl e \<and>
        get_images lib as_array filenames target_size color bg_clr = Inl e)"
proof (cases "mapE (load_image lib target_size color bg_clr) filenames")
  case (Inl e)
  have "\<exists>k<length fs. mapE g fs = Inl e \<longrightarrow> g (fs ! k) = Inl e" if "mapE g fs = Inl e" for g :: "string \<Rightarrow> 'a result" and fs
    using that
  proof (induction fs)
    case (Cons f fs)
    then show ?case by (cases "g f") (force simp: bindE_def split: sum.splits)+
  qed simp
  from this [OF Inl] obtain k where "k < length filenames" "load_image lib target_size color bg_clr (filenames ! k) = Inl e" using Inl by auto
  with Inl show ?thesis by (auto simp: get_images_def read_images_mapE)
next
  case (Inr imgs)
  have "pil_size lib (imgs ! k) = target_size" if "k < length filenames" for k
    using mapE_nth [OF Inr that] by (auto simp: load_image_def bindE_eq_Inr intro: assms)
  with mapE_length [OF Inr] mapE_nth [OF Inr] Inr show ?thesis by (auto simp: get_images_def read_images_mapE)
qed

definition two_files :: "string \<rightharpoonup> raster" where
  "two_files = [''a.jpg'' \<mapsto> strip_image, ''b.jpg'' \<mapsto> (''RGB'', (1, 4), \<lambda>_. 3)]"

theorem get_images_result_witness:
  "(\<exists>imgs. get_images (raster_pil two_files) Inr [''b.jpg'', ''a.jpg''] (200, 200) ''RGB'' 0 = Inr imgs \<and> length imgs = length [''b.jpg'', ''a.jpg''] \<and>
        (\<forall>k<length [''b.jpg'', ''a.jpg'']. load_image (raster_pil two_files) (200, 200) ''RGB'' 0 ([''b.jpg'', ''a.jpg''] ! k) = Inr (imgs ! k) \<and>
           pil_size (raster_pil two_files) (imgs ! k) = (200, 200))) \<or>
     (\<exists>k<length [''b.jpg'', ''a.jpg'']. \<exists>e. load_image (raster_pil two_files) (200, 200) ''RGB'' 0 ([''b.jpg'', ''a.jpg''] ! k) = Inl e \<and>
        get_images (raster_pil two_files) Inr [''b.jpg'', ''a.jpg''] (200, 200) ''RGB'' 0 = Inl e)"
  by (rule get_images_result) (auto simp: raster_pil_def split: prod.splits if_splits)

fun network_name :: "network \<Rightarrow> string" where
  "network_name ResNet50 = ''resnet50''"
| "network_name InceptionV3 = ''inception_v3''"
| "network_name VGG19 = ''vgg19''"

lemma network_names: "(\<exists>n. s = network_name n) \<longleftrightarrow> s \<in> {''resnet50'', ''inception_v3'', ''vgg19''}"
proof
  assume "\<exists>n. s = network_name n"
  then obtain n where "s = network_name n" ..
  then show "s \<in> {''resnet50'', ''inception_v3'', ''vgg19''}" by (cases n) simp_all
next
  assume "s \<in> {''resnet50'', ''inception_v3'', ''vgg19''}"
  then have "s = network_name ResNet50 \<or> s = network_name InceptionV3 \<or> s = network_name VGG19" by simp
  then show "\<exists>n. s = network_name n" by blast
qed

text \<open>\<open>extract_features\<close> on what \<open>get_images\<close> returned. The name of the network is read without regard to case; a
  name that is none of the three, or a pooling that is not \<open>avg\<close> or \<open>max\<close>, raises \<open>AssertionError\<close> before any
  network is loaded. Otherwise the assertion of \<open>create_feat_extractor\<close> holds, and the result is the
  prediction of the chosen network with the chosen pooling on the images preprocessed for that same
  network.\<close>

theorem extract_features_result:
  assumes "k_item_shape ks imgs = Inr sh"
  shows "extract_features ks imgs name pooling_method =
    (if (\<nexists>n. map lower_char name = network_name n) \<or>
        (pooling_method \<noteq> ''avg'' \<and> pooling_method \<noteq> ''max'')
     then Inl AssertionError
     else bindE (k_base ks (network_of (map lower_char name)) sh) (\<lambda>base.
       bindE (bindE (k_pool ks (if pooling_method = ''avg'' then GlobalAveragePooling2D else GlobalMaxPooling2D) (k_output ks base)) (k_model ks base)) (\<lambda>model.
       bindE (k_preprocess ks (network_of (map lower_char name)) imgs) (k_predict ks model))))"
  by (auto simp: network_names extract_features_def create_feat_extractor_def assms Let_def)

text \<open>An instance: an array is the list of its items' sizes, and the model says which network and pooling it is.\<close>

definition size_keras :: "(nat list, nat, network, network \<times> pooling list, network \<times> pooling list) keras" where
  "size_keras = \<lparr>
     k_item_shape = (\<lambda>xs. case xs of [] \<Rightarrow> Inl IndexError | x # _ \<Rightarrow> Inr x),
     k_base = (\<lambda>n _. Inr n),
     k_output = (\<lambda>n. (n, [])),
     k_pool = (\<lambda>p (n, ps). Inr (n, ps @ [p])),
     k_model = (\<lambda>n x. Inr x),
     k_preprocess = (\<lambda>n xs. Inr (if n = VGG19 then map Suc xs else xs)),
     k_predict = (\<lambda>(n, ps) xs. Inr (map (\<lambda>x. x + 100 * length ps) xs))\<rparr>"

theorem extract_features_result_witness:
  "extract_features size_keras [4, 5] ''VGG19'' ''max'' = Inr [105, 106]"
proof -
  have sh: "k_item_shape size_keras [4, 5] = Inr 4" by (simp add: size_keras_def)
  have name: "map lower_char ''VGG19'' = network_name VGG19"
    "network_of (map lower_char ''VGG19'') = VGG19" by code_simp+
  from name(1) have "\<not> (\<nexists>n. map lower_char ''VGG19'' = network_name n)" by blast
  with extract_features_result [OF sh, of "''VGG19''" "''max''"] name(2) show ?thesis by (simp add: size_keras_def)
qed

end
