(* ===== verification/Nb_Quickstart.thy ===== *)
theory Nb_Quickstart
  imports Features_Extractor Py_Struct
begin

text \<open>
  \<open>SPTAG/docs/examples/QuickstartGuide.ipynb\<close>, one definition per function and code cell. The state is the namespace of
  the kernel, in which a name that has not been bound raises NameError, with what \<open>np.save\<close> and the
  index have put on disk. SPTAG, numpy, keras and Pillow are arguments. An array of vectors is its
  width and its rows, and its bytes are those of its rows. Shell lines, plots and console output are
  not modelled.
\<close>

type_synonym 'v matrix = "nat \<times> 'v list"
type_synonym found = "int list \<times> pyfloat list"

text \<open>The arguments of a call on the index, as Python passes them to the wrapper: how many there must be is up to the
  wrapper.\<close>

datatype wrapper_arg = WStr string | WBytes bytes | WInt int

record ('ix, 'd) quick =
  qk_new :: "string \<Rightarrow> string \<Rightarrow> nat \<Rightarrow> 'ix result"
  qk_param :: "wrapper_arg list \<Rightarrow> 'ix \<Rightarrow> 'ix result"
  qk_build :: "wrapper_arg list \<Rightarrow> 'ix \<Rightarrow> 'ix result"
  qk_save :: "string \<Rightarrow> 'ix \<Rightarrow> 'd \<Rightarrow> 'd"
  qk_load :: "string \<Rightarrow> 'd \<Rightarrow> 'ix result"
  qk_search :: "bytes \<Rightarrow> int \<Rightarrow> 'ix \<Rightarrow> found result"

record ('nd, 'v, 'd) kernel =
  ks_disk :: 'd
  ks_npy_array :: "string \<rightharpoonup> 'nd"
  ks_npy_names :: "string \<rightharpoonup> string list"
  ks_filenames :: "string list option"
  ks_imgs :: "'nd option"
  ks_embeddings :: "'nd option"
  ks_arr :: "'nd option"
  ks_xb :: "'v matrix option"
  ks_xq :: "'v matrix option"
  ks_k :: "int option"
  ks_found :: "found list option"

text \<open>Reading a variable.\<close>

definition get_var :: "(('nd, 'v, 'd) kernel \<Rightarrow> 'a option) \<Rightarrow> (('nd, 'v, 'd) kernel, 'a) act" where
  "get_var f s = (case f s of None \<Rightarrow> Some (s, Inl NameError) | Some x \<Rightarrow> Some (s, Inr x))"

text \<open>\<open>tobytes\<close>, and a slice of rows.\<close>

definition tobytes :: "('v \<Rightarrow> bytes) \<Rightarrow> 'v matrix \<Rightarrow> bytes" where
  "tobytes row_bytes x = concat (map row_bytes (snd x))"

definition rows_slice :: "int \<Rightarrow> int \<Rightarrow> 'v matrix \<Rightarrow> 'v matrix" where
  "rows_slice a b x = (fst x, py_slice (snd x) a b)"

section \<open>Building and searching\<close>

definition testBuild :: "('ix, 'd) quick \<Rightarrow> ('v \<Rightarrow> bytes) \<Rightarrow> string \<Rightarrow> string \<Rightarrow> 'v matrix \<Rightarrow> string \<Rightarrow> 'd \<Rightarrow> 'd result" where
  "testBuild lib row_bytes algo distmethod x out d =
     bindE (qk_new lib algo ''Float'' (fst x)) (\<lambda>i.
     bindE (qk_param lib [WStr ''NumberOfThreads'', WStr ''4''] i) (\<lambda>i.
     bindE (qk_param lib [WStr ''DistCalcMethod'', WStr distmethod] i) (\<lambda>i.
     bindE (qk_build lib [WBytes (tobytes row_bytes x), WInt (int (length (snd x)))] i) (\<lambda>i.
       Inr (qk_save lib out i d)))))"

text \<open>\<open>result\<close> is bound anew in every round; with no row it is never bound.\<close>

fun search_rows :: "('ix, 'd) quick \<Rightarrow> ('v \<Rightarrow> bytes) \<Rightarrow> 'ix \<Rightarrow> int \<Rightarrow> 'v list \<Rightarrow> found list option \<Rightarrow> found list option result" where
  "search_rows lib row_bytes j k [] result = Inr result"
| "search_rows lib row_bytes j k (q # qs) result =
     bindE (qk_search lib (row_bytes q) k j) (\<lambda>r. search_rows lib row_bytes j k qs (Some ([] @ [r])))"

definition testSearch :: "('ix, 'd) quick \<Rightarrow> ('v \<Rightarrow> bytes) \<Rightarrow> string \<Rightarrow> 'v matrix \<Rightarrow> int \<Rightarrow> 'd \<Rightarrow> found list result" where
  "testSearch lib row_bytes index q k d =
     bindE (qk_load lib index d) (\<lambda>j.
     bindE (search_rows lib row_bytes j k (snd q) None) (\<lambda>result.
       (case result of None \<Rightarrow> Inl UnboundLocalError | Some r \<Rightarrow> Inr r)))"

text \<open>\<open>Test\<close> prints \<open>result[0]\<close>, which it gives here; it uses the global \<open>arr\<close>, \<open>xq\<close> and \<open>k\<close>.\<close>

definition Test_cell :: "('ix, 'd) quick \<Rightarrow> ('v \<Rightarrow> bytes) \<Rightarrow> ('nd \<Rightarrow> 'v matrix) \<Rightarrow> string \<Rightarrow> string \<Rightarrow> (('nd, 'v, 'd) kernel, found) act" where
  "Test_cell lib row_bytes rows_of algo distmethod =
     bindA (get_var ks_arr) (\<lambda>arr.
     bindA (bindA (getsA (\<lambda>s. testBuild lib row_bytes algo distmethod (rows_of arr) ''testindices'' (ks_disk s))) liftE) (\<lambda>d.
     seqA (modifyA (\<lambda>s. s\<lparr>ks_disk := d\<rparr>))
    (bindA (get_var ks_xq) (\<lambda>xq.
     bindA (get_var ks_k) (\<lambda>k.
     bindA (bindA (getsA (\<lambda>s. testSearch lib row_bytes ''testindices'' xq k (ks_disk s))) liftE) (\<lambda>result.
       liftE (py_get result 0)))))))"

definition query_cell :: "('nd \<Rightarrow> 'v matrix) \<Rightarrow> (('nd, 'v, 'd) kernel, unit) act" where
  "query_cell rows_of =
     bindA (get_var ks_arr) (\<lambda>arr.
     modifyA (\<lambda>s. s\<lparr>ks_xq := Some (rows_slice 1 2 (rows_of arr)), ks_k := Some 5\<rparr>))"

section \<open>Images\<close>















section \<open>The two parts of the guide\<close>

text \<open>The cells in the order of the notebook: first the random data, whose cell binds \<open>randomData\<close> and not \<open>arr\<close>, and
  then the images.\<close>

definition quick_first_part :: "('ix, 'd) quick \<Rightarrow> ('v \<Rightarrow> bytes) \<Rightarrow> ('nd \<Rightarrow> 'v matrix) \<Rightarrow> (('nd, 'v, 'd) kernel, found) act" where
  "quick_first_part lib row_bytes rows_of = seqA (query_cell rows_of) (Test_cell lib row_bytes rows_of ''BKT'' ''L2'')"


section \<open>Properties\<close>

lemma get_var_run: "f s = Some x \<Longrightarrow> get_var f s = Some (s, Inr x)" "f s = None \<Longrightarrow> get_var f s = Some (s, Inl NameError)"
  by (simp_all add: get_var_def)



text \<open>In a fresh kernel the first part of the guide raises NameError at its query cell, before anything is built.\<close>

lemma quick_first_part_fails: "ks_arr s = None \<Longrightarrow> quick_first_part lib row_bytes rows_of s = Some (s, Inl NameError)"
  by (simp add: quick_first_part_def query_cell_def bindA_run get_var_run)














end
