(* ===== verification/Gist_Data.thy ===== *)
theory Gist_Data
  imports Data_Reader
begin

text \<open>
  \<open>Test/src/make_gist_sptag.py\<close>: the GIST vectors, read from \<open>fvecs\<close> files and written in the format
  that \<open>DataReader\<close> and the index read. An array of numpy is the record \<open>ndarray\<close> of its type, its
  shape and the bytes of its elements in C order, so that \<open>view\<close> and \<open>tofile\<close> are what they do to
  bytes; the size of an element and \<open>astype\<close> are arguments, as are the two indexes of faiss. The
  state is the file system; console output is not modelled.
\<close>

section \<open>Arrays\<close>

record ndarray =
  nd_dtype :: string
  nd_shape :: "int list"
  nd_data :: "bytes list"

record np_mem =
  nm_itemsize :: "string \<Rightarrow> nat"
  nm_astype :: "string \<Rightarrow> ndarray \<Rightarrow> ndarray"

definition np_fromfile :: "np_mem \<Rightarrow> filesys \<Rightarrow> string \<Rightarrow> string \<Rightarrow> ndarray result" where
  "np_fromfile np fs fname dtype =
     bindE (open_file fs fname) (\<lambda>c.
       let items = all_rows (nm_itemsize np dtype) c
       in Inr \<lparr>nd_dtype = dtype, nd_shape = [int (length items)], nd_data = items\<rparr>)"

definition int32_at :: "ndarray \<Rightarrow> int \<Rightarrow> int result" where
  "int32_at a i = bindE (py_get (nd_data a) i) unpack_i"

text \<open>\<open>reshape\<close>: at most one dimension may be negative, and is then computed from the others.\<close>

definition reshape_dims :: "int \<Rightarrow> int list \<Rightarrow> int list result" where
  "reshape_dims items dims =
     (let unknown = filter (\<lambda>k. k < 0) dims; known = prod_list (filter (\<lambda>k. 0 \<le> k) dims)
      in if 1 < length unknown then Inl ValueError
         else if unknown = [] then (if known = items then Inr dims else Inl ValueError)
         else if known = 0 \<or> items mod known \<noteq> 0 then Inl ValueError
         else Inr (map (\<lambda>k. if k < 0 then items div known else k) dims))"

definition np_reshape :: "ndarray \<Rightarrow> int list \<Rightarrow> ndarray result" where
  "np_reshape a dims =
     bindE (reshape_dims (int (length (nd_data a))) dims) (\<lambda>s. Inr (a\<lparr>nd_shape := s\<rparr>))"

text \<open>\<open>view\<close> of a contiguous array: elements of another size cut the bytes of the last axis anew.\<close>

definition np_view :: "np_mem \<Rightarrow> string \<Rightarrow> ndarray \<Rightarrow> ndarray result" where
  "np_view np t a =
     (let v = nm_itemsize np (nd_dtype a); w = nm_itemsize np t
      in if v = w then Inr (a\<lparr>nd_dtype := t\<rparr>)
         else if nd_shape a = [] \<or> (last (nd_shape a) * int v) mod int w \<noteq> 0 then Inl ValueError
         else Inr \<lparr>nd_dtype = t, nd_shape = butlast (nd_shape a) @ [last (nd_shape a) * int v div int w],
                   nd_data = all_rows w (concat (nd_data a))\<rparr>)"

text \<open>A matrix row by row; \<open>a[2:]\<close> of a vector and \<open>a[:, 1:]\<close> of a matrix.\<close>

definition mat_rows :: "nat \<Rightarrow> nat \<Rightarrow> 'a list \<Rightarrow> 'a list list" where
  "mat_rows n w data = map (\<lambda>i. take w (drop (i * w) data)) [0..<n]"

definition drop_header :: "ndarray \<Rightarrow> ndarray" where
  "drop_header a = a\<lparr>nd_data := drop 2 (nd_data a), nd_shape := [int (length (drop 2 (nd_data a)))]\<rparr>"

definition drop_column :: "ndarray \<Rightarrow> ndarray result" where
  "drop_column a =
     (case nd_shape a of
        [n, w] \<Rightarrow> Inr (a\<lparr>nd_shape := [n, max 0 (w - 1)],
                        nd_data := concat (map (drop 1) (mat_rows (nat n) (nat w) (nd_data a)))\<rparr>)
      | _ \<Rightarrow> Inl IndexError)"

text \<open>\<open>np.array(n, dtype=np.int32)\<close>, and addition of \<open>np.int32\<close>, which wraps around.\<close>

definition np_int32 :: "int \<Rightarrow> bytes result" where
  "np_int32 n = (if - 2147483648 \<le> n \<and> n < 2147483648 then Inr (le_bytes 4 n) else Inl OverflowError)"

definition wrap32 :: "int \<Rightarrow> int" where
  "wrap32 n = (n + 2147483648) mod 4294967296 - 2147483648"

section \<open>Reading and writing\<close>

definition DEFAULT_read :: "np_mem \<Rightarrow> filesys \<Rightarrow> string \<Rightarrow> string \<Rightarrow> ndarray result" where
  "DEFAULT_read np fs fname np_type =
     bindE (np_fromfile np fs fname ''int32'') (\<lambda>buf.
     bindE (int32_at buf 0) (\<lambda>n.
     bindE (int32_at buf 1) (\<lambda>d.
     bindE (np_view np np_type (drop_header buf)) (\<lambda>v. np_reshape v [n, d]))))"

definition open_wb :: "string \<Rightarrow> (filesys, unit) act" where
  "open_wb fname = modifyA (\<lambda>fs. fs(fname \<mapsto> []))"

definition append_wb :: "string \<Rightarrow> bytes \<Rightarrow> (filesys, unit) act" where
  "append_wb fname b = modifyA (\<lambda>fs. fs(fname \<mapsto> (case fs fname of None \<Rightarrow> [] | Some c \<Rightarrow> c) @ b))"

definition write_dim :: "string \<Rightarrow> ndarray \<Rightarrow> int \<Rightarrow> (filesys, unit) act" where
  "write_dim fname m i = bindA (liftE (bindE (py_get (nd_shape m) i) np_int32)) (append_wb fname)"

definition DEFAULT_write :: "string \<Rightarrow> ndarray \<Rightarrow> (filesys, unit) act" where
  "DEFAULT_write fname m =
     seqA (open_wb fname) (seqA (write_dim fname m 0) (seqA (write_dim fname m 1)
       (append_wb fname (concat (nd_data m)))))"

definition codebooks_write :: "string \<Rightarrow> ndarray \<Rightarrow> (filesys, unit) act" where
  "codebooks_write fname m =
     seqA (open_wb fname) (seqA (write_dim fname m 0) (seqA (write_dim fname m 1) (seqA (write_dim fname m 2)
       (append_wb fname (concat (nd_data m))))))"

text \<open>Every row of an \<open>ivecs\<close> file starts with its length; assigning \<open>m\<close> to a part of an array of
  \<open>int32\<close> converts its elements.\<close>

definition ivecs_write :: "np_mem \<Rightarrow> string \<Rightarrow> ndarray \<Rightarrow> (filesys, unit) act" where
  "ivecs_write np fname m =
     (case nd_shape m of
        [n, d] \<Rightarrow>
          bindA (liftE (np_int32 d)) (\<lambda>h.
            modifyA (\<lambda>fs. fs(fname \<mapsto>
              concat (map (\<lambda>row. h @ concat row) (mat_rows (nat n) (nat d) (nd_data (nm_astype np ''int32'' m)))))))
      | _ \<Rightarrow> raiseA ValueError)"

definition fvecs_write :: "np_mem \<Rightarrow> string \<Rightarrow> ndarray \<Rightarrow> (filesys, unit) act" where
  "fvecs_write np fname m =
     bindA (liftE (np_view np ''int32'' (nm_astype np ''float32'' m))) (ivecs_write np fname)"

definition ivecs_read :: "np_mem \<Rightarrow> filesys \<Rightarrow> string \<Rightarrow> ndarray result" where
  "ivecs_read np fs fname =
     bindE (np_fromfile np fs fname ''int32'') (\<lambda>a.
     bindE (int32_at a 0) (\<lambda>d.
     bindE (np_reshape a [- 1, wrap32 (d + 1)]) drop_column))"

definition fvecs_read :: "np_mem \<Rightarrow> filesys \<Rightarrow> string \<Rightarrow> ndarray result" where
  "fvecs_read np fs fname = bindE (ivecs_read np fs fname) (np_view np ''float32'')"

definition sanitize :: "np_mem \<Rightarrow> ndarray \<Rightarrow> ndarray" where
  "sanitize np x = nm_astype np ''float32'' x"

section \<open>The program\<close>

record gist_faiss =
  gf_flat_add :: "int \<Rightarrow> ndarray \<Rightarrow> unit result"
  gf_pq_train :: "int \<Rightarrow> int \<Rightarrow> int \<Rightarrow> ndarray \<Rightarrow> ndarray result"

definition gist_file :: "string \<Rightarrow> string" where
  "gist_file name = ''D:'' @ [CHR 0x5C] @ ''data'' @ [CHR 0x5C] @ ''gist'' @ [CHR 0x5C] @ name"

definition gist_main :: "np_mem \<Rightarrow> gist_faiss \<Rightarrow> (filesys, unit) act" where
  "gist_main np fa =
     bindA (getsA (\<lambda>fs. fs)) (\<lambda>fs.
     bindA (liftE (fvecs_read np fs (gist_file ''gist_base.fvecs''))) (\<lambda>xd.
     bindA (liftE (fvecs_read np fs (gist_file ''gist_query.fvecs''))) (\<lambda>xq.
     bindA (liftE (fvecs_read np fs (gist_file ''gist_learn.fvecs''))) (\<lambda>xt.
     bindA (liftE (py_get (nd_shape xd) 1)) (\<lambda>d.
     bindA (liftE (gf_flat_add fa d (sanitize np xd))) (\<lambda>_.
     bindA (liftE (gf_pq_train fa d (d div 2) 8 (sanitize np xt))) (\<lambda>centroids0.
     bindA (liftE (np_reshape centroids0 [d div 2, 256, 2])) (\<lambda>centroids.
       seqA (DEFAULT_write ''gist_vector.bin'' xd)
      (seqA (DEFAULT_write ''gist_query.bin'' xq)
       (codebooks_write ''gist_codebook.bin'' centroids))))))))))"

section \<open>Matrices and their files\<close>

text \<open>What the program relies on: the sizes of the two types, and that a conversion to the type an
  array has leaves it as it is.\<close>

definition lawful_mem :: "np_mem \<Rightarrow> bool" where
  "lawful_mem np \<longleftrightarrow> nm_itemsize np ''int32'' = 4 \<and> nm_itemsize np ''float32'' = 4 \<and>
     (\<forall>a. nm_astype np (nd_dtype a) a = a)"

definition matrix :: "string \<Rightarrow> nat \<Rightarrow> bytes list list \<Rightarrow> ndarray" where
  "matrix t d rows = \<lparr>nd_dtype = t, nd_shape = [int (length rows), int d], nd_data = concat rows\<rparr>"

definition wf_rows :: "nat \<Rightarrow> nat \<Rightarrow> bytes list list \<Rightarrow> bool" where
  "wf_rows w d rows \<longleftrightarrow> (\<forall>r\<in>set rows. length r = d \<and> (\<forall>b\<in>set r. length b = w))"

definition vecs_bytes :: "nat \<Rightarrow> bytes list list \<Rightarrow> bytes" where
  "vecs_bytes d rows = concat (map (\<lambda>row. le_bytes 4 (int d) @ concat row) rows)"

definition default_bytes :: "nat \<Rightarrow> bytes list list \<Rightarrow> bytes" where
  "default_bytes d rows = le_bytes 4 (int (length rows)) @ le_bytes 4 (int d) @ concat (concat rows)"

lemma mat_rows_Suc: "mat_rows (Suc n) w data = take w data # mat_rows n w (drop w data)"
proof -
  have "map (\<lambda>i. take w (drop (i * w) data)) [1..<Suc n] = map (\<lambda>i. take w (drop (Suc i * w) data)) [0..<n]"
    by (simp only: map_Suc_upt [symmetric] One_nat_def map_map comp_def)
  then show ?thesis
    unfolding mat_rows_def upt_conv_Cons [OF zero_less_Suc] by (simp add: add.commute)
qed

lemma mat_rows_concat:
  "\<forall>r\<in>set rs. length r = w \<Longrightarrow> mat_rows (length rs) w (concat rs) = rs"
proof (induction rs)
  case (Cons r rs)
  then show ?case by (simp add: mat_rows_Suc)
qed (simp add: mat_rows_def)

lemma length_concat_rows: "\<forall>r\<in>set rs. length r = w \<Longrightarrow> length (concat rs) = length rs * w"
  by (induction rs) simp_all

lemma wf_rows_flat: "wf_rows w d rows \<Longrightarrow> \<forall>b\<in>set (concat rows). length b = w"
  and wf_rows_len: "wf_rows w d rows \<Longrightarrow> length (concat rows) = length rows * d"
  by (auto simp: wf_rows_def intro: length_concat_rows)

lemma wf_rows_bytes: "wf_rows w d rows \<Longrightarrow> length (concat (concat rows)) = length rows * d * w"
  using length_concat_rows [OF wf_rows_flat] wf_rows_len by metis

lemma concat_all_rows: "0 < w \<Longrightarrow> w dvd length bs \<Longrightarrow> concat (all_rows w bs) = bs"
proof (induction "length bs" arbitrary: bs rule: less_induct)
  case less
  show ?case
  proof (cases "bs = []")
    case False
    with less.prems have "w \<le> length bs" by (simp add: dvd_imp_le)
    with less.hyps [of "drop w bs"] less.prems False show ?thesis by (simp add: all_rows_step dvd_diff_nat)
  qed (use less.prems in \<open>simp add: all_rows_short\<close>)
qed

lemma length_all_rows_elem: "r \<in> set (all_rows w bs) \<Longrightarrow> length r = w"
proof -
  have "r \<in> set (full_rows n w bs) \<Longrightarrow> length r = w" for n
    by (induction n arbitrary: bs) (auto split: if_splits)
  then show "r \<in> set (all_rows w bs) \<Longrightarrow> length r = w" by (simp add: all_rows_def)
qed

lemma all_rows_flat: "0 < w \<Longrightarrow> \<forall>b\<in>set bs. length b = w \<Longrightarrow> all_rows w (concat bs) = bs"
  using all_rows_concat [of w bs "[]"] by simp

lemma ivecs_write_run:
  assumes "lawful_mem np" and "wf_rows 4 d rows" and "d < 2147483648"
  shows "ivecs_write np f (matrix ''int32'' d rows) fs = Some (fs(f \<mapsto> vecs_bytes d rows), Inr ())"
proof -
  have "nm_astype np ''int32'' (matrix ''int32'' d rows) = matrix ''int32'' d rows"
    using assms(1) by (simp add: lawful_mem_def matrix_def) (metis ndarray.select_convs(1))
  moreover have "mat_rows (length rows) d (concat rows) = rows"
    using assms(2) by (intro mat_rows_concat) (simp add: wf_rows_def)
  ultimately show ?thesis
    using assms(3) by (simp add: ivecs_write_def matrix_def np_int32_def vecs_bytes_def)
qed

lemma wrap32_id: "- 2147483648 \<le> n \<Longrightarrow> n < 2147483648 \<Longrightarrow> wrap32 n = n"
  by (simp add: wrap32_def)

lemma ivecs_read_file:
  assumes "lawful_mem np" and "fs f = Some (vecs_bytes d rows)" and "rows \<noteq> []"
    and wf: "wf_rows 4 d rows" and d: "d < 2147483647"
  shows "ivecs_read np fs f = Inr (matrix ''int32'' d rows)"
proof -
  let ?rs = "map (\<lambda>row. le_bytes 4 (int d) # row) rows"
  have bytes: "vecs_bytes d rows = concat (concat ?rs)"
    by (induction rows) (simp_all add: vecs_bytes_def)
  have "all_rows 4 (vecs_bytes d rows) = concat ?rs"
    unfolding bytes using wf by (intro all_rows_flat) (auto simp: wf_rows_def)
  then have whole: "np_fromfile np fs f ''int32'' =
      Inr \<lparr>nd_dtype = ''int32'', nd_shape = [int (length (concat ?rs))], nd_data = concat ?rs\<rparr>"
    using assms(1,2) by (simp add: np_fromfile_def open_file_def lawful_mem_def Let_def)
  have width: "\<forall>r\<in>set ?rs. length r = Suc d" using wf by (simp add: wf_rows_def)
  have len: "length (concat ?rs) = length rows * Suc d" using length_concat_rows [OF width] by simp
  have first: "int32_at \<lparr>nd_dtype = ''int32'', nd_shape = [int (length (concat ?rs))], nd_data = concat ?rs\<rparr> 0 = Inr (int d)"
    using assms(3) d by (cases rows) (simp_all add: int32_at_def)
  have "int (length (concat ?rs)) = int (length rows) * (int d + 1)" unfolding len by (simp add: algebra_simps)
  then have "reshape_dims (int (length (concat ?rs))) [- 1, int d + 1] = Inr [int (length rows), int d + 1]"
    by (simp add: reshape_dims_def Let_def)
  moreover have "map (drop 1) (mat_rows (length rows) (Suc d) (concat ?rs)) = rows"
    using mat_rows_concat [OF width] by (simp add: comp_def)
  moreover have "wrap32 (int d + 1) = int d + 1" "nat (int d + 1) = Suc d" using d by (simp_all add: wrap32_id)
  ultimately show ?thesis
    by (simp add: ivecs_read_def whole first np_reshape_def drop_column_def matrix_def del: concat.simps)
qed

lemma fvecs_read_file:
  assumes "lawful_mem np" and "fs f = Some (vecs_bytes d rows)" and "rows \<noteq> []" and "wf_rows 4 d rows" and "d < 2147483647"
  shows "fvecs_read np fs f = Inr (matrix ''float32'' d rows)"
  using assms by (simp add: fvecs_read_def ivecs_read_file np_view_def matrix_def lawful_mem_def)

lemma fvecs_roundtrip:
  assumes "lawful_mem np" and "rows \<noteq> []" and "wf_rows 4 d rows" and "d < 2147483647"
  shows "\<exists>fs'. fvecs_write np f (matrix ''float32'' d rows) fs = Some (fs', Inr ()) \<and>
    fvecs_read np fs' f = Inr (matrix ''float32'' d rows)"
proof -
  have "nm_astype np ''float32'' (matrix ''float32'' d rows) = matrix ''float32'' d rows"
    using assms(1) by (simp add: lawful_mem_def matrix_def) (metis ndarray.select_convs(1))
  moreover have "np_view np ''int32'' (matrix ''float32'' d rows) = Inr (matrix ''int32'' d rows)"
    using assms(1) by (simp add: np_view_def matrix_def lawful_mem_def)
  moreover have "fvecs_read np (fs(f \<mapsto> vecs_bytes d rows)) f = Inr (matrix ''float32'' d rows)"
    using assms by (intro fvecs_read_file) simp_all
  ultimately show ?thesis
    using assms ivecs_write_run [of np d rows f fs] by (simp add: fvecs_write_def)
qed

text \<open>The round trip needs a row: an array without rows leaves an empty file, which cannot be read.\<close>

lemma fvecs_read_empty: "fs f = Some [] \<Longrightarrow> fvecs_read np fs f = Inl IndexError"
  by (simp add: fvecs_read_def ivecs_read_def np_fromfile_def open_file_def all_rows_def int32_at_def py_get_def py_index_def)

lemma DEFAULT_write_run:
  assumes "length rows < 2147483648" and "d < 2147483648"
  shows "DEFAULT_write f (matrix t d rows) fs = Some (fs(f \<mapsto> default_bytes d rows), Inr ())"
  using assms
  by (simp add: DEFAULT_write_def open_wb_def append_wb_def write_dim_def matrix_def default_bytes_def np_int32_def bindA_def
      py_get_def py_index_def)

lemma codebooks_write_run:
  assumes "nd_shape m = [a, b, c]" and "0 \<le> a" "a < 2147483648" "0 \<le> b" "b < 2147483648" "0 \<le> c" "c < 2147483648"
  shows "codebooks_write f m fs =
    Some (fs(f \<mapsto> le_bytes 4 a @ le_bytes 4 b @ le_bytes 4 c @ concat (nd_data m)), Inr ())"
  using assms
  by (simp add: codebooks_write_def open_wb_def append_wb_def write_dim_def np_int32_def bindA_def
      py_get_def py_index_def)

text \<open>Reading back what \<open>DEFAULT_write\<close> wrote. The file is read in units of four bytes: if the elements
  do not fill them the last ones are lost, and the reshape fails.\<close>

lemma default_items:
  assumes "length rows < 2147483648" and "d < 2147483648"
  shows "all_rows 4 (default_bytes d rows) =
    le_bytes 4 (int (length rows)) # le_bytes 4 (int d) # all_rows 4 (concat (concat rows))"
  by (simp add: default_bytes_def all_rows_step)

lemma DEFAULT_read_view:
  assumes "lawful_mem np" and "fs f = Some (default_bytes d rows)" and "length rows < 2147483648" and "d < 2147483648"
  defines "items \<equiv> all_rows 4 (concat (concat rows))"
  shows "DEFAULT_read np fs f t =
    bindE (np_view np t \<lparr>nd_dtype = ''int32'', nd_shape = [int (length items)], nd_data = items\<rparr>)
      (\<lambda>v. np_reshape v [int (length rows), int d])"
  using assms(1-4)
  by (simp add: DEFAULT_read_def np_fromfile_def open_file_def lawful_mem_def Let_def default_items int32_at_def
      drop_header_def items_def py_get_def py_index_def)

lemma np_reshape_matrix:
  assumes "wf_rows w d rows"
  shows "np_reshape \<lparr>nd_dtype = t, nd_shape = s, nd_data = concat rows\<rparr> [int (length rows), int d] = Inr (matrix t d rows)"
  using wf_rows_len [OF assms] by (simp add: np_reshape_def reshape_dims_def matrix_def)

lemma DEFAULT_read_file:
  assumes law: "lawful_mem np" and f: "fs f = Some (default_bytes d rows)" and small: "length rows < 2147483648" "d < 2147483648"
    and wf: "wf_rows (nm_itemsize np t) d rows" and w: "0 < nm_itemsize np t"
    and div4: "4 dvd length rows * d * nm_itemsize np t"
  shows "DEFAULT_read np fs f t = Inr (matrix t d rows)"
proof -
  let ?w = "nm_itemsize np t" and ?body = "concat (concat rows)"
  have len: "length ?body = length rows * d * ?w" by (rule wf_rows_bytes [OF wf])
  have four: "nm_itemsize np ''int32'' = 4" using law by (simp add: lawful_mem_def)
  have whole: "concat (all_rows 4 ?body) = ?body" using div4 len by (intro concat_all_rows) simp_all
  have cut: "all_rows ?w ?body = concat rows" using wf_rows_flat [OF wf] w by (intro all_rows_flat)
  have "length (all_rows 4 ?body) * 4 = length ?body" using div4 len by (simp add: length_all_rows)
  then have bytes: "int (length (all_rows 4 ?body)) * 4 = int (length rows * d * ?w)" unfolding len [symmetric] by simp
  show ?thesis
  proof (cases "?w = 4")
    case True
    with cut four show ?thesis
      by (simp add: DEFAULT_read_view [where fs = fs and f = f, OF law f small] np_view_def Let_def np_reshape_matrix [OF wf])
  next
    case False
    with four bytes cut whole w show ?thesis
      by (simp add: DEFAULT_read_view [where fs = fs and f = f, OF law f small] np_view_def Let_def np_reshape_matrix [OF wf])
  qed
qed

lemma DEFAULT_read_lost:
  assumes law: "lawful_mem np" and f: "fs f = Some (default_bytes d rows)" and small: "length rows < 2147483648" "d < 2147483648"
    and wf: "wf_rows (nm_itemsize np t) d rows" and w: "0 < nm_itemsize np t"
    and div4: "\<not> 4 dvd length rows * d * nm_itemsize np t"
  shows "DEFAULT_read np fs f t = Inl ValueError"
proof -
  let ?w = "nm_itemsize np t" and ?body = "concat (concat rows)"
  let ?items = "all_rows 4 ?body"
  have len: "length ?body = length rows * d * ?w" by (rule wf_rows_bytes [OF wf])
  have four: "nm_itemsize np ''int32'' = 4" using law by (simp add: lawful_mem_def)
  have ne: "?w \<noteq> 4" using div4 by auto
  have n: "length ?items = length ?body div 4" by (simp add: length_all_rows)
  have short: "length ?items * 4 < length ?body"
    unfolding n using div4 len by (metis dvd_eq_mod_eq_0 div_mult_mod_eq less_add_same_cancel1 neq0_conv)
  have "\<forall>r\<in>set ?items. length r = 4"
    using length_all_rows_elem by blast
  then have flat: "length (concat ?items) = length ?items * 4" by (rule length_concat_rows)
  have "length (all_rows ?w (concat ?items)) = length ?items * 4 div ?w" using w by (simp add: length_all_rows flat)
  moreover have "length ?items * 4 div ?w < length rows * d" using short w len by (simp add: less_mult_imp_div_less)
  ultimately have "int (length (all_rows ?w (concat ?items))) \<noteq> int (length rows) * int d"
    by (metis less_irrefl of_nat_eq_iff of_nat_mult)
  with four ne show ?thesis
    by (simp add: DEFAULT_read_view [where fs = fs and f = f, OF law f small] np_view_def Let_def np_reshape_def reshape_dims_def)
qed

section \<open>The files of the program\<close>

text \<open>C40: the program on GIST files. For base, query and learn files that hold at least one vector each,
  and an index and a quantizer of faiss that accept them, the run ends without an exception.
  \<open>DEFAULT_read\<close> gives back the base and the query vectors from the files it wrote, the codebook
  file has its three dimensions and the centroids, and \<open>DataReader\<close> (of the tuner and of the OPQ
  tool) opens the vector file and reads in one batch exactly the base vectors, in order.\<close>

theorem gist_main_files:
  assumes law: "lawful_mem np"
    and files: "fs (gist_file ''gist_base.fvecs'') = Some (vecs_bytes d xd)"
      "fs (gist_file ''gist_query.fvecs'') = Some (vecs_bytes dq xq)" "fs (gist_file ''gist_learn.fvecs'') = Some (vecs_bytes dt xt)"
    and rows: "wf_rows 4 d xd" "wf_rows 4 dq xq" "wf_rows 4 dt xt" "xd \<noteq> []" "xq \<noteq> []" "xt \<noteq> []"
    and small: "0 < d" "d < 2147483647" "dq < 2147483647" "dt < 2147483647" "length xd < 2147483648" "length xq < 2147483648"
    and faiss: "gf_flat_add fa (int d) (matrix ''float32'' d xd) = Inr ()"
      "gf_pq_train fa (int d) (int d div 2) 8 (matrix ''float32'' dt xt) = Inr c" "length (nd_data c) = d div 2 * 512"
    and size: "np_itemsize npv ''float32'' = 4"
  shows "\<exists>fs' rd rd'. gist_main np fa fs = Some (fs', Inr ()) \<and>
    DEFAULT_read np fs' ''gist_vector.bin'' ''float32'' = Inr (matrix ''float32'' d xd) \<and>
    DEFAULT_read np fs' ''gist_query.bin'' ''float32'' = Inr (matrix ''float32'' dq xq) \<and>
    fs' ''gist_codebook.bin'' = Some (le_bytes 4 (int d div 2) @ le_bytes 4 256 @ le_bytes 4 2 @ concat (nd_data c)) \<and>
    DataReader_init npv fs' ''gist_vector.bin'' fd (- 1) 0 ''float32'' tt = Inr rd \<and>
    readbatch npv rd = Inr (rd', length xd, map (np_frombuffer npv ''float32'' tt \<circ> concat) xd)"
proof -
  have read: "fvecs_read np fs (gist_file ''gist_base.fvecs'') = Inr (matrix ''float32'' d xd)"
    "fvecs_read np fs (gist_file ''gist_query.fvecs'') = Inr (matrix ''float32'' dq xq)"
    "fvecs_read np fs (gist_file ''gist_learn.fvecs'') = Inr (matrix ''float32'' dt xt)"
    using law files rows small by (auto intro: fvecs_read_file)
  have dim: "nd_shape (matrix ''float32'' d xd) = [int (length xd), int d]" by (simp add: matrix_def)
  have same: "sanitize np (matrix ''float32'' e r) = matrix ''float32'' e r" for e r
    using law by (simp add: lawful_mem_def sanitize_def matrix_def) (metis ndarray.select_convs(1))
  have shape: "np_reshape c [int d div 2, 256, 2] = Inr (c\<lparr>nd_shape := [int d div 2, 256, 2]\<rparr>)"
    using faiss(3) by (simp add: np_reshape_def reshape_dims_def zdiv_int)
  have half: "0 \<le> int d div 2" "int d div 2 < 2147483648" using small(2) by linarith+
  let ?cb = "le_bytes 4 (int d div 2) @ le_bytes 4 256 @ le_bytes 4 2 @ concat (nd_data c)"
  let ?fs = "fs(''gist_vector.bin'' \<mapsto> default_bytes d xd, ''gist_query.bin'' \<mapsto> default_bytes dq xq, ''gist_codebook.bin'' \<mapsto> ?cb)"
  have cb: "codebooks_write ''gist_codebook.bin'' (c\<lparr>nd_shape := [int d div 2, 256, 2]\<rparr>) g = Some (g(''gist_codebook.bin'' \<mapsto> ?cb), Inr ())" for g
    using half by (simp add: codebooks_write_run)
  have run: "gist_main np fa fs = Some (?fs, Inr ())"
    using small faiss(1,2)
    by (simp add: gist_main_def read dim same shape DEFAULT_write_run cb bindA_run)
  have four: "nm_itemsize np ''float32'' = 4" using law by (simp add: lawful_mem_def)
  have vec: "?fs ''gist_vector.bin'' = Some (default_bytes d xd)" "?fs ''gist_query.bin'' = Some (default_bytes dq xq)"
    "?fs ''gist_codebook.bin'' = Some ?cb" by simp_all
  have reread: "DEFAULT_read np ?fs ''gist_vector.bin'' ''float32'' = Inr (matrix ''float32'' d xd)"
    "DEFAULT_read np ?fs ''gist_query.bin'' ''float32'' = Inr (matrix ''float32'' dq xq)"
    using vec(1,2) rows(1,2) small by (auto intro!: DEFAULT_read_file [OF law] simp: four)
  have flat: "concat (concat xd) = concat (map concat xd) @ []" by (induction xd) simp_all
  have widths: "\<forall>r\<in>set (map concat xd). length r = np_itemsize npv ''float32'' * nat (int d)"
    using rows(1) length_concat_rows [where w = 4] by (fastforce simp: size wf_rows_def)
  have head: "?fs ''gist_vector.bin'' = Some (le_bytes 4 (int (length xd)) @ le_bytes 4 (int d) @ concat (map concat xd) @ [])"
    using vec(1) flat by (simp add: default_bytes_def)
  have name: "0 \<le> find_sub ''gist_vector.bin'' ''.bin''" by code_simp
  from DataReader_readbatch_whole [of ?fs "''gist_vector.bin''" "int (length xd)" "int d" "map concat xd" "[]" npv "''float32''" "- 1" fd tt,
      OF head name _ _ _ _ _ widths] small size
  obtain rd rd' where "DataReader_init npv ?fs ''gist_vector.bin'' fd (- 1) 0 ''float32'' tt = Inr rd"
    "readbatch npv rd = Inr (rd', length xd, map (np_frombuffer npv ''float32'' tt \<circ> concat) xd)" by auto
  with run reread vec(3) show ?thesis by blast
qed

definition word_mem :: np_mem where
  "word_mem = \<lparr>nm_itemsize = (\<lambda>_. 4), nm_astype = (\<lambda>t a. a\<lparr>nd_dtype := t\<rparr>)\<rparr>"

definition zero_faiss :: gist_faiss where
  "zero_faiss = \<lparr>gf_flat_add = (\<lambda>_ _. Inr ()),
     gf_pq_train = (\<lambda>d M bits x. Inr \<lparr>nd_dtype = ''float32'', nd_shape = [M * 512], nd_data = replicate (nat M * 512) [0, 0, 0, 0]\<rparr>)\<rparr>"

definition sample_gist :: filesys where
  "sample_gist = [gist_file ''gist_base.fvecs'' \<mapsto> vecs_bytes 2 [[[0, 0, 128, 63], [0, 0, 0, 0]], [[0, 0, 0, 0], [0, 0, 128, 63]]],
     gist_file ''gist_query.fvecs'' \<mapsto> vecs_bytes 2 [[[0, 0, 0, 0], [0, 0, 0, 0]]],
     gist_file ''gist_learn.fvecs'' \<mapsto> vecs_bytes 2 [[[0, 0, 128, 63], [0, 0, 128, 63]]]]"

theorem gist_main_files_witness:
  "\<exists>fs' rd rd'. gist_main word_mem zero_faiss sample_gist = Some (fs', Inr ()) \<and>
    DataReader_init (np_int8\<lparr>np_itemsize := (\<lambda>_. 4)\<rparr>) fs' ''gist_vector.bin'' 100 (- 1) 0 ''float32'' ''float32'' = Inr rd \<and>
    readbatch (np_int8\<lparr>np_itemsize := (\<lambda>_. 4)\<rparr>) rd = Inr (rd', 2, [[0, 0, - 128, 63, 0, 0, 0, 0], [0, 0, 0, 0, 0, 0, - 128, 63]])"
proof -
  have law: "lawful_mem word_mem" by (simp add: lawful_mem_def word_mem_def)
  let ?xd = "[[[0, 0, 128, 63], [0, 0, 0, 0]], [[0, 0, 0, 0], [0, 0, 128, 63]]] :: bytes list list"
  let ?xq = "[[[0, 0, 0, 0], [0, 0, 0, 0]]] :: bytes list list" and ?xt = "[[[0, 0, 128, 63], [0, 0, 128, 63]]] :: bytes list list"
  have names: "gist_file ''gist_base.fvecs'' \<noteq> gist_file ''gist_query.fvecs''" "gist_file ''gist_base.fvecs'' \<noteq> gist_file ''gist_learn.fvecs''"
    "gist_file ''gist_query.fvecs'' \<noteq> gist_file ''gist_learn.fvecs''" by (simp_all add: gist_file_def)
  have files: "sample_gist (gist_file ''gist_base.fvecs'') = Some (vecs_bytes 2 ?xd)"
    "sample_gist (gist_file ''gist_query.fvecs'') = Some (vecs_bytes 2 ?xq)" "sample_gist (gist_file ''gist_learn.fvecs'') = Some (vecs_bytes 2 ?xt)"
    using names by (simp_all add: sample_gist_def)
  have ints: "map sint (concat [[0, 0, 128, 63], [0, 0, 0, 0 :: byte]]) = [0, 0, - 128, 63, 0, 0, 0, 0]"
    "map sint (concat [[0, 0, 0, 0], [0, 0, 128, 63 :: byte]]) = [0, 0, 0, 0, 0, 0, - 128, 63]" by code_simp+
  from gist_main_files [OF law files, where fa = zero_faiss and npv = "np_int8\<lparr>np_itemsize := (\<lambda>_. 4)\<rparr>" and fd = 100 and tt = "''float32''"
      and c = "\<lparr>nd_dtype = ''float32'', nd_shape = [512], nd_data = replicate 512 [0, 0, 0, 0]\<rparr>"]
  obtain fs' rd rd' where "gist_main word_mem zero_faiss sample_gist = Some (fs', Inr ())"
    "DataReader_init (np_int8\<lparr>np_itemsize := (\<lambda>_. 4)\<rparr>) fs' ''gist_vector.bin'' 100 (- 1) 0 ''float32'' ''float32'' = Inr rd"
    "readbatch (np_int8\<lparr>np_itemsize := (\<lambda>_. 4)\<rparr>) rd =
      Inr (rd', length ?xd, map (np_frombuffer (np_int8\<lparr>np_itemsize := (\<lambda>_. 4)\<rparr>) ''float32'' ''float32'' \<circ> concat) ?xd)"
    by (auto simp: wf_rows_def zero_faiss_def)
  then show ?thesis using ints by (simp add: np_int8_def eval_nat_numeral)
qed

end
