(* ===== verification/Spec2Isabelle.thy ===== *)
theory Spec2Isabelle
  imports Nni_Preprocess Nni_Plot Opq_Train Ae_Merge Ae_Stress Kv_Client Ae_Dataset Get_Pip Nb_Tutorial Nb_Quickstart Gist_Data
begin

text \<open>
  \<^bold>\<open>The Python programs of RAG_StormX\<close>

  The repository puts a vector index, SPTAG with its SPANN and SPFresh variants, in front of a key-value store. The
  index itself is C++; the programs around it are Python: they tune the index (\<^verbatim>\<open>Tools/nni-auto-tune\<close>), train and
  apply its quantizer (\<^verbatim>\<open>Tools/OPQ\<close>), prepare its data and evaluate its logs (\<^verbatim>\<open>Script_AE\<close>), package and bootstrap it
  (\<^verbatim>\<open>setup.py\<close>, \<^verbatim>\<open>get-pip.py\<close>), show its use (\<^verbatim>\<open>docs\<close>) and exercise the store (\<^verbatim>\<open>aerospace_client\<close>). This
  development models these programs and proves what makes them correct, or where they are not.
  Paths below are relative to \<^verbatim>\<open>src/SPTAG\<close> except for the last.

  \<^bold>\<open>How Python is modelled\<close>

  \<^item> \<open>Py_Prelude\<close>: a result is an exception or a value (\<open>bindE\<close>, \<open>mapE\<close>, \<open>forE\<close>); an action on a state gives \<open>None\<close> when it does not
    return, and otherwise the state with a result (\<open>bindA\<close>, \<open>forA\<close>, \<open>catchA\<close>, and \<open>loopA\<close> for a loop that may not
    end). Indexing and slicing follow Python, negative indices included. The lemmas on \<open>loopA\<close> carry the
    proofs of the components: total correctness by a measure, partial correctness, counting loops, divergence. \<open>Py_Inv\<close> has the
    rules by which a composed action preserves an invariant.
  \<^item> \<open>Py_Float\<close>: floats are rationals rounded to 53 bits, with infinities and NaN; \<open>Py_Str\<close>: splitting, stripping, lines, integers
    and floats in text; \<open>Py_Struct\<close>: bytes as 8-bit words, \<open>struct\<close> formats as interpretations of the locale \<open>codec\<close>;
    \<open>Py_Csv\<close>: the csv module in the dialect used, whose reader inverts its writer; \<open>Py_Fs\<close>: a tree of files and directories with its well-formedness.

  \<^bold>\<open>Components\<close>

  \<^item> \<open>Data_Reader\<close>, \<open>Nni_Dataset\<close>: class DataReader (\<^verbatim>\<open>Tools/OPQ/OPQ_gpu_train_infer.py\<close>, \<^verbatim>\<open>Tools/nni-auto-tune/dataset.py\<close>) and
    HDF5Reader. A file read in batches gives all its rows in order; an empty file makes the reader loop for ever.
  \<^item> \<open>Nni_Grid\<close>, \<open>Nni_Runner\<close>, \<open>Nni_Model\<close>, \<open>Nni_Main\<close>: grid search, timed queries and recall, metrics, the index wrapper and brute
    force, and the tuner program. The grid is complete and without repetition; no row is nearer
    to the query than those brute force returns, in exact distance and up to a multiple of the rounding errors
    (\<open>euclid_rounded\<close>, \<open>angular_rounded\<close>); the mean recall and the Jaccard distance are pinned to their formulas
    with all roundings; a missing answer of the index, the id -1, gets the distance of the last training
    row; a run sends exactly one report, of a best result.
  \<^item> \<open>Nni_Preprocess\<close>, \<open>Nni_Plot\<close>: sampling and groundtruth files, which are read back as they were written; the plotted points
    are the Pareto frontier, and their file is written before the axis is chosen.
  \<^item> \<open>Opq_Truth\<close>, \<open>Opq_Eval\<close>, \<open>Opq_Train\<close>: search in batches whose files are merged, which refines exact search of the whole
    data; evaluation; training and quantization with the files they write, patch and rename. The program
    fails when no truth file is in place.
  \<^item> \<open>Ae_Logs\<close>, \<open>Ae_Throughput\<close>, \<open>Ae_Spann\<close>, \<open>Ae_Diskann\<close>, \<open>Ae_Merge\<close>, \<open>Ae_Stress\<close>: the scripts that turn logs into tables (\<^verbatim>\<open>Script_AE/Figure*\<close>), with the
    locale \<open>entry_loop\<close> for their common loop. The tables hold the values of the log in order; on logs that
    are cut off some of them run for ever and some raise, and the stress test shows stale KIOPS.
  \<^item> \<open>Ae_Dataset\<close>: \<^verbatim>\<open>Script_AE/generate_dataset.py\<close> and \<^verbatim>\<open>data_clustering_sift.py\<close>, for Python 2 and 3.
  \<^item> \<open>Gist_Data\<close>: \<^verbatim>\<open>Test/src/make_gist_sptag.py\<close>, which turns \<^verbatim>\<open>fvecs\<close> files into files for the index. What it writes
    is read back, and DataReader reads the same vectors.
  \<^item> \<open>Setup_Py\<close>, \<open>Get_Pip\<close>: \<^verbatim>\<open>setup.py\<close> and \<^verbatim>\<open>get-pip.py\<close> on the tree of files. The package is the
    build directory and nothing older, with a version file that agrees with the metadata; pip is run on
    the embedded archive, byte by byte, and the temporary directory is always removed.
  \<^item> \<open>Features_Extractor\<close>, \<open>Nb_Tutorial\<close>, \<open>Nb_Quickstart\<close>: \<^verbatim>\<open>docs/examples/features_extractor.py\<close> and the two notebooks, cell by cell. The
    padded image is centred; the iterator scan returns what it should exactly if some batch ends it; the
    guide ends in a TypeError at the three-parameter wrapper of this repository (\<open>core_interface\<close>), and with a wrapper of
    two parameters draws the files of the ids it found.
  \<^item> \<open>Kv_Client\<close>: \<^verbatim>\<open>src/aerospace_client\<close>. On a store with the key-value laws, in which a put
    adds or replaces bins, the benchmark and the later check find no error.

  \<^bold>\<open>Parameters\<close>

  numpy, scipy, BLAS, h5py, faiss, nni, scikit-learn, keras, Pillow, setuptools, pip, the Aerospike client, the clock, and the
  C++ index behind its Python wrapper are arguments of the definitions. What is relied on of them is a named
  hypothesis (\<open>lawful_set_order\<close>, \<open>lawful_argpartition\<close>, \<open>lawful_mean\<close>, \<open>lawful_flat\<close>, \<open>lawful_pq\<close>, \<open>lawful_mem\<close>, \<open>kv_laws\<close>, \<open>pil_laws\<close>, \<open>batch_ok\<close> and others), and
  the witnesses instantiate it. Loops that may not end have no fuel: not returning is the value \<open>None\<close>, so that
  returning is part of what is proved.

  \<^bold>\<open>Not modelled\<close>

  The C++ and CUDA code (AnnService, GPUSupport, Wrappers, the C++ tests), build files and configuration; console output
  and drawing; the text of a float in a csv cell; abbreviated options of argparse; the rows of a table written
  before an exception; the state after an uncaught exception inside \<open>gpusearch\<close>; the archive embedded in
  \<^verbatim>\<open>get-pip.py\<close>, which is data; \<^verbatim>\<open>setup.py\<close> on Windows; sorting of distances with NaN in the notebooks;
  directories in \<open>gpusearch\<close>; HDF5 data of another rank than a matrix beyond the reader.
\<close>

end
